theory Spec2Isabelle
  imports Complex_Main "HOL-Library.Char_ord" "HOL-Library.List_Lexorder"
    "HOL-Library.Product_Lexorder" "HOL-Library.AList"
begin

section \<open>Strings\<close>

text \<open>
  JavaScript strings are modelled as \<open>string\<close>; the relational operators on strings
  (\<open>a < b\<close>) compare code units lexicographically, which is the order that
  \<open>List_Lexorder\<close> and \<open>Char_ord\<close> give to \<open>char list\<close>.
\<close>

definition is_digit :: "char \<Rightarrow> bool" where
  "is_digit c \<longleftrightarrow> CHR ''0'' \<le> c \<and> c \<le> CHR ''9''"

text \<open>The test \<^verbatim>\<open>/^\d{4}-\d{2}-\d{2}$/.test(s)\<close>.\<close>

definition is_ymd :: "string \<Rightarrow> bool" where
  "is_ymd s \<longleftrightarrow>
     length s = 10 \<and> list_all is_digit (take 4 s) \<and> s ! 4 = CHR ''-'' \<and>
     list_all is_digit (take 2 (drop 5 s)) \<and> s ! 7 = CHR ''-'' \<and>
     list_all is_digit (drop 8 s)"

text \<open>\<^verbatim>\<open>String.prototype.trim\<close> on the ASCII white space characters.\<close>

definition is_space :: "char \<Rightarrow> bool" where
  "is_space c \<longleftrightarrow> c \<in> set [CHR '' '', CHR 0x09, CHR 0x0A, CHR 0x0B, CHR 0x0C, CHR 0x0D]"

definition trim :: "string \<Rightarrow> string" where
  "trim s = rev (dropWhile is_space (rev (dropWhile is_space s)))"

definition upper_char :: "char \<Rightarrow> char" where
  "upper_char c =
     (case map_of (zip ''abcdefghijklmnopqrstuvwxyz'' ''ABCDEFGHIJKLMNOPQRSTUVWXYZ'') c of
        Some u \<Rightarrow> u | None \<Rightarrow> c)"

definition toUpperCase :: "string \<Rightarrow> string" where
  "toUpperCase s = map upper_char s"

text \<open>\<^verbatim>\<open>s.split(c)\<close> for a one-character separator.\<close>

fun split_on :: "char \<Rightarrow> string \<Rightarrow> string list" where
  "split_on c [] = [[]]"
| "split_on c (x # xs) =
     (if x = c then [] # split_on c xs
      else (case split_on c xs of p # ps \<Rightarrow> (x # p) # ps | [] \<Rightarrow> [[x]]))"

text \<open>Decimal digits of a natural number, and left padding with zeros.\<close>

definition digit_char :: "nat \<Rightarrow> char" where
  "digit_char n = ''0123456789'' ! (n mod 10)"

fun show_nat :: "nat \<Rightarrow> string" where
  "show_nat n = (if n < 10 then [digit_char n] else show_nat (n div 10) @ [digit_char n])"

declare show_nat.simps [simp del]

definition pad_zero :: "nat \<Rightarrow> string \<Rightarrow> string" where
  "pad_zero w s = replicate (w - length s) CHR ''0'' @ s"

definition digit_val :: "char \<Rightarrow> nat" where
  "digit_val c = of_char c - 48"

definition digits_val :: "string \<Rightarrow> nat" where
  "digits_val s = foldl (\<lambda>n c. 10 * n + digit_val c) 0 s"

section \<open>Calendar dates\<close>

text \<open>
  A \<^verbatim>\<open>Date\<close> at local midnight is modelled by its civil date (year, month 1..12, day) in
  the proleptic Gregorian calendar that \<^verbatim>\<open>Date\<close> implements. The script time zone passed
  to \<^verbatim>\<open>Utilities.formatDate\<close> is the zone in which \<^verbatim>\<open>new Date(y, m, d)\<close> builds the date,
  so formatting returns the civil date that was built.
\<close>

type_synonym civil = "int \<times> nat \<times> nat"

definition leap :: "int \<Rightarrow> bool" where
  "leap y \<longleftrightarrow> y mod 4 = 0 \<and> (y mod 100 \<noteq> 0 \<or> y mod 400 = 0)"

definition days_in_month :: "int \<Rightarrow> nat \<Rightarrow> nat" where
  "days_in_month y m =
     (if m = 2 then (if leap y then 29 else 28)
      else if m = 4 \<or> m = 6 \<or> m = 9 \<or> m = 11 then 30 else 31)"

fun next_day :: "civil \<Rightarrow> civil" where
  "next_day (y, m, d) =
     (if d < days_in_month y m then (y, m, d + 1)
      else if m < 12 then (y, m + 1, 1) else (y + 1, 1, 1))"

fun prev_day :: "civil \<Rightarrow> civil" where
  "prev_day (y, m, d) =
     (if 1 < d then (y, m, d - 1)
      else if 1 < m then (y, m - 1, days_in_month y (m - 1)) else (y - 1, 12, 31))"

text \<open>Moving a date by \<open>k\<close> calendar days, as \<^verbatim>\<open>d.setDate(d.getDate() + k)\<close> does.\<close>

definition shift_days :: "civil \<Rightarrow> int \<Rightarrow> civil" where
  "shift_days c k = (if 0 \<le> k then (next_day ^^ nat k) c else (prev_day ^^ nat (- k)) c)"

text \<open>
  \<^verbatim>\<open>new Date(year, monthIndex, day)\<close>: a year argument in 0..99 means 1900 + year, a month
  index outside 0..11 carries into the year, and a day outside the month carries into the
  neighbouring months.
\<close>

definition mkDate :: "int \<Rightarrow> int \<Rightarrow> int \<Rightarrow> civil" where
  "mkDate y mi d =
     (let y' = (if 0 \<le> y \<and> y \<le> 99 then 1900 + y else y)
      in shift_days (y' + mi div 12, nat (mi mod 12) + 1, 1) (d - 1))"

text \<open>
  \<^verbatim>\<open>Number(part)\<close> for the parts of a split date string: a string of decimal digits is its
  value and the empty string is 0. Any other part is outside the model (\<open>None\<close>): the
  script only passes dates that it has formatted itself or that matched the date pattern.
\<close>

definition Number_part :: "string \<Rightarrow> int option" where
  "Number_part s = (if list_all is_digit s then Some (int (digits_val s)) else None)"

text \<open>\<^verbatim>\<open>ymdToLocalDate_\<close>; \<open>None\<close> stands for an invalid \<^verbatim>\<open>Date\<close>.\<close>

definition ymdToLocalDate :: "string \<Rightarrow> civil option" where
  "ymdToLocalDate ymd =
     (case map Number_part (split_on CHR ''-'' ymd) of
        Some y # Some m # Some d # _ \<Rightarrow> Some (mkDate y (m - 1) d)
      | _ \<Rightarrow> None)"

text \<open>
  \<^verbatim>\<open>Utilities.formatDate(d, tz, "yyyy-MM-dd")\<close>: the year of the era with at least four
  digits, month and day with two.
\<close>

fun formatDate :: "civil \<Rightarrow> string" where
  "formatDate (y, m, d) =
     pad_zero 4 (show_nat (nat (if 0 < y then y else 1 - y))) @ ''-'' @
     pad_zero 2 (show_nat m) @ ''-'' @ pad_zero 2 (show_nat d)"

text \<open>\<^verbatim>\<open>addDaysYMD_(ymd, deltaDays, tz)\<close>.\<close>

definition addDaysYMD :: "string \<Rightarrow> int \<Rightarrow> string option" where
  "addDaysYMD ymd deltaDays =
     (case ymdToLocalDate ymd of
        None \<Rightarrow> None
      | Some d \<Rightarrow> Some (formatDate (shift_days d deltaDays)))"

section \<open>Numbers\<close>

text \<open>
  A JavaScript \<^verbatim>\<open>Number\<close> is an IEEE 754 binary64 value. \<open>Fin r\<close> is the finite value
  \<open>r\<close>, with \<open>Fin 0\<close> the positive zero; \<open>NZero\<close> is the negative zero. Every finite
  result of an operation is the exact result rounded to the nearest value with 53
  significant bits, ties to the even one, with exponents from -1022 to 1023, gradual
  underflow to the multiples of \<open>2\<^sup>-\<^sup>1\<^sup>0\<^sup>7\<^sup>4\<close> and overflow to the infinities.
\<close>

datatype jsnum = Fin real | NZero | PInf | NInf | NaN

definition isFinite :: "jsnum \<Rightarrow> bool" where
  "isFinite x = (case x of Fin _ \<Rightarrow> True | NZero \<Rightarrow> True | _ \<Rightarrow> False)"

text \<open>The real value of a finite number, and the sign bit of a number that is not \<open>NaN\<close>.\<close>

definition jval :: "jsnum \<Rightarrow> real" where
  "jval x = (case x of Fin r \<Rightarrow> r | _ \<Rightarrow> 0)"

definition sign_bit :: "jsnum \<Rightarrow> bool" where
  "sign_bit x = (case x of Fin r \<Rightarrow> r < 0 | NZero \<Rightarrow> True | NInf \<Rightarrow> True | _ \<Rightarrow> False)"

definition signed_zero :: "bool \<Rightarrow> jsnum" where
  "signed_zero neg = (if neg then NZero else Fin 0)"

definition jsign_inf :: "bool \<Rightarrow> jsnum" where
  "jsign_inf neg = (if neg then NInf else PInf)"

text \<open>The nearest integer, the even one of two nearest.\<close>

definition round_even :: "real \<Rightarrow> int" where
  "round_even m =
     (let f = \<lfloor>m\<rfloor> in
      if m - of_int f < 1 / 2 then f
      else if 1 / 2 < m - of_int f then f + 1
      else if even f then f else f + 1)"

text \<open>
  The double nearest to a real number: with \<open>q\<close> the exponent of the last of the 53 bits
  (not below -1074), the number is rounded to a multiple of \<open>2\<^sup>q\<close>.
\<close>

definition round_double :: "real \<Rightarrow> jsnum" where
  "round_double r =
     (if r = 0 then Fin 0
      else
        let q = max \<lfloor>log 2 \<bar>r\<bar>\<rfloor> (- 1022) - 52;
            n = round_even (\<bar>r\<bar> / 2 powi q);
            v = of_int n * 2 powi q
        in if 2 ^ 1024 \<le> v then jsign_inf (r < 0)
           else if n = 0 then signed_zero (r < 0)
           else Fin (if r < 0 then - v else v))"

definition jneg :: "jsnum \<Rightarrow> jsnum" where
  "jneg x =
     (case x of
        Fin r \<Rightarrow> (if r = 0 then NZero else Fin (- r))
      | NZero \<Rightarrow> Fin 0 | PInf \<Rightarrow> NInf | NInf \<Rightarrow> PInf | NaN \<Rightarrow> NaN)"

text \<open>
  A sum that is exactly zero is the negative zero only if both summands are negative
  zeros; two infinities of opposite sign give \<open>NaN\<close>.
\<close>

definition jadd :: "jsnum \<Rightarrow> jsnum \<Rightarrow> jsnum" where
  "jadd x y =
     (if x = NaN \<or> y = NaN then NaN
      else if isFinite x \<and> isFinite y then
        (if jval x + jval y = 0 then signed_zero (sign_bit x \<and> sign_bit y)
         else round_double (jval x + jval y))
      else if isFinite x then y
      else if isFinite y then x
      else if x = y then x else NaN)"

definition jsub :: "jsnum \<Rightarrow> jsnum \<Rightarrow> jsnum" where
  "jsub x y = jadd x (jneg y)"

text \<open>The sign of a product or quotient is the exclusive or of the signs.\<close>

definition jmul :: "jsnum \<Rightarrow> jsnum \<Rightarrow> jsnum" where
  "jmul x y =
     (if x = NaN \<or> y = NaN then NaN
      else if isFinite x \<and> isFinite y then
        (if jval x * jval y = 0 then signed_zero (sign_bit x \<noteq> sign_bit y)
         else round_double (jval x * jval y))
      else if (isFinite x \<and> jval x = 0) \<or> (isFinite y \<and> jval y = 0) then NaN
      else jsign_inf (sign_bit x \<noteq> sign_bit y))"

text \<open>Division never raises: a zero divisor gives an infinity or \<open>NaN\<close>.\<close>

definition jdiv :: "jsnum \<Rightarrow> jsnum \<Rightarrow> jsnum" where
  "jdiv x y =
     (if x = NaN \<or> y = NaN then NaN
      else if isFinite x \<and> isFinite y then
        (if jval y = 0 then (if jval x = 0 then NaN else jsign_inf (sign_bit x \<noteq> sign_bit y))
         else if jval x = 0 then signed_zero (sign_bit x \<noteq> sign_bit y)
         else round_double (jval x / jval y))
      else if isFinite x then signed_zero (sign_bit x \<noteq> sign_bit y)
      else if isFinite y then jsign_inf (sign_bit x \<noteq> sign_bit y)
      else NaN)"

text \<open>\<^verbatim>\<open>Math.sqrt\<close>, correctly rounded.\<close>

definition jsqrt :: "jsnum \<Rightarrow> jsnum" where
  "jsqrt x =
     (case x of
        Fin r \<Rightarrow> (if r < 0 then NaN else round_double (sqrt r))
      | NZero \<Rightarrow> NZero | PInf \<Rightarrow> PInf | _ \<Rightarrow> NaN)"

text \<open>
  \<^verbatim>\<open>x < y\<close>, \<^verbatim>\<open>x === y\<close> and \<^verbatim>\<open>x <= y\<close> are false as soon as one side is \<open>NaN\<close>; the two
  zeros are equal.
\<close>

definition jless :: "jsnum \<Rightarrow> jsnum \<Rightarrow> bool" where
  "jless x y \<longleftrightarrow>
     x \<noteq> NaN \<and> y \<noteq> NaN \<and>
     (if isFinite x \<and> isFinite y then jval x < jval y
      else (x = NInf \<and> y \<noteq> NInf) \<or> (y = PInf \<and> x \<noteq> PInf))"

definition jeq :: "jsnum \<Rightarrow> jsnum \<Rightarrow> bool" where
  "jeq x y \<longleftrightarrow>
     x \<noteq> NaN \<and> y \<noteq> NaN \<and>
     (if isFinite x \<and> isFinite y then jval x = jval y else x = y)"

definition jle :: "jsnum \<Rightarrow> jsnum \<Rightarrow> bool" where
  "jle x y \<longleftrightarrow> jless x y \<or> jeq x y"

text \<open>
  \<^verbatim>\<open>parseFloat(s)\<close>: leading white space, an optional sign, then the longest prefix that
  is \<^verbatim>\<open>Infinity\<close> or a decimal literal with optional fraction and exponent; the result
  is the double nearest to the decimal value.
\<close>

definition exponent_of :: "string \<Rightarrow> int" where
  "exponent_of s =
     (case s of
        [] \<Rightarrow> 0
      | c # r \<Rightarrow>
          if c = CHR ''e'' \<or> c = CHR ''E'' then
            (case r of
               [] \<Rightarrow> 0
             | g # r' \<Rightarrow>
                 if g = CHR ''-'' then - int (digits_val (takeWhile is_digit r'))
                 else if g = CHR ''+'' then int (digits_val (takeWhile is_digit r'))
                 else int (digits_val (takeWhile is_digit r)))
          else 0)"

definition pow10 :: "int \<Rightarrow> real" where
  "pow10 e = (if 0 \<le> e then 10 ^ nat e else 1 / 10 ^ nat (- e))"

definition str_decimal :: "string \<Rightarrow> jsnum" where
  "str_decimal s =
     (if take 8 s = ''Infinity'' then PInf
      else
        let ip = takeWhile is_digit s;
            r1 = dropWhile is_digit s;
            dot = (case r1 of c # _ \<Rightarrow> c = CHR ''.'' | [] \<Rightarrow> False);
            fp = (if dot then takeWhile is_digit (tl r1) else []);
            r2 = (if dot then dropWhile is_digit (tl r1) else r1)
        in if ip = [] \<and> fp = [] then NaN
           else round_double ((real (digits_val ip) + real (digits_val fp) / 10 ^ length fp)
                              * pow10 (exponent_of r2)))"

definition parseFloat :: "string \<Rightarrow> jsnum" where
  "parseFloat s =
     (case dropWhile is_space s of
        [] \<Rightarrow> NaN
      | c # r \<Rightarrow>
          if c = CHR ''-'' then jneg (str_decimal r)
          else if c = CHR ''+'' then str_decimal r
          else str_decimal (c # r))"

text \<open>
  \<^verbatim>\<open>x.toFixed(f)\<close>: the nearest multiple of \<open>10\<^sup>-\<^sup>f\<close>, the larger one on a tie, printed
  with exactly \<open>f\<close> decimals. (From \<open>10\<^sup>2\<^sup>1\<close> on JavaScript switches to exponent notation;
  prices and percentages are far below, and the model prints plain digits throughout.)
\<close>

definition toFixed_real :: "real \<Rightarrow> nat \<Rightarrow> string" where
  "toFixed_real r f =
     (let n = nat \<lfloor>\<bar>r\<bar> * 10 ^ f + 1 / 2\<rfloor>;
          ds = pad_zero (f + 1) (show_nat n);
          k = length ds - f
      in (if r < 0 then ''-'' else []) @ take k ds @
         (if f = 0 then [] else ''.'' @ drop k ds))"

definition toFixed :: "jsnum \<Rightarrow> nat \<Rightarrow> string" where
  "toFixed x f =
     (case x of
        NaN \<Rightarrow> ''NaN'' | PInf \<Rightarrow> ''Infinity'' | NInf \<Rightarrow> ''-Infinity''
      | NZero \<Rightarrow> toFixed_real 0 f
      | Fin r \<Rightarrow> toFixed_real r f)"

section \<open>Tables, objects and the external collaborators\<close>

text \<open>
  A CSV file is modelled by the table that \<^verbatim>\<open>Utilities.parseCsv\<close> returns for it, a list
  of rows of strings; writing a table and parsing it again is taken to give the table back.
  A plain object used as a dictionary is an association list in insertion order
  (\<^verbatim>\<open>Object.keys\<close> and \<^verbatim>\<open>Object.values\<close> enumerate string keys in that order, and an
  assignment to an existing key keeps its place): \<^const>\<open>AList.update\<close>.
\<close>

type_synonym row = "string list"
type_synonym table = "row list"

text \<open>\<^verbatim>\<open>normalizeRowWidth_\<close>: pad with empty strings, then truncate.\<close>

definition normalizeRowWidth :: "row \<Rightarrow> nat \<Rightarrow> row" where
  "normalizeRowWidth r width = take width (r @ replicate (width - length r) [])"

fun findIndex :: "('a \<Rightarrow> bool) \<Rightarrow> 'a list \<Rightarrow> nat option" where
  "findIndex P [] = None"
| "findIndex P (x # xs) = (if P x then Some 0 else map_option Suc (findIndex P xs))"

definition indexOf :: "'a list \<Rightarrow> 'a \<Rightarrow> nat option" where
  "indexOf xs x = findIndex (\<lambda>y. y = x) xs"

fun str_includes :: "string \<Rightarrow> string \<Rightarrow> bool" where
  "str_includes [] p = (p = [])"
| "str_includes (x # xs) p = (take (length p) (x # xs) = p \<or> str_includes xs p)"

definition lower_char :: "char \<Rightarrow> char" where
  "lower_char c =
     (case map_of (zip ''ABCDEFGHIJKLMNOPQRSTUVWXYZ'' ''abcdefghijklmnopqrstuvwxyz'') c of
        Some u \<Rightarrow> u | None \<Rightarrow> c)"

definition toLowerCase :: "string \<Rightarrow> string" where
  "toLowerCase s = map lower_char s"

text \<open>A \<^verbatim>\<open>Set\<close> keeps its members in the order of their first insertion.\<close>

definition set_add :: "'a \<Rightarrow> 'a list \<Rightarrow> 'a list" where
  "set_add x xs = (if x \<in> set xs then xs else xs @ [x])"

definition new_Set :: "'a list \<Rightarrow> 'a list" where
  "new_Set xs = fold set_add xs []"

datatype error =
    HistEmpty | HeaderMissing | InvalidDate | HistNoValidDates
  | PerfNoRows | PerfBasePortfolioInvalid | PerfBaseBenchmarkInvalid

record colmap =
  col_date :: nat
  col_ticker :: nat
  col_price :: nat
  col_width :: nat

text \<open>
  \<^verbatim>\<open>buildColumnMap_\<close>. The field \<open>col_width\<close> is the property \<^verbatim>\<open>col.width\<close> that
  \<^verbatim>\<open>updateHistDatabase_\<close> adds afterwards; it is 0 until then.
\<close>

definition buildColumnMap :: "row \<Rightarrow> error + colmap" where
  "buildColumnMap header =
     (let h = map (\<lambda>v. toLowerCase (trim v)) header;
          priceIdx =
            (case indexOf h ''adjclose'' of
               Some i \<Rightarrow> Some i
             | None \<Rightarrow>
                 (case indexOf h ''close'' of
                    Some i \<Rightarrow> Some i
                  | None \<Rightarrow>
                      findIndex (\<lambda>x. str_includes x ''adjclose'' \<or> str_includes x ''close'' \<or>
                                      str_includes x ''price'') h))
      in case (indexOf h ''date'', indexOf h ''ticker'', priceIdx) of
           (Some d, Some t, Some p) \<Rightarrow>
             Inr \<lparr>col_date = d, col_ticker = t, col_price = p, col_width = 0\<rparr>
         | _ \<Rightarrow> Inl HeaderMissing)"

text \<open>
  A value read from the scratch sheet is a \<^verbatim>\<open>Date\<close>, a number or a string.
  \<^verbatim>\<open>parseFloat\<close> prints its argument and parses the string: of a number it is the number
  (the positive zero for the negative one, which prints as \<^verbatim>\<open>0\<close>); of a \<^verbatim>\<open>Date\<close> it is
  \<open>NaN\<close>.
\<close>

datatype cell = CDate civil | CNum jsnum | CStr string

definition parseFloat_cell :: "cell \<Rightarrow> jsnum" where
  "parseFloat_cell c =
     (case c of
        CNum x \<Rightarrow> (if x = NZero then Fin 0 else x)
      | CStr s \<Rightarrow> parseFloat s
      | CDate _ \<Rightarrow> NaN)"

text \<open>
  What one invocation observes of the outside: the elapsed time \<^verbatim>\<open>Date.now() - startTime\<close>
  read at the start of the \<open>i\<close>-th iteration of the backfill loop, the values the sheet
  shows for the range formula of a ticker and a date range, and the value it shows for the
  live-price formula of a ticker.
\<close>

record world =
  elapsed :: "nat \<Rightarrow> int"
  rangeQuote :: "string \<Rightarrow> string \<Rightarrow> string \<Rightarrow> cell list list"
  liveQuote :: "string \<Rightarrow> cell"

text \<open>The configuration values the engine reads, after \<^verbatim>\<open>Number(...)\<close>.\<close>

record config =
  MIN_BACKFILL_DAYS :: int
  CHUNK_DAYS :: int
  RUNTIME_BUDGET_MS :: int
  MIN_CORR_RETURNS :: nat
  CORR_ALERT_THRESHOLD :: jsnum

text \<open>
  The persisted state: the script properties (cursor store), the historical price file
  and the performance log file.
\<close>

record store =
  props :: "string \<rightharpoonup> string"
  hist_csv :: table
  log_csv :: table

section \<open>The historical store: purge, backfill, live quote\<close>

text \<open>
  \<^verbatim>\<open>ingestBackfillChunk_\<close>: the body of the \<^verbatim>\<open>forEach\<close> over the returned rows, then the
  function. The result is the number of ingested rows and the updated dedupe object.
\<close>

definition ingest_row ::
  "colmap \<Rightarrow> string \<Rightarrow> string \<Rightarrow> string \<Rightarrow> cell list \<Rightarrow> nat \<times> (string \<times> row) list
     \<Rightarrow> nat \<times> (string \<times> row) list" where
  "ingest_row col ticker requiredStart today v acc =
     (case v of
        CDate d # rest \<Rightarrow>
          let dStr = formatDate d in
          if dStr < requiredStart \<or> dStr \<ge> today then acc
          else
            let px = (case rest of c # _ \<Rightarrow> parseFloat_cell c | [] \<Rightarrow> NaN) in
            if \<not> isFinite px then acc
            else
              let row = (replicate (col_width col) [])
                          [col_date col := dStr, col_ticker col := ticker,
                           col_price col := toFixed px 2]
              in (fst acc + 1, AList.update (dStr @ ''|'' @ ticker) row (snd acc))
      | _ \<Rightarrow> acc)"

definition ingestBackfillChunk ::
  "world \<Rightarrow> string \<Rightarrow> string \<Rightarrow> string \<Rightarrow> string \<Rightarrow> string \<Rightarrow> (string \<times> row) list \<Rightarrow> colmap
     \<Rightarrow> nat \<times> (string \<times> row) list" where
  "ingestBackfillChunk w ticker chunkStart chunkEnd requiredStart today m col =
     (let values = rangeQuote w ticker chunkStart chunkEnd in
      if length values < 2 then (0, m)
      else fold (ingest_row col ticker requiredStart today) (tl values) (0, m))"

text \<open>\<^verbatim>\<open>getBatchPricesScratch_\<close>: the object \<^verbatim>\<open>out\<close>.\<close>

definition getBatchPricesScratch :: "world \<Rightarrow> string list \<Rightarrow> (string \<rightharpoonup> jsnum)" where
  "getBatchPricesScratch w tickers =
     fold (\<lambda>t out.
             let k = toUpperCase (trim t); v = parseFloat_cell (liveQuote w t) in
             if k \<noteq> [] then out(k \<mapsto> (if isFinite v then v else Fin 0)) else out)
          tickers Map.empty"

text \<open>
  The per-ticker coverage bounds. \<open>None\<close> is \<^verbatim>\<open>null\<close>; \<^verbatim>\<open>!bounds[t].min\<close> also holds for
  the empty string.
\<close>

definition upd_min :: "string \<Rightarrow> string option \<Rightarrow> string option" where
  "upd_min d mn = (case mn of None \<Rightarrow> Some d | Some m \<Rightarrow> if m = [] \<or> d < m then Some d else Some m)"

definition upd_max :: "string \<Rightarrow> string option \<Rightarrow> string option" where
  "upd_max d mx = (case mx of None \<Rightarrow> Some d | Some m \<Rightarrow> if m = [] \<or> d > m then Some d else Some m)"

definition bounds_step ::
  "string \<Rightarrow> (string \<rightharpoonup> string option \<times> string option)
     \<Rightarrow> (string \<rightharpoonup> string option \<times> string option)" where
  "bounds_step k b =
     (case split_on CHR ''|'' k of
        d # t # _ \<Rightarrow>
          (case b t of
             None \<Rightarrow> b
           | Some (mn, mx) \<Rightarrow> b(t \<mapsto> (upd_min d mn, upd_max d mx)))
      | _ \<Rightarrow> b)"

text \<open>
  The state of the backfill loop: the script properties, the dedupe object, the set of
  unfinished tickers, and (as a record of the effect on the sheet) the list of range
  formulas issued so far, each as ticker, first and last date.
\<close>

record loop_state =
  ls_props :: "string \<rightharpoonup> string"
  ls_map :: "(string \<times> row) list"
  ls_unfinished :: "string list"
  ls_requests :: "(string \<times> string \<times> string) list"

text \<open>
  One iteration of \<^verbatim>\<open>for (const t of requiredTickers)\<close>, the \<open>i\<close>-th: first the tests
  \<^verbatim>\<open>needsYear\<close> and the choice of \<^verbatim>\<open>chunkEnd\<close>, then the body. A \<^verbatim>\<open>null\<close> property or
  bound is \<open>None\<close>; the empty string is falsy as well.
\<close>

definition cursorKey :: "string \<Rightarrow> string" where
  "cursorKey t = ''CURSOR_'' @ t"

definition needsYear_of :: "string option \<Rightarrow> string \<Rightarrow> bool" where
  "needsYear_of minHave requiredStart =
     (case minHave of None \<Rightarrow> True | Some m \<Rightarrow> m = [] \<or> m > requiredStart)"

definition chunkEnd_from_coverage :: "string option \<Rightarrow> string \<Rightarrow> string option" where
  "chunkEnd_from_coverage minHave today =
     (case minHave of
        Some m \<Rightarrow> if m \<noteq> [] \<and> is_ymd m then addDaysYMD m (- 1) else addDaysYMD today (- 1)
      | None \<Rightarrow> addDaysYMD today (- 1))"

definition chunkEnd_of :: "string option \<Rightarrow> string option \<Rightarrow> string \<Rightarrow> string option" where
  "chunkEnd_of cursor minHave today =
     (case cursor of
        Some c \<Rightarrow> if c \<noteq> [] \<and> is_ymd c then Some c else chunkEnd_from_coverage minHave today
      | None \<Rightarrow> chunkEnd_from_coverage minHave today)"

definition backfill_ticker ::
  "config \<Rightarrow> world \<Rightarrow> colmap \<Rightarrow> string \<Rightarrow> string
     \<Rightarrow> (string \<rightharpoonup> string option \<times> string option) \<Rightarrow> nat \<Rightarrow> string \<Rightarrow> loop_state
     \<Rightarrow> error + loop_state" where
  "backfill_ticker C w col today requiredStart bounds i t st =
     (if elapsed w i > RUNTIME_BUDGET_MS C
      then Inr (st\<lparr>ls_unfinished := set_add t (ls_unfinished st)\<rparr>)
      else
        let minHave = (case bounds t of None \<Rightarrow> None | Some b \<Rightarrow> fst b) in
        if \<not> needsYear_of minHave requiredStart then Inr st
        else
          let cursor = ls_props st (cursorKey t) in
          case chunkEnd_of cursor minHave today of
            None \<Rightarrow> Inl InvalidDate
          | Some chunkEnd \<Rightarrow>
              if chunkEnd < requiredStart
              then Inr (st\<lparr>ls_props := (ls_props st)(cursorKey t := None)\<rparr>)
              else
                (case addDaysYMD chunkEnd (- (CHUNK_DAYS C - 1)) of
                   None \<Rightarrow> Inl InvalidDate
                 | Some tentativeStart \<Rightarrow>
                     let chunkStart =
                           (if tentativeStart < requiredStart then requiredStart
                            else tentativeStart);
                         ingested = ingestBackfillChunk w t chunkStart chunkEnd requiredStart
                                      today (ls_map st) col
                     in
                     case addDaysYMD chunkStart (- 1) of
                       None \<Rightarrow> Inl InvalidDate
                     | Some nextEnd \<Rightarrow>
                         Inr (st\<lparr>ls_map := snd ingested,
                                 ls_requests := ls_requests st @ [(t, chunkStart, chunkEnd)],
                                 ls_props :=
                                   (if nextEnd \<ge> requiredStart
                                    then (ls_props st)(cursorKey t \<mapsto> nextEnd)
                                    else (ls_props st)(cursorKey t := None))\<rparr>)))"

fun backfill_loop ::
  "config \<Rightarrow> world \<Rightarrow> colmap \<Rightarrow> string \<Rightarrow> string
     \<Rightarrow> (string \<rightharpoonup> string option \<times> string option) \<Rightarrow> nat \<Rightarrow> string list \<Rightarrow> loop_state
     \<Rightarrow> error + loop_state" where
  "backfill_loop C w col today requiredStart bounds i [] st = Inr st"
| "backfill_loop C w col today requiredStart bounds i (t # ts) st =
     (case backfill_ticker C w col today requiredStart bounds i t st of
        Inl e \<Rightarrow> Inl e
      | Inr st' \<Rightarrow> backfill_loop C w col today requiredStart bounds (Suc i) ts st')"

text \<open>The live quote of one required ticker, merged under today's key if it is positive.\<close>

definition live_row ::
  "colmap \<Rightarrow> string \<Rightarrow> (string \<rightharpoonup> jsnum) \<Rightarrow> string \<Rightarrow> (string \<times> row) list
     \<Rightarrow> (string \<times> row) list" where
  "live_row col today livePrices t m =
     (let p = (case livePrices t of
                 None \<Rightarrow> Fin 0
               | Some v \<Rightarrow> if v = NaN \<or> v = Fin 0 \<or> v = NZero then Fin 0 else v)
      in if jless (Fin 0) p
         then AList.update (today @ ''|'' @ t)
                ((replicate (col_width col) [])
                   [col_date col := today, col_ticker col := t, col_price col := toFixed p 2]) m
         else m)"

record hist_result =
  purgedTickers :: "string list"
  unfinishedTickers :: "string list"

text \<open>
  \<^verbatim>\<open>updateHistDatabase_\<close>. The result is the new persisted state, the returned object and
  the list of range requests. The parameter \<^verbatim>\<open>policyRequiredSet\<close> only selects which
  missing live quotes are logged as warnings and is left out.
\<close>

definition row_ticker :: "colmap \<Rightarrow> row \<Rightarrow> string" where
  "row_ticker col r = toUpperCase (trim (r ! col_ticker col))"

definition dedupe_row :: "colmap \<Rightarrow> row \<Rightarrow> (string \<times> row) list \<Rightarrow> (string \<times> row) list" where
  "dedupe_row col r m =
     (let d = trim (r ! col_date col); t = row_ticker col r in
      if d = [] \<or> t = [] then m else AList.update (d @ ''|'' @ t) r m)"

definition hist_rows :: "colmap \<Rightarrow> table \<Rightarrow> table" where
  "hist_rows col parsed = map (\<lambda>r. normalizeRowWidth r (col_width col)) (tl parsed)"

definition purged_of :: "colmap \<Rightarrow> string list \<Rightarrow> table \<Rightarrow> string list" where
  "purged_of col requiredTickers rows =
     (let existingTickers = new_Set (filter (\<lambda>t. t \<noteq> []) (map (row_ticker col) rows))
      in filter (\<lambda>t. t \<notin> set requiredTickers) existingTickers)"

definition dedupe_map :: "colmap \<Rightarrow> string list \<Rightarrow> table \<Rightarrow> (string \<times> row) list" where
  "dedupe_map col requiredTickers rows =
     fold (dedupe_row col)
       (if purged_of col requiredTickers rows \<noteq> []
        then filter (\<lambda>r. row_ticker col r \<in> set requiredTickers) rows
        else rows) []"

definition coverage ::
  "string list \<Rightarrow> (string \<times> row) list \<Rightarrow> (string \<rightharpoonup> string option \<times> string option)" where
  "coverage requiredTickers m =
     fold bounds_step (map fst m)
       (\<lambda>t. if t \<in> set requiredTickers then Some (None, None) else None)"

definition updateHistDatabase ::
  "config \<Rightarrow> world \<Rightarrow> store \<Rightarrow> string \<Rightarrow> string list
     \<Rightarrow> error + store \<times> hist_result \<times> (string \<times> string \<times> string) list" where
  "updateHistDatabase C w s today requiredTickers =
     (let parsed = hist_csv s in
      if length parsed < 2 then Inl HistEmpty
      else
        case buildColumnMap (hd parsed) of
          Inl e \<Rightarrow> Inl e
        | Inr col0 \<Rightarrow>
            let header = hd parsed;
                col = col0\<lparr>col_width := length header\<rparr>;
                rows = hist_rows col parsed;
                purged = purged_of col requiredTickers rows;
                props1 = fold (\<lambda>t p. p(cursorKey t := None)) purged (props s);
                map0 = dedupe_map col requiredTickers rows;
                bounds = coverage requiredTickers map0
            in
            case addDaysYMD today (- MIN_BACKFILL_DAYS C) of
              None \<Rightarrow> Inl InvalidDate
            | Some requiredStart \<Rightarrow>
                (case backfill_loop C w col today requiredStart bounds 0 requiredTickers
                        \<lparr>ls_props = props1, ls_map = map0, ls_unfinished = [],
                         ls_requests = []\<rparr> of
                   Inl e \<Rightarrow> Inl e
                 | Inr st \<Rightarrow>
                     let livePrices = getBatchPricesScratch w requiredTickers;
                         map2 = fold (live_row col today livePrices) requiredTickers (ls_map st);
                         finalRows = sort_key (\<lambda>r. (r ! col_date col, toUpperCase (r ! col_ticker col)))
                                       (map snd map2)
                     in Inr (s\<lparr>props := ls_props st,
                               hist_csv := map (\<lambda>r. normalizeRowWidth r (col_width col))
                                             (header # finalRows)\<rparr>,
                             \<lparr>purgedTickers = purged, unfinishedTickers = ls_unfinished st\<rparr>,
                             ls_requests st)))"

section \<open>Analytics: alpha and correlation against a baseline\<close>

text \<open>\<^verbatim>\<open>String(r[i])\<close>: a missing element is \<^verbatim>\<open>undefined\<close>.\<close>

definition cellS :: "row \<Rightarrow> nat \<Rightarrow> string" where
  "cellS r i = (if i < length r then r ! i else ''undefined'')"

text \<open>\<^verbatim>\<open>m.get(k)\<close> of a \<^verbatim>\<open>Map\<close>, used as a number: a missing key gives \<open>NaN\<close>.\<close>

definition map_get :: "(string \<times> jsnum) list \<Rightarrow> string \<Rightarrow> jsnum" where
  "map_get m k = (case map_of m k of Some v \<Rightarrow> v | None \<Rightarrow> NaN)"

text \<open>\<^verbatim>\<open>pearson_\<close>: the five running sums, numerator, denominator, result.\<close>

definition pearson_sums ::
  "(jsnum \<times> jsnum) list \<Rightarrow> jsnum \<times> jsnum \<times> jsnum \<times> jsnum \<times> jsnum" where
  "pearson_sums ps =
     fold (\<lambda>(a, b) (sumX, sumY, sumXY, sumX2, sumY2).
             (jadd sumX a, jadd sumY b, jadd sumXY (jmul a b), jadd sumX2 (jmul a a),
              jadd sumY2 (jmul b b)))
          ps (Fin 0, Fin 0, Fin 0, Fin 0, Fin 0)"

definition pearson_num :: "jsnum list \<Rightarrow> jsnum list \<Rightarrow> jsnum" where
  "pearson_num x y =
     (let n = round_double (real (min (length x) (length y)));
          (sumX, sumY, sumXY, sumX2, sumY2) = pearson_sums (zip x y)
      in jsub (jmul n sumXY) (jmul sumX sumY))"

definition pearson_den :: "jsnum list \<Rightarrow> jsnum list \<Rightarrow> jsnum" where
  "pearson_den x y =
     (let n = round_double (real (min (length x) (length y)));
          (sumX, sumY, sumXY, sumX2, sumY2) = pearson_sums (zip x y)
      in jsqrt (jmul (jsub (jmul n sumX2) (jmul sumX sumX))
                     (jsub (jmul n sumY2) (jmul sumY sumY))))"

definition pearson :: "jsnum list \<Rightarrow> jsnum list \<Rightarrow> jsnum" where
  "pearson x y =
     (if min (length x) (length y) < 2 then NaN
      else if jeq (pearson_den x y) (Fin 0) then NaN
      else jdiv (pearson_num x y) (pearson_den x y))"

text \<open>\<^verbatim>\<open>intersectSortedKeys_\<close> on two \<^verbatim>\<open>Map\<close>s.\<close>

definition intersectSortedKeys ::
  "(string \<times> jsnum) list \<Rightarrow> (string \<times> jsnum) list \<Rightarrow> string list" where
  "intersectSortedKeys m1 m2 = sort (filter (\<lambda>k. k \<in> fst ` set m2) (map fst m1))"

text \<open>
  \<^verbatim>\<open>calculateAlphaAndCorrVsBenchmark_\<close>, in the order of the source: the two price maps
  filled by the loop over the rows, the aligned dates, the number \<^verbatim>\<open>alpha\<close>, the two
  return vectors, the number \<^verbatim>\<open>corrNum\<close>, and the strings of the result.
\<close>

definition price_maps_step ::
  "colmap \<Rightarrow> string \<Rightarrow> string \<Rightarrow> string \<Rightarrow> row
     \<Rightarrow> (string \<times> jsnum) list \<times> (string \<times> jsnum) list
     \<Rightarrow> (string \<times> jsnum) list \<times> (string \<times> jsnum) list" where
  "price_maps_step col T B startStr r maps =
     (let d = cellS r (col_date col) in
      if d < startStr then maps
      else
        let sym = toUpperCase (trim (cellS r (col_ticker col)));
            px = parseFloat (cellS r (col_price col))
        in if \<not> isFinite px then maps
           else ((if sym = T then AList.update d px (fst maps) else fst maps),
                 (if sym = B then AList.update d px (snd maps) else snd maps)))"

definition price_maps ::
  "table \<Rightarrow> colmap \<Rightarrow> string \<Rightarrow> string \<Rightarrow> string
     \<Rightarrow> (string \<times> jsnum) list \<times> (string \<times> jsnum) list" where
  "price_maps rows col T B startStr = fold (price_maps_step col T B startStr) rows ([], [])"

definition alpha_value ::
  "(string \<times> jsnum) list \<Rightarrow> (string \<times> jsnum) list \<Rightarrow> string list \<Rightarrow> jsnum" where
  "alpha_value tMap bMap dates =
     (let d0 = hd dates; dN = last dates;
          t0 = map_get tMap d0; tN = map_get tMap dN;
          b0 = map_get bMap d0; bN = map_get bMap dN;
          trT = jsub (jdiv tN t0) (Fin 1);
          trB = jsub (jdiv bN b0) (Fin 1)
      in jsub trT trB)"

definition return_pairs ::
  "(string \<times> jsnum) list \<Rightarrow> (string \<times> jsnum) list \<Rightarrow> string list \<Rightarrow> (jsnum \<times> jsnum) list" where
  "return_pairs tMap bMap dates =
     map (\<lambda>(prev, cur). (jsub (jdiv (map_get tMap cur) (map_get tMap prev)) (Fin 1),
                          jsub (jdiv (map_get bMap cur) (map_get bMap prev)) (Fin 1)))
         (filter (\<lambda>(prev, cur). isFinite (map_get tMap prev) \<and> isFinite (map_get tMap cur) \<and>
                                 isFinite (map_get bMap prev) \<and> isFinite (map_get bMap cur))
                 (zip dates (tl dates)))"

definition corr_value :: "config \<Rightarrow> (jsnum \<times> jsnum) list \<Rightarrow> jsnum" where
  "corr_value C xy =
     (if length xy \<ge> (if MIN_CORR_RETURNS C = 0 then 6 else MIN_CORR_RETURNS C)
      then pearson (map fst xy) (map snd xy) else NaN)"

text \<open>The two marker characters, a green and a red circle, as their UTF-8 bytes.\<close>

definition GREEN :: string where
  "GREEN = [CHR 0xF0, CHR 0x9F, CHR 0x9F, CHR 0xA2]"

definition RED :: string where
  "RED = [CHR 0xF0, CHR 0x9F, CHR 0x94, CHR 0xB4]"

definition alpha_str :: "jsnum \<Rightarrow> string" where
  "alpha_str a =
     (if jle (Fin 0) a then GREEN else RED) @ '' '' @ toFixed (jmul a (Fin 100)) 1 @ ''%''"

definition corr_str :: "config \<Rightarrow> jsnum \<Rightarrow> string" where
  "corr_str C c =
     (if isFinite c
      then (if jle c (CORR_ALERT_THRESHOLD C) then GREEN else RED) @ '' '' @ toFixed c 2
      else ''N/A'')"

record alpha_failure =
  err :: string
  err_policyStart :: string
  err_bench :: string

record alpha_result =
  bench :: string
  policyStart :: string
  windowStart :: string
  windowEnd :: string
  alpha :: string
  corr :: string

definition calculateAlphaAndCorrVsBenchmark ::
  "config \<Rightarrow> table \<Rightarrow> colmap \<Rightarrow> string \<Rightarrow> string \<Rightarrow> string \<Rightarrow> alpha_failure + alpha_result" where
  "calculateAlphaAndCorrVsBenchmark C rows col ticker bench0 startStr =
     (let T = toUpperCase (trim ticker); B = toUpperCase (trim bench0) in
      if startStr = [] \<or> \<not> is_ymd startStr
      then Inl \<lparr>err = ''BAD_DATE'',
                err_policyStart = (if startStr = [] then ''N/A'' else startStr), err_bench = B\<rparr>
      else
        let maps = price_maps rows col T B startStr; tMap = fst maps; bMap = snd maps in
        if length tMap < 2 \<or> length bMap < 2
        then Inl \<lparr>err = ''NO_DATA'', err_policyStart = startStr, err_bench = B\<rparr>
        else
          let dates = intersectSortedKeys tMap bMap in
          if length dates < 2
          then Inl \<lparr>err = ''GAP'', err_policyStart = startStr, err_bench = B\<rparr>
          else
            let a = alpha_value tMap bMap dates;
                corrNum = corr_value C (return_pairs tMap bMap dates)
            in Inr \<lparr>bench = B, policyStart = startStr, windowStart = hd dates,
                     windowEnd = last dates, alpha = alpha_str a, corr = corr_str C corrNum\<rparr>)"

section \<open>The performance ledger\<close>

definition buildPerfLogHeader :: "string list \<Rightarrow> row" where
  "buildPerfLogHeader benches =
     [''Date'', ''PortfolioValue''] @ map (\<lambda>b. ''Price_'' @ b) benches @ [''PortfolioPct''] @
     map (\<lambda>b. ''Pct_'' @ b) benches @ map (\<lambda>b. ''Diff_'' @ b) benches"

text \<open>\<^verbatim>\<open>Number(benchPrices[i])\<close>: a missing element is \<open>NaN\<close>.\<close>

definition num_at :: "jsnum list \<Rightarrow> nat \<Rightarrow> jsnum" where
  "num_at xs i = (if i < length xs then xs ! i else NaN)"

text \<open>
  The first part of \<^verbatim>\<open>upsertAndRecomputePerformanceLog_\<close>: the rows of the log with a
  well-formed date, without the row of \<^verbatim>\<open>dateStr\<close>, plus the new row, sorted by date.
\<close>

definition perf_data :: "table \<Rightarrow> string \<Rightarrow> jsnum \<Rightarrow> string list \<Rightarrow> jsnum list \<Rightarrow> table" where
  "perf_data rows dateStr portfolioVal benches benchPrices =
     (let width = length (buildPerfLogHeader benches);
          data0 = (if length rows \<ge> 2
                   then filter (\<lambda>r. is_ymd (r ! 0))
                          (map (\<lambda>r. normalizeRowWidth r width) (tl rows))
                   else []);
          data1 = filter (\<lambda>r. r ! 0 \<noteq> dateStr) data0;
          newRow = fold (\<lambda>i row. row[2 + i := toFixed (num_at benchPrices i) 2])
                     [0..<length benches]
                     ((replicate width [])[0 := dateStr, 1 := toFixed portfolioVal 2])
      in sort_key (\<lambda>r. r ! 0) (data1 @ [newRow]))"

definition perf_baseIndex :: "table \<Rightarrow> string \<Rightarrow> nat" where
  "perf_baseIndex data chartStart =
     (case (if is_ymd chartStart then findIndex (\<lambda>r. r ! 0 = chartStart) data else None) of
        None \<Rightarrow> 0 | Some i \<Rightarrow> i)"

definition pct_of :: "jsnum \<Rightarrow> jsnum \<Rightarrow> jsnum" where
  "pct_of v base = (if isFinite v \<and> jless (Fin 0) v then jsub (jdiv v base) (Fin 1) else NaN)"

definition pct_cell :: "nat \<Rightarrow> nat \<Rightarrow> jsnum \<Rightarrow> string" where
  "pct_cell ri baseIndex p =
     (if ri < baseIndex then ''N/A'' else if isFinite p then toFixed p 4 else ''N/A'')"

definition diff_cell :: "nat \<Rightarrow> nat \<Rightarrow> jsnum \<Rightarrow> jsnum \<Rightarrow> string" where
  "diff_cell ri baseIndex pPort pB =
     (if ri < baseIndex then ''N/A''
      else if \<not> isFinite pPort \<or> \<not> isFinite pB then ''N/A''
      else toFixed (jsub pPort pB) 4)"

text \<open>The body of \<^verbatim>\<open>data.map((r, ri) => ...)\<close>.\<close>

definition recompute_row :: "nat \<Rightarrow> nat \<Rightarrow> jsnum \<Rightarrow> jsnum list \<Rightarrow> nat \<Rightarrow> nat \<Rightarrow> row \<Rightarrow> row" where
  "recompute_row width n basePV baseB baseIndex ri r =
     (let portPctCol = 2 + n; pctStartCol = portPctCol + 1; diffStartCol = pctStartCol + n;
          row0 = normalizeRowWidth r width;
          pPort = pct_of (parseFloat (row0 ! 1)) basePV;
          row1 = row0[portPctCol := pct_cell ri baseIndex pPort];
          row2 = fold (\<lambda>i row. row[pctStartCol + i :=
                                      pct_cell ri baseIndex
                                        (pct_of (parseFloat (row ! (2 + i))) (baseB ! i))])
                   [0..<n] row1;
          row3 = fold (\<lambda>i row. row[diffStartCol + i :=
                                      diff_cell ri baseIndex pPort
                                        (parseFloat (row ! (pctStartCol + i)))])
                   [0..<n] row2
      in normalizeRowWidth row3 width)"

text \<open>
  \<^verbatim>\<open>upsertAndRecomputePerformanceLog_\<close>. The result is the error thrown, if any, and the
  persisted state afterwards. \<open>chart_start_date\<close> is the policy's
  \<^verbatim>\<open>governance.reporting_baselines.chart_start_date\<close>, empty if absent.
\<close>

definition valid_base :: "jsnum \<Rightarrow> bool" where
  "valid_base x \<longleftrightarrow> isFinite x \<and> \<not> jle x (Fin 0)"

definition upsertAndRecomputePerformanceLog ::
  "store \<Rightarrow> string \<Rightarrow> jsnum \<Rightarrow> string list \<Rightarrow> jsnum list \<Rightarrow> string \<Rightarrow> error option \<times> store" where
  "upsertAndRecomputePerformanceLog s dateStr portfolioVal benches benchPrices chart_start_date =
     (let chartStart = trim chart_start_date;
          header = buildPerfLogHeader benches;
          data = perf_data (log_csv s) dateStr portfolioVal benches benchPrices;
          baseIndex = perf_baseIndex data chartStart
      in
      if data = [] then (Some PerfNoRows, s)
      else
        let basePV = parseFloat (data ! baseIndex ! 1) in
        if \<not> valid_base basePV then (Some PerfBasePortfolioInvalid, s)
        else
          let baseB = map (\<lambda>i. parseFloat (data ! baseIndex ! (2 + i))) [0..<length benches] in
          if \<exists>x \<in> set baseB. \<not> valid_base x then (Some PerfBaseBenchmarkInvalid, s)
          else
            let out = map (\<lambda>(ri, r). recompute_row (length header) (length benches) basePV baseB
                                       baseIndex ri r)
                        (enumerate 0 data)
            in (None, s\<lparr>log_csv := map (\<lambda>r. normalizeRowWidth r (length header))
                                      (header # out)\<rparr>))"

section \<open>Notions used to state the properties\<close>

text \<open>A series has zero variance exactly if all its values are equal.\<close>

definition constant_series :: "jsnum list \<Rightarrow> bool" where
  "constant_series xs \<longleftrightarrow> list_all (\<lambda>a. a = hd xs) xs"

text \<open>
  The column map \<^verbatim>\<open>updateHistDatabase_\<close> works with and the earliest stored date it finds
  for a required ticker (\<^verbatim>\<open>bounds[t].min\<close>), as functions of the persisted state.
\<close>

definition hist_col :: "store \<Rightarrow> colmap" where
  "hist_col s =
     (case buildColumnMap (hd (hist_csv s)) of
        Inr col0 \<Rightarrow> col0\<lparr>col_width := length (hd (hist_csv s))\<rparr>
      | Inl _ \<Rightarrow> \<lparr>col_date = 0, col_ticker = 0, col_price = 0, col_width = 0\<rparr>)"

definition min_coverage :: "store \<Rightarrow> string list \<Rightarrow> string \<Rightarrow> string option" where
  "min_coverage s requiredTickers t =
     (case coverage requiredTickers
             (dedupe_map (hist_col s) requiredTickers (hist_rows (hist_col s) (hist_csv s))) t of
        None \<Rightarrow> None
      | Some b \<Rightarrow> fst b)"

text \<open>
  The backfill algorithm in the words of its description: the end of the chunk is the
  cursor if it is a well-formed date, else the day before the earliest stored date if there
  is one (and it is a well-formed date), else yesterday; the chunk starts
  \<open>chunkSize - 1\<close> days before its end, but not before the required start.
\<close>

definition spec_chunkEnd :: "string option \<Rightarrow> string option \<Rightarrow> string \<Rightarrow> string option" where
  "spec_chunkEnd cursor minHave today =
     (if cursor \<noteq> None \<and> is_ymd (the cursor) then cursor
      else if minHave \<noteq> None \<and> is_ymd (the minHave) then addDaysYMD (the minHave) (- 1)
      else addDaysYMD today (- 1))"

definition spec_chunkStart :: "string \<Rightarrow> int \<Rightarrow> string \<Rightarrow> string option" where
  "spec_chunkStart requiredStart chunkSize chunkEnd =
     map_option (max requiredStart) (addDaysYMD chunkEnd (- chunkSize + 1))"

text \<open>
  A returned row is usable if \<^verbatim>\<open>ingestBackfillChunk_\<close> ingests it: its first value is a
  \<^verbatim>\<open>Date\<close> inside the required window and before today, and its second value parses to a
  finite number.
\<close>

definition usable_row :: "string \<Rightarrow> string \<Rightarrow> cell list \<Rightarrow> bool" where
  "usable_row requiredStart today v =
     (case v of
        CDate d # rest \<Rightarrow>
          requiredStart \<le> formatDate d \<and> formatDate d < today \<and>
          isFinite (case rest of c # _ \<Rightarrow> parseFloat_cell c | [] \<Rightarrow> NaN)
      | _ \<Rightarrow> False)"

text \<open>
  The caller passes required tickers that are trimmed and in upper case. The pair a price
  row is keyed by is its trimmed date and its normalised ticker. The dedupe object keeps,
  under distinct keys, rows of the table's width that are stored under their own key and
  belong to required tickers.
\<close>

definition normalized_tickers :: "string list \<Rightarrow> bool" where
  "normalized_tickers ts \<longleftrightarrow> (\<forall>t \<in> set ts. toUpperCase (trim t) = t)"

definition row_key :: "colmap \<Rightarrow> row \<Rightarrow> string \<times> string" where
  "row_key col r = (trim (r ! col_date col), row_ticker col r)"

definition map_inv :: "colmap \<Rightarrow> string list \<Rightarrow> (string \<times> row) list \<Rightarrow> bool" where
  "map_inv col required m \<longleftrightarrow>
     distinct (map fst m) \<and>
     (\<forall>e \<in> set m. length (snd e) = col_width col \<and>
        fst e = fst (row_key col (snd e)) @ ''|'' @ snd (row_key col (snd e)) \<and>
        row_ticker col (snd e) \<in> set required)"

text \<open>The three columns found by \<^verbatim>\<open>buildColumnMap_\<close> are different columns of the table.\<close>

definition col_ok :: "colmap \<Rightarrow> bool" where
  "col_ok col \<longleftrightarrow>
     col_date col < col_width col \<and> col_ticker col < col_width col \<and>
     col_price col < col_width col \<and> col_date col \<noteq> col_ticker col \<and>
     col_date col \<noteq> col_price col \<and> col_ticker col \<noteq> col_price col"

text \<open>
  Civil dates that exist in the calendar, and the strings that denote one: a calendar date
  string is read by \<^verbatim>\<open>ymdToLocalDate_\<close> as a date that \<^verbatim>\<open>Utilities.formatDate\<close> prints back
  as the same string, in the years 100 to 9999 (\<^verbatim>\<open>new Date\<close> reads a year below 100 as
  19xx, and from 10000 on the year has five digits). On these strings the order of strings
  is the order of dates.
\<close>

definition valid_civil :: "civil \<Rightarrow> bool" where
  "valid_civil c = (case c of (y, m, d) \<Rightarrow> 1 \<le> m \<and> m \<le> 12 \<and> 1 \<le> d \<and> d \<le> days_in_month y m)"

definition calendar_date :: "string \<Rightarrow> bool" where
  "calendar_date s =
     (case ymdToLocalDate s of
        Some c \<Rightarrow> formatDate c = s \<and> 100 \<le> fst c \<and> fst c \<le> 9999
      | None \<Rightarrow> False)"

definition year_of :: "string \<Rightarrow> int" where
  "year_of s = int (digits_val (take 4 s))"





section \<open>Concrete inputs\<close>

text \<open>A performance log with one benchmark, and one whose only row has no usable value.\<close>

definition ledger_store :: store where
  "ledger_store =
     \<lparr>props = Map.empty, hist_csv = [],
      log_csv = [[''Date'', ''PortfolioValue'', ''Price_VTI'', ''PortfolioPct'', ''Pct_VTI'',
                  ''Diff_VTI''],
                 [''2024-12-31'', ''9900.00'', ''49.00'', ''N/A'', ''N/A'', ''N/A''],
                 [''2025-01-01'', ''10000.00'', ''50.00'', ''0.0000'', ''0.0000'', ''0.0000'']]\<rparr>"

definition ledger_store_bad :: store where
  "ledger_store_bad =
     \<lparr>props = Map.empty, hist_csv = [],
      log_csv = [[''Date'', ''PortfolioValue'', ''Price_VTI'', ''PortfolioPct'', ''Pct_VTI'',
                  ''Diff_VTI''],
                 [''2025-01-01'', ''0.00'', ''50.00'', ''N/A'', ''N/A'', ''N/A'']]\<rparr>"

text \<open>
  A store holding one row of a fully covered ticker, a configuration with a required window
  of 9 days and chunks of 5 days, and three worlds: one within the budget whose range
  fetches return nothing, the state it leaves after one invocation, and a world that is
  over the budget from the first ticker on.
\<close>

definition cfg1 :: config where
  "cfg1 = \<lparr>MIN_BACKFILL_DAYS = 9, CHUNK_DAYS = 5, RUNTIME_BUDGET_MS = 300000,
            MIN_CORR_RETURNS = 6, CORR_ALERT_THRESHOLD = round_double (85 / 100)\<rparr>"

definition hist1 :: table where
  "hist1 = [[''date'', ''ticker'', ''price''], [''2025-01-01'', ''QQQ'', ''400.00'']]"

definition store1 :: store where
  "store1 = \<lparr>props = Map.empty, hist_csv = hist1, log_csv = []\<rparr>"

definition store1_next :: store where
  "store1_next = \<lparr>props = [''CURSOR_VTI'' \<mapsto> ''2025-01-04''], hist_csv = hist1, log_csv = []\<rparr>"

definition store1_done :: store where
  "store1_done = \<lparr>props = [''CURSOR_VTI'' \<mapsto> ''2025-01-04''](''CURSOR_VTI'' := None),
                  hist_csv = hist1, log_csv = []\<rparr>"

definition quiet_world :: world where
  "quiet_world =
     \<lparr>elapsed = (\<lambda>i. 1000), rangeQuote = (\<lambda>t a b. []), liveQuote = (\<lambda>t. CStr ''#N/A'')\<rparr>"

definition late_world :: world where
  "late_world =
     \<lparr>elapsed = (\<lambda>i. 400000 + int i), rangeQuote = (\<lambda>t a b. []),
      liveQuote = (\<lambda>t. CStr ''#N/A'')\<rparr>"

text \<open>The column map of a table with the header \<^verbatim>\<open>date,ticker,price\<close>.\<close>

definition col3 :: colmap where
  "col3 = \<lparr>col_date = 0, col_ticker = 1, col_price = 2, col_width = 3\<rparr>"

text \<open>
  A store with rows of three tickers, one of them twice under different spellings, and a
  cursor of the ticker that is no longer required.
\<close>

definition hist_abc :: table where
  "hist_abc =
     [[''date'', ''ticker'', ''price''],
      [''2025-01-01'', ''AAA'', ''1.00''], [''2025-01-01'', ''BBB'', ''2.00''],
      [''2025-01-01'', ''CCC'', ''3.00''], [''2025-01-01'', ''aaa '', ''1.50'']]"

definition store_abc :: store where
  "store_abc = \<lparr>props = [''CURSOR_BBB'' \<mapsto> ''2024-12-20''], hist_csv = hist_abc, log_csv = []\<rparr>"

definition store_ac :: store where
  "store_ac =
     \<lparr>props = [''CURSOR_BBB'' \<mapsto> ''2024-12-20''](''CURSOR_BBB'' := None),
      hist_csv = [[''date'', ''ticker'', ''price''],
                  [''2025-01-01'', ''aaa '', ''1.50''], [''2025-01-01'', ''CCC'', ''3.00'']],
      log_csv = []\<rparr>"

text \<open>The store of the first scenario with a cursor already persisted.\<close>

definition store1_cursor :: store where
  "store1_cursor = \<lparr>props = [''CURSOR_VTI'' \<mapsto> ''2025-01-09''], hist_csv = hist1, log_csv = []\<rparr>"


text \<open>
  Seven days of prices: a ticker that gains exactly 80 percent every day, and a baseline.
\<close>

definition corr_rows :: table where
  "corr_rows =
     [[''2025-01-01'', ''AAA'', ''1000000''],
      [''2025-01-02'', ''AAA'', ''1800000''],
      [''2025-01-03'', ''AAA'', ''3240000''],
      [''2025-01-04'', ''AAA'', ''5832000''],
      [''2025-01-05'', ''AAA'', ''10497600''],
      [''2025-01-06'', ''AAA'', ''18895680''],
      [''2025-01-07'', ''AAA'', ''34012224''],
      [''2025-01-01'', ''VTI'', ''50''],
      [''2025-01-02'', ''VTI'', ''55''],
      [''2025-01-03'', ''VTI'', ''55''],
      [''2025-01-04'', ''VTI'', ''60''],
      [''2025-01-05'', ''VTI'', ''58''],
      [''2025-01-06'', ''VTI'', ''61''],
      [''2025-01-07'', ''VTI'', ''63'']]"

section \<open>Rounding to a double\<close>

lemma floor_log2_powi:
  assumes "0 < r" and "2 powi e \<le> r" and "r < 2 powi (e + 1)"
  shows "\<lfloor>log 2 r\<rfloor> = e"
proof -
  have p: "(2::real) powr real_of_int k = 2 powi k" for k
    by (rule powr_real_of_int') simp_all
  have "\<lfloor>log 2 r\<rfloor> = e \<longleftrightarrow> 2 powr real_of_int e \<le> r \<and> r < 2 powr real_of_int (e + 1)"
    using assms(1) by (intro floor_log_eq_powr_iff) simp_all
  then show ?thesis unfolding p using assms(2,3) by blast
qed

lemma floor_log2_bounds:
  assumes "0 < r"
  shows "2 powi \<lfloor>log 2 r\<rfloor> \<le> r" and "r < 2 powi (\<lfloor>log 2 r\<rfloor> + 1)"
proof -
  have p: "(2::real) powr real_of_int k = 2 powi k" for k
    by (rule powr_real_of_int') simp_all
  have "\<lfloor>log 2 r\<rfloor> = \<lfloor>log 2 r\<rfloor> \<longleftrightarrow>
      2 powr real_of_int \<lfloor>log 2 r\<rfloor> \<le> r \<and> r < 2 powr real_of_int (\<lfloor>log 2 r\<rfloor> + 1)"
    using assms(1) by (intro floor_log_eq_powr_iff) simp_all
  then show "2 powi \<lfloor>log 2 r\<rfloor> \<le> r" "r < 2 powi (\<lfloor>log 2 r\<rfloor> + 1)"
    unfolding p by blast+
qed

lemma round_even_int [simp]: "round_even (of_int k) = k"
  by (simp add: round_even_def)

lemma round_even_near:
  assumes "of_int n - 1 / 2 < m" and "m < of_int n + 1 / 2"
  shows "round_even m = n"
proof (cases "of_int n \<le> m")
  case True
  with assms have "\<lfloor>m\<rfloor> = n" by (simp add: floor_eq_iff)
  with assms show ?thesis by (simp add: round_even_def)
next
  case False
  with assms have f: "\<lfloor>m\<rfloor> = n - 1" by (simp add: floor_eq_iff)
  with assms show ?thesis by (simp add: round_even_def)
qed

lemma round_even_ge: "of_int k \<le> m \<Longrightarrow> k \<le> round_even m"
proof -
  assume "of_int k \<le> m"
  then have "k \<le> \<lfloor>m\<rfloor>" by (simp add: le_floor_iff)
  then show ?thesis by (auto simp: round_even_def Let_def)
qed

lemma round_even_le: "m \<le> of_int k \<Longrightarrow> round_even m \<le> k"
proof (cases "m = of_int k")
  case True
  then show ?thesis by simp
next
  case False
  assume "m \<le> of_int k"
  with False have "m < of_int k" by simp
  then have "\<lfloor>m\<rfloor> < k" by (simp add: floor_less_iff)
  then show ?thesis by (auto simp: round_even_def Let_def)
qed

text \<open>A number in the normal range, with the exponent \<open>e\<close> of its first bit given.\<close>

lemma round_double_normal:
  assumes e: "2 powi e \<le> \<bar>r\<bar>" "\<bar>r\<bar> < 2 powi (e + 1)" and lo: "- 1022 \<le> e"
    and n: "round_even (\<bar>r\<bar> / 2 powi (e - 52)) = n"
    and hi: "e \<le> 1023" "n < 2 ^ 53"
  shows "round_double r =
     Fin (if r < 0 then - (of_int n * 2 powi (e - 52)) else of_int n * 2 powi (e - 52))"
proof -
  have p: "(0::real) < 2 powi k" for k by simp
  from e(1) p [of e] have pos: "0 < \<bar>r\<bar>" by linarith
  then have r0: "r \<noteq> 0" by simp
  have fl: "\<lfloor>log 2 \<bar>r\<bar>\<rfloor> = e" using pos e by (rule floor_log2_powi)
  have q: "max \<lfloor>log 2 \<bar>r\<bar>\<rfloor> (- 1022) - 52 = e - 52" using lo by (simp add: fl)
  have "(2::real) powi e = 2 powi 52 * 2 powi (e - 52)"
    using power_int_add [of "2::real" 52 "e - 52"] by simp
  with e(1) have "2 powi 52 * 2 powi (e - 52) \<le> \<bar>r\<bar>" by simp
  then have "(2::real) powi 52 \<le> \<bar>r\<bar> / 2 powi (e - 52)"
    by (simp add: pos_le_divide_eq)
  then have "of_int (2 ^ 52) \<le> \<bar>r\<bar> / 2 powi (e - 52)" by simp
  from round_even_ge [OF this] n have "2 ^ 52 \<le> n" by simp
  then have n0: "n \<noteq> 0" by auto
  have "real_of_int n < 2 powi 53" using hi(2) by (simp add: of_int_less_numeral_power_cancel_iff)
  then have "real_of_int n * 2 powi (e - 52) < 2 powi 53 * 2 powi (e - 52)"
    by (simp add: p)
  also have "\<dots> = 2 powi (e + 1)"
    using power_int_add [of "2::real" 53 "e - 52"] by (simp add: add.commute)
  also have "\<dots> \<le> 2 powi 1024" using hi(1) by (intro power_int_increasing) simp_all
  finally have nov: "\<not> 2 ^ 1024 \<le> real_of_int n * 2 powi (e - 52)" by simp
  show ?thesis
    unfolding round_double_def Let_def q n using r0 n0 nov by simp
qed

text \<open>A number that has at most 53 significant bits is not changed.\<close>

lemma round_double_exact:
  assumes r: "r = of_int k * 2 powi q" and k: "k \<noteq> 0" "\<bar>k\<bar> < 2 ^ 53"
    and q: "- 1074 \<le> q" "q \<le> 970"
  shows "round_double r = Fin r"
proof -
  have p: "(0::real) < 2 powi j" for j by simp
  have ar: "\<bar>r\<bar> = of_int \<bar>k\<bar> * 2 powi q" unfolding r by (simp add: abs_mult)
  have pos: "0 < \<bar>r\<bar>" unfolding ar using k(1) by (simp add: p)
  then have r0: "r \<noteq> 0" by simp
  define e where "e = \<lfloor>log 2 \<bar>r\<bar>\<rfloor>"
  define u where "u = max e (- 1022) - 52"
  have "real_of_int \<bar>k\<bar> < 2 powi 53"
    using k(2) by (simp add: of_int_less_numeral_power_cancel_iff)
  then have "\<bar>r\<bar> < 2 powi 53 * 2 powi q" unfolding ar by (simp add: p)
  also have "\<dots> = 2 powi (q + 53)"
    using power_int_add [of "2::real" 53 q] by (simp add: add.commute)
  finally have up: "\<bar>r\<bar> < 2 powi (q + 53)" .
  have "2 powi e \<le> \<bar>r\<bar>" unfolding e_def using pos by (rule floor_log2_bounds)
  with up have "(2::real) powi e < 2 powi (q + 53)" by simp
  then have "e < q + 53"
    using power_int_increasing [of "q + 53" e "2::real"] by (cases "e < q + 53") auto
  with q(1) have uq: "u \<le> q" unfolding u_def by simp
  define N where "N = \<bar>k\<bar> * 2 ^ nat (q - u)"
  have "(2::real) powi q = 2 powi (q - u) * 2 powi u"
    using power_int_add [of "2::real" "q - u" u] by simp
  also have "(2::real) powi (q - u) = 2 ^ nat (q - u)"
    using uq by (simp add: power_int_def)
  finally have pq: "(2::real) powi q = 2 ^ nat (q - u) * 2 powi u" .
  have m: "\<bar>r\<bar> / 2 powi u = of_int N" unfolding ar pq N_def by simp
  have v: "of_int N * 2 powi u = \<bar>r\<bar>" unfolding ar pq N_def by simp
  have N0: "N \<noteq> 0" unfolding N_def using k(1) by simp
  have "\<bar>r\<bar> < 2 powi (q + 53)" by (rule up)
  also have "\<dots> \<le> 2 powi 1024" using q(2) by (intro power_int_increasing) simp_all
  finally have nov: "\<not> 2 ^ 1024 \<le> \<bar>r\<bar>" by simp
  show ?thesis
    unfolding round_double_def Let_def e_def [symmetric] u_def [symmetric] m round_even_int v
    using r0 N0 nov by (simp add: abs_if)
qed

lemma round_double_int:
  assumes "\<bar>k\<bar> < 2 ^ 53"
  shows "round_double (of_int k) = Fin (of_int k)"
proof (cases "k = 0")
  case True
  then show ?thesis by (simp add: round_double_def)
next
  case False
  from round_double_exact [of "of_int k" k 0, OF _ False assms] show ?thesis by simp
qed

lemma round_double_nat: "n < 2 ^ 53 \<Longrightarrow> round_double (real n) = Fin (real n)"
  using round_double_int [of "int n"] by simp

lemma round_double_numeral [simp]:
  "numeral w < (2::int) ^ 53 \<Longrightarrow> round_double (numeral w) = Fin (numeral w)"
  "numeral w < (2::int) ^ 53 \<Longrightarrow> round_double (- numeral w) = Fin (- numeral w)"
  using round_double_int [of "numeral w"] round_double_int [of "- numeral w"] by simp_all

lemma round_double_0 [simp]: "round_double 0 = Fin 0"
  by (simp add: round_double_def)

lemma round_double_1 [simp]: "round_double 1 = Fin 1"
  using round_double_int [of 1] by simp

lemma jadd_Fin: "jadd (Fin a) (Fin b) = round_double (a + b)"
  by (auto simp: jadd_def isFinite_def jval_def sign_bit_def signed_zero_def)

lemma jneg_Fin: "jneg (Fin a) = (if a = 0 then NZero else Fin (- a))"
  by (simp add: jneg_def)

lemma jsub_Fin: "jsub (Fin a) (Fin b) = round_double (a - b)"
  by (auto simp: jsub_def jneg_def jadd_def isFinite_def jval_def sign_bit_def signed_zero_def)

lemma jmul_Fin:
  "jmul (Fin a) (Fin b) =
     (if a * b = 0 then signed_zero ((a < 0) \<noteq> (b < 0)) else round_double (a * b))"
  by (simp add: jmul_def isFinite_def jval_def sign_bit_def)

lemma jdiv_Fin:
  "b \<noteq> 0 \<Longrightarrow> jdiv (Fin a) (Fin b) =
     (if a = 0 then signed_zero (b < 0) else round_double (a / b))"
  by (simp add: jdiv_def isFinite_def jval_def sign_bit_def)

text \<open>The correctly rounded square root, from bounds on the argument.\<close>

lemma round_double_sqrt:
  fixes r :: real
  assumes e: "(2 powi e)\<^sup>2 \<le> r" "r < (2 powi (e + 1))\<^sup>2" and lo: "- 1022 \<le> e" and hi: "e \<le> 1023"
    and n: "((of_int n - 1 / 2) * 2 powi (e - 52))\<^sup>2 < r"
      "r < ((of_int n + 1 / 2) * 2 powi (e - 52))\<^sup>2"
    and nb: "0 < n" "n < 2 ^ 53"
  shows "round_double (sqrt r) = Fin (of_int n * 2 powi (e - 52))"
proof -
  have p: "(0::real) < 2 powi j" for j by simp
  have "(0::real) < (2 powi e)\<^sup>2" using p [of e] by simp
  with e(1) have r: "0 < r" by linarith
  have s1: "2 powi e \<le> sqrt r" using e(1) by (rule real_le_rsqrt)
  have s2: "sqrt r < 2 powi (e + 1)" using e(2) by (intro real_less_lsqrt) simp_all
  have a: "\<bar>sqrt r\<bar> = sqrt r" using r by simp
  have m1: "(of_int n - 1 / 2) * 2 powi (e - 52) < sqrt r" using n(1) by (rule real_less_rsqrt)
  have "0 \<le> (real_of_int n + 1 / 2) * 2 powi (e - 52)" using nb(1) by simp
  then have m2: "sqrt r < (of_int n + 1 / 2) * 2 powi (e - 52)"
    using n(2) by (intro real_less_lsqrt) simp_all
  have "round_even (sqrt r / 2 powi (e - 52)) = n"
  proof (rule round_even_near)
    show "of_int n - 1 / 2 < sqrt r / 2 powi (e - 52)"
      using m1 by (simp add: pos_less_divide_eq)
    show "sqrt r / 2 powi (e - 52) < of_int n + 1 / 2"
      using m2 by (simp add: pos_divide_less_eq)
  qed
  then have "round_even (\<bar>sqrt r\<bar> / 2 powi (e - 52)) = n" unfolding a .
  from round_double_normal [of e "sqrt r" n, unfolded a, OF s1 s2 lo _ hi nb(2)] this
  have "round_double (sqrt r) =
      Fin (if sqrt r < 0 then - (of_int n * 2 powi (e - 52)) else of_int n * 2 powi (e - 52))"
    unfolding a by simp
  then show ?thesis using r by simp
qed

lemma jsqrt_Fin: "0 \<le> r \<Longrightarrow> jsqrt (Fin r) = round_double (sqrt r)"
  by (simp add: jsqrt_def)

text \<open>A number of magnitude \<open>2\<^sup>1\<^sup>0\<^sup>2\<^sup>4\<close> or more overflows.\<close>

lemma round_double_overflow:
  assumes "2 ^ 1024 \<le> \<bar>r\<bar>"
  shows "round_double r = jsign_inf (r < 0)"
proof -
  have p: "(0::real) < 2 powi j" for j by simp
  have big: "(2::real) powi 1024 \<le> \<bar>r\<bar>" using assms by simp
  with p [of 1024] have pos: "0 < \<bar>r\<bar>" by linarith
  then have r0: "r \<noteq> 0" by simp
  define e where "e = \<lfloor>log 2 \<bar>r\<bar>\<rfloor>"
  have e1: "2 powi e \<le> \<bar>r\<bar>" and e2: "\<bar>r\<bar> < 2 powi (e + 1)"
    unfolding e_def using pos by (rule floor_log2_bounds)+
  from big e2 have "(2::real) powi 1024 < 2 powi (e + 1)" by simp
  then have e: "1024 \<le> e"
    using power_int_increasing [of "e + 1" 1024 "2::real"] by (cases "1024 \<le> e") auto
  then have q: "max e (- 1022) - 52 = e - 52" by simp
  define n where "n = round_even (\<bar>r\<bar> / 2 powi (e - 52))"
  have s: "(2::real) powi e = 2 powi 52 * 2 powi (e - 52)"
    using power_int_add [of "2::real" 52 "e - 52"] by simp
  with e1 have "2 powi 52 * 2 powi (e - 52) \<le> \<bar>r\<bar>" by simp
  then have "(2::real) powi 52 \<le> \<bar>r\<bar> / 2 powi (e - 52)"
    by (simp add: pos_le_divide_eq)
  then have "of_int (2 ^ 52) \<le> \<bar>r\<bar> / 2 powi (e - 52)" by simp
  from round_even_ge [OF this] have n52: "2 ^ 52 \<le> n" unfolding n_def .
  then have "(2::real) powi 52 \<le> real_of_int n"
    by (simp add: numeral_power_le_of_int_cancel_iff)
  then have "(2::real) powi 52 * 2 powi (e - 52) \<le> real_of_int n * 2 powi (e - 52)"
    by (simp add: p)
  with s have "2 powi e \<le> real_of_int n * 2 powi (e - 52)" by simp
  moreover have "(2::real) powi 1024 \<le> 2 powi e"
    using e by (intro power_int_increasing) simp_all
  ultimately have "(2::real) powi 1024 \<le> real_of_int n * 2 powi (e - 52)" by linarith
  then have v: "2 ^ 1024 \<le> real_of_int n * 2 powi (e - 52)" by simp
  show ?thesis
    unfolding round_double_def Let_def e_def [symmetric] q n_def [symmetric]
    using r0 v by simp
qed

lemma parseFloat_overflow_example: "parseFloat ''1e400'' = PInf"
proof -
  have "(2::real) ^ 1024 \<le> 10 ^ 400" by simp
  then have "round_double (10 ^ 400) = PInf"
    using round_double_overflow [of "10 ^ 400"] by (simp add: jsign_inf_def)
  then show ?thesis
    by (simp add: parseFloat_def str_decimal_def exponent_of_def pow10_def is_space_def
        is_digit_def digits_val_def digit_val_def)
qed

lemma isFinite_iff: "isFinite x \<longleftrightarrow> (\<exists>r. x = Fin r) \<or> x = NZero"
  by (cases x) (simp_all add: isFinite_def)

lemma isFinite_simps [simp]:
  "isFinite (Fin r)" "isFinite NZero" "\<not> isFinite PInf" "\<not> isFinite NInf" "\<not> isFinite NaN"
  by (simp_all add: isFinite_def)

lemma jval_simps [simp]: "jval (Fin r) = r" "jval NZero = 0"
  by (simp_all add: jval_def)

text \<open>Parsing rounds to the nearest double, and keeps the sign of a zero.\<close>

lemma parse_op_1: "round_double (107 / 40) = Fin (3011782250804019 / 1125899906842624)"
  using round_double_normal [of "1" "107 / 40" 6023564501608038] by (simp add: round_even_def)

lemma parseFloat_rounding_example: "parseFloat ''2.675'' = Fin (3011782250804019 / 1125899906842624)"
  by (simp add: parseFloat_def str_decimal_def exponent_of_def pow10_def is_space_def
      is_digit_def digits_val_def digit_val_def parse_op_1)

lemma parseFloat_negative_zero_example: "parseFloat ''-0.00'' = NZero"
  by (simp add: parseFloat_def str_decimal_def exponent_of_def pow10_def is_space_def
      is_digit_def digits_val_def digit_val_def jneg_def)

section \<open>The performance ledger: abort and rebase\<close>


lemma length_normalizeRowWidth [simp]: "length (normalizeRowWidth r w) = w"
  by (simp add: normalizeRowWidth_def)

lemma normalizeRowWidth_id [simp]: "length r = w \<Longrightarrow> normalizeRowWidth r w = r"
  by (simp add: normalizeRowWidth_def)

lemma findIndex_Some:
  "findIndex P xs = Some i \<Longrightarrow> i < length xs \<and> P (xs ! i) \<and> (\<forall>j<i. \<not> P (xs ! j))"
proof (induction xs arbitrary: i)
  case Nil
  then show ?case by simp
next
  case (Cons x xs)
  show ?case
  proof (cases "P x")
    case True
    with Cons.prems show ?thesis by simp
  next
    case False
    with Cons.prems obtain k where k: "findIndex P xs = Some k" "i = Suc k" by auto
    from Cons.IH [OF k(1)] False k(2) show ?thesis
      by (auto simp: nth_Cons less_Suc_eq_0_disj)
  qed
qed

lemma fold_upd_length [simp]:
  "length (fold (\<lambda>i row. row[h i := g i row]) is r) = length r"
  by (induction "is" arbitrary: r) simp_all

lemma fold_upd_outside:
  "k < b \<or> b + n \<le> k \<Longrightarrow> fold (\<lambda>i row. row[b + i := g i row]) [0..<n] r ! k = r ! k"
  by (induction n) auto

lemma fold_upd_inside:
  assumes dep: "\<And>i row row'. i < n \<Longrightarrow> (\<forall>k<b. row ! k = row' ! k) \<Longrightarrow> g i row = g i row'"
    and j: "j < n" and len: "b + n \<le> length r"
  shows "fold (\<lambda>i row. row[b + i := g i row]) [0..<n] r ! (b + j) = g j r"
  using dep j len
proof (induction n)
  case 0
  then show ?case by simp
next
  case (Suc n)
  let ?f = "\<lambda>i row. row[b + i := g i row]"
  have same: "\<forall>k<b. fold ?f [0..<n] r ! k = r ! k"
    by (simp add: fold_upd_outside)
  show ?case
  proof (cases "j = n")
    case True
    have "g n (fold ?f [0..<n] r) = g n r"
      using Suc.prems(1) [of n] same by blast
    with True Suc.prems(3) show ?thesis by simp
  next
    case False
    with Suc.prems(2) have jn: "j < n" by simp
    have "fold ?f [0..<n] r ! (b + j) = g j r"
      using Suc.IH [OF _ jn] Suc.prems(1,3) by simp
    with False show ?thesis by simp
  qed
qed

lemma length_buildPerfLogHeader [simp]:
  "length (buildPerfLogHeader benches) = 3 * length benches + 3"
  by (simp add: buildPerfLogHeader_def)

lemma header_columns:
  "buildPerfLogHeader benches ! (2 + length benches) = ''PortfolioPct'' \<and>
   (\<forall>i<length benches.
      buildPerfLogHeader benches ! (2 + length benches + 1 + i) = ''Pct_'' @ benches ! i \<and>
      buildPerfLogHeader benches ! (2 + length benches + 1 + length benches + i) =
        ''Diff_'' @ benches ! i)"
  by (simp add: buildPerfLogHeader_def nth_append nth_Cons')

lemma perf_data_rows:
  "r \<in> set (perf_data rows dateStr pv benches prices) \<Longrightarrow> length r = 3 * length benches + 3"
  by (auto simp: perf_data_def Let_def)

lemma perf_data_nonempty: "perf_data rows dateStr pv benches prices \<noteq> []"
proof -
  have "length (perf_data rows dateStr pv benches prices) \<noteq> 0"
    by (simp add: perf_data_def Let_def)
  then show ?thesis by fastforce
qed

lemma perf_baseIndex_less: "data \<noteq> [] \<Longrightarrow> perf_baseIndex data cs < length data"
  by (auto simp: perf_baseIndex_def split: option.splits dest: findIndex_Some)

lemma valid_base_iff: "valid_base x \<longleftrightarrow> (\<exists>r. x = Fin r \<and> 0 < r)"
  by (cases x) (auto simp: valid_base_def jle_def jless_def jeq_def)

lemma recompute_row_cells:
  fixes r :: row and w n bi ri :: nat and basePV :: jsnum and baseB :: "jsnum list"
  assumes w: "w = 3 * n + 3"
  defines "row0 \<equiv> normalizeRowWidth r w"
  defines "pPort \<equiv> pct_of (parseFloat (row0 ! 1)) basePV"
  defines "res \<equiv> recompute_row w n basePV baseB bi ri r"
  shows "res ! (2 + n) = pct_cell ri bi pPort"
    and "i < n \<Longrightarrow> res ! (2 + n + 1 + i) =
           pct_cell ri bi (pct_of (parseFloat (row0 ! (2 + i))) (baseB ! i))"
    and "i < n \<Longrightarrow> res ! (2 + n + 1 + n + i) =
           diff_cell ri bi pPort (parseFloat (res ! (2 + n + 1 + i)))"
    and "k < 2 + n \<Longrightarrow> res ! k = row0 ! k"
    and "length res = w"
proof -
  define row1 where "row1 = row0[2 + n := pct_cell ri bi pPort]"
  define row2 where "row2 = fold (\<lambda>i row. row[2 + n + 1 + i :=
      pct_cell ri bi (pct_of (parseFloat (row ! (2 + i))) (baseB ! i))]) [0..<n] row1"
  define row3 where "row3 = fold (\<lambda>i row. row[2 + n + 1 + n + i :=
      diff_cell ri bi pPort (parseFloat (row ! (2 + n + 1 + i)))]) [0..<n] row2"
  have l0: "length row0 = w" by (simp add: row0_def)
  have l1: "length row1 = w" by (simp add: row1_def l0)
  have l2: "length row2 = w" unfolding row2_def by (simp add: l1)
  have l3: "length row3 = w" unfolding row3_def by (simp add: l2)
  have res: "res = row3"
    unfolding res_def recompute_row_def Let_def row3_def row2_def row1_def pPort_def row0_def
    using l3 [unfolded row3_def row2_def row1_def pPort_def row0_def]
    by (intro normalizeRowWidth_id)
  show "length res = w" by (simp add: res l3)
  have r32: "row3 ! k = row2 ! k" if "k < 2 + n + 1 + n" for k
    unfolding row3_def using that by (intro fold_upd_outside) simp
  have r21: "row2 ! k = row1 ! k" if "k < 2 + n + 1" for k
    unfolding row2_def using that by (intro fold_upd_outside) simp
  show "res ! (2 + n) = pct_cell ri bi pPort"
    by (simp add: res r32 r21 row1_def l0 w)
  show low: "res ! k = row0 ! k" if "k < 2 + n" for k
    using that by (simp add: res r32 r21 row1_def)
  have pct: "row2 ! (2 + n + 1 + i) =
           pct_cell ri bi (pct_of (parseFloat (row0 ! (2 + i))) (baseB ! i))" if "i < n" for i
  proof -
    have "row2 ! (2 + n + 1 + i) =
           pct_cell ri bi (pct_of (parseFloat (row1 ! (2 + i))) (baseB ! i))"
      unfolding row2_def using that
    proof (intro fold_upd_inside)
      fix j :: nat and ra rb :: row
      assume "j < n" "\<forall>k<2 + n + 1. ra ! k = rb ! k"
      then have "ra ! (2 + j) = rb ! (2 + j)" by simp
      then show "pct_cell ri bi (pct_of (parseFloat (ra ! (2 + j))) (baseB ! j)) =
           pct_cell ri bi (pct_of (parseFloat (rb ! (2 + j))) (baseB ! j))" by simp
    qed (simp_all add: l1 w)
    moreover have "row1 ! (2 + i) = row0 ! (2 + i)"
      using that by (simp add: row1_def)
    ultimately show ?thesis by simp
  qed
  show "res ! (2 + n + 1 + i) =
           pct_cell ri bi (pct_of (parseFloat (row0 ! (2 + i))) (baseB ! i))" if "i < n"
    using that pct by (simp add: res r32)
  show "res ! (2 + n + 1 + n + i) =
           diff_cell ri bi pPort (parseFloat (res ! (2 + n + 1 + i)))" if "i < n"
  proof -
    have "row3 ! (2 + n + 1 + n + i) = diff_cell ri bi pPort (parseFloat (row2 ! (2 + n + 1 + i)))"
      unfolding row3_def using that
    proof (intro fold_upd_inside)
      fix j :: nat and ra rb :: row
      assume "j < n" "\<forall>k<2 + n + 1 + n. ra ! k = rb ! k"
      then have "ra ! (2 + n + 1 + j) = rb ! (2 + n + 1 + j)" by simp
      then show "diff_cell ri bi pPort (parseFloat (ra ! (2 + n + 1 + j))) =
           diff_cell ri bi pPort (parseFloat (rb ! (2 + n + 1 + j)))" by simp
    qed (simp_all add: l2 w)
    then show ?thesis using that by (simp add: res r32)
  qed
qed

lemma pct_of_self: "valid_base v \<Longrightarrow> pct_of v v = Fin 0"
  by (auto simp: valid_base_iff pct_of_def jless_def jdiv_Fin jsub_Fin)

lemma show_nat_0: "show_nat 0 = ''0''"
  by (simp add: show_nat.simps digit_char_def)

lemma toFixed_zero_4: "toFixed (Fin 0) 4 = ''0.0000''"
  by (simp add: toFixed_def toFixed_real_def show_nat_0 pad_zero_def numeral_eq_Suc)

lemma pct_cell_base: "pct_cell bi bi (Fin 0) = ''0.0000''"
  by (simp add: pct_cell_def isFinite_def toFixed_zero_4)

lemma cells_before_base:
  "ri < bi \<Longrightarrow> pct_cell ri bi p = ''N/A''" "ri < bi \<Longrightarrow> diff_cell ri bi p q = ''N/A''"
  by (simp_all add: pct_cell_def diff_cell_def)

lemma show_nat_eval:
  "show_nat 5500 = ''5500''" "show_nat 1050000 = ''1050000''"
  by (simp_all add: show_nat.simps digit_char_def)

lemma toFixed_eval:
  "toFixed (Fin 10500) 2 = ''10500.00''" "toFixed (Fin 55) 2 = ''55.00''"
  by (simp_all add: toFixed_def toFixed_real_def show_nat_eval pad_zero_def)

lemma perf_data_example:
  "perf_data (log_csv ledger_store) ''2025-01-02'' (Fin 10500) [''VTI''] [Fin 55] =
     [[''2024-12-31'', ''9900.00'', ''49.00'', ''N/A'', ''N/A'', ''N/A''],
      [''2025-01-01'', ''10000.00'', ''50.00'', ''0.0000'', ''0.0000'', ''0.0000''],
      [''2025-01-02'', ''10500.00'', ''55.00'', [], [], []]]"
  unfolding perf_data_def ledger_store_def buildPerfLogHeader_def
  by (simp add: toFixed_eval num_at_def) (simp add: normalizeRowWidth_def is_ymd_def is_digit_def numeral_eq_Suc)

lemma upsert_success:
  assumes ok: "upsertAndRecomputePerformanceLog s dateStr pv benches prices csd = (None, s')"
  defines "data \<equiv> perf_data (log_csv s) dateStr pv benches prices"
  defines "bi \<equiv> perf_baseIndex data (trim csd)"
  defines "basePV \<equiv> parseFloat (data ! bi ! 1)"
  defines "baseB \<equiv> map (\<lambda>i. parseFloat (data ! bi ! (2 + i))) [0..<length benches]"
  shows "valid_base basePV" and "\<forall>x \<in> set baseB. valid_base x"
    and "log_csv s' = buildPerfLogHeader benches #
           map (\<lambda>(ri, r). recompute_row (3 * length benches + 3) (length benches) basePV baseB bi ri r)
             (enumerate 0 data)"
proof -
  have ne: "data \<noteq> []" unfolding data_def by (rule perf_data_nonempty)
  from ok ne show v1: "valid_base basePV"
    unfolding upsertAndRecomputePerformanceLog_def Let_def data_def bi_def basePV_def
    by (auto split: if_splits)
  from ok ne v1 show v2: "\<forall>x \<in> set baseB. valid_base x"
    unfolding upsertAndRecomputePerformanceLog_def Let_def data_def bi_def basePV_def baseB_def
    by (auto split: if_splits)
  have "s' = s\<lparr>log_csv := map (\<lambda>r. normalizeRowWidth r (length (buildPerfLogHeader benches)))
      (buildPerfLogHeader benches #
        map (\<lambda>(ri, r). recompute_row (length (buildPerfLogHeader benches)) (length benches)
                 basePV baseB bi ri r) (enumerate 0 data))\<rparr>"
    using ok ne v1 v2
    unfolding upsertAndRecomputePerformanceLog_def Let_def data_def bi_def basePV_def baseB_def
    by (simp split: if_splits)
  then show "log_csv s' = buildPerfLogHeader benches #
           map (\<lambda>(ri, r). recompute_row (3 * length benches + 3) (length benches) basePV baseB bi ri r)
             (enumerate 0 data)"
    by (simp add: recompute_row_cells(5) split_beta)
qed

text \<open>
  Claim C3. If the portfolio value of the selected base row is not a positive finite number,
  or one of its benchmark prices is not, the ledger update throws and the persisted state,
  the performance log included, is exactly what it was.
\<close>

theorem ledger_abort_leaves_log_untouched:
  assumes "base = perf_data (log_csv s) dateStr pv benches prices !
                    perf_baseIndex (perf_data (log_csv s) dateStr pv benches prices) (trim csd)"
    and "(\<forall>r. parseFloat (base ! 1) = Fin r \<longrightarrow> r \<le> 0) \<or>
         (\<exists>i<length benches. \<forall>r. parseFloat (base ! (2 + i)) = Fin r \<longrightarrow> r \<le> 0)"
  shows "upsertAndRecomputePerformanceLog s dateStr pv benches prices csd
           = (Some PerfBasePortfolioInvalid, s) \<or>
         upsertAndRecomputePerformanceLog s dateStr pv benches prices csd
           = (Some PerfBaseBenchmarkInvalid, s)"
proof -
  have ne: "perf_data (log_csv s) dateStr pv benches prices \<noteq> []"
    by (rule perf_data_nonempty)
  show ?thesis
  proof (cases "valid_base (parseFloat (base ! 1))")
    case False
    then show ?thesis
      unfolding upsertAndRecomputePerformanceLog_def Let_def using ne assms(1) by simp
  next
    case True
    with assms(2) obtain i where i: "i < length benches"
        "\<forall>r. parseFloat (base ! (2 + i)) = Fin r \<longrightarrow> r \<le> 0"
      by (auto simp: valid_base_iff)
    then have "\<not> valid_base (parseFloat (base ! (2 + i)))"
      by (auto simp: valid_base_iff)
    with i(1) have "\<exists>x \<in> set (map (\<lambda>i. parseFloat (base ! (2 + i))) [0..<length benches]).
        \<not> valid_base x"
      by auto
    with True show ?thesis
      unfolding upsertAndRecomputePerformanceLog_def Let_def using ne assms(1) by simp
  qed
qed

text \<open>
  Claim C4. After a successful recomputation the base row shows 0 (printed \<^verbatim>\<open>0.0000\<close>)
  in \<^verbatim>\<open>PortfolioPct\<close> and in every \<^verbatim>\<open>Pct_\<close> column, and every row before the base row
  shows \<^verbatim>\<open>N/A\<close> in \<^verbatim>\<open>PortfolioPct\<close>, in every \<^verbatim>\<open>Pct_\<close> column and in every
  \<^verbatim>\<open>Diff_\<close> column.
\<close>

theorem rebase_invariant:
  assumes ok: "upsertAndRecomputePerformanceLog s dateStr pv benches prices csd = (None, s')"
  defines "data \<equiv> perf_data (log_csv s) dateStr pv benches prices"
  defines "bi \<equiv> perf_baseIndex data (trim csd)"
  defines "n \<equiv> length benches"
  defines "out \<equiv> tl (log_csv s')"
  shows "hd (log_csv s') = buildPerfLogHeader benches \<and> length out = length data \<and>
         bi < length out \<and>
         out ! bi ! (2 + n) = ''0.0000'' \<and>
         (\<forall>i<n. out ! bi ! (2 + n + 1 + i) = ''0.0000'') \<and>
         (\<forall>ri<bi. out ! ri ! (2 + n) = ''N/A'' \<and>
            (\<forall>i<n. out ! ri ! (2 + n + 1 + i) = ''N/A'' \<and>
                    out ! ri ! (2 + n + 1 + n + i) = ''N/A'')) \<and>
         hd (log_csv s') ! (2 + n) = ''PortfolioPct'' \<and>
         (\<forall>i<n. hd (log_csv s') ! (2 + n + 1 + i) = ''Pct_'' @ benches ! i \<and>
                 hd (log_csv s') ! (2 + n + 1 + n + i) = ''Diff_'' @ benches ! i)"
proof -
  define basePV where "basePV = parseFloat (data ! bi ! 1)"
  define baseB where "baseB = map (\<lambda>i. parseFloat (data ! bi ! (2 + i))) [0..<n]"
  note facts = upsert_success [OF ok, folded data_def, folded bi_def n_def,
      folded basePV_def baseB_def]
  have ne: "data \<noteq> []" unfolding data_def by (rule perf_data_nonempty)
  have bi: "bi < length data" unfolding bi_def using ne by (rule perf_baseIndex_less)
  have out: "out ! ri = recompute_row (3 * n + 3) n basePV baseB bi ri (data ! ri)"
    if "ri < length data" for ri
    using that by (simp add: out_def facts(3) nth_enumerate_eq)
  have len: "length out = length data" by (simp add: out_def facts(3))
  have row0: "normalizeRowWidth (data ! ri) (3 * n + 3) = data ! ri" if "ri < length data" for ri
    using that perf_data_rows [of "data ! ri" "log_csv s" dateStr pv benches prices]
    by (simp add: data_def n_def)
  have bp: "parseFloat (data ! bi ! Suc 0) = basePV" by (simp add: basePV_def)
  have base_port: "out ! bi ! (2 + n) = ''0.0000''"
    using recompute_row_cells(1) [where w = "3 * n + 3" and n = n and r = "data ! bi"
        and basePV = basePV and baseB = baseB and bi = bi and ri = bi]
      pct_of_self [OF facts(1)]
    by (simp add: out [OF bi] row0 [OF bi] bp pct_cell_base)
  have base_pct: "out ! bi ! (2 + n + 1 + i) = ''0.0000''" if "i < n" for i
  proof -
    have b: "baseB ! i = parseFloat (data ! bi ! (2 + i))"
      using that by (simp add: baseB_def)
    have "valid_base (baseB ! i)" using facts(2) that by (simp add: baseB_def)
    from pct_of_self [OF this] show ?thesis
      using recompute_row_cells(2) [where w = "3 * n + 3" and n = n and i = i and r = "data ! bi"
        and basePV = basePV and baseB = baseB and bi = bi and ri = bi] that
      by (simp add: out [OF bi] row0 [OF bi] b pct_cell_base)
  qed
  have before: "out ! ri ! (2 + n) = ''N/A'' \<and>
            (\<forall>i<n. out ! ri ! (2 + n + 1 + i) = ''N/A'' \<and>
                    out ! ri ! (2 + n + 1 + n + i) = ''N/A'')" if "ri < bi" for ri
  proof -
    from that bi have r: "ri < length data" by simp
    show ?thesis
      using recompute_row_cells(1) [where w = "3 * n + 3" and n = n and r = "data ! ri"
          and basePV = basePV and baseB = baseB and bi = bi and ri = ri]
        recompute_row_cells(2) [where w = "3 * n + 3" and n = n and r = "data ! ri"
          and basePV = basePV and baseB = baseB and bi = bi and ri = ri]
        recompute_row_cells(3) [where w = "3 * n + 3" and n = n and r = "data ! ri"
          and basePV = basePV and baseB = baseB and bi = bi and ri = ri]
      by (simp add: out [OF r] cells_before_base [OF that])
  qed
  have hdr: "hd (log_csv s') ! (2 + n) = ''PortfolioPct'' \<and>
         (\<forall>i<n. hd (log_csv s') ! (2 + n + 1 + i) = ''Pct_'' @ benches ! i \<and>
                 hd (log_csv s') ! (2 + n + 1 + n + i) = ''Diff_'' @ benches ! i)"
    using header_columns [of benches] by (simp add: facts(3) n_def)
  have "hd (log_csv s') = buildPerfLogHeader benches" by (simp add: facts(3))
  with base_port base_pct before bi len hdr show ?thesis by simp
qed

lemma parseFloat_eval:
  "parseFloat ''0.00'' = Fin 0" "parseFloat ''10000.00'' = Fin 10000"
  "parseFloat ''50.00'' = Fin 50"
  by (simp_all add: parseFloat_def str_decimal_def exponent_of_def pow10_def is_space_def
      is_digit_def digits_val_def digit_val_def)

lemma perf_data_bad_example:
  "perf_data (log_csv ledger_store_bad) ''2025-01-02'' (Fin 10500) [''VTI''] [Fin 55] =
     [[''2025-01-01'', ''0.00'', ''50.00'', ''N/A'', ''N/A'', ''N/A''],
      [''2025-01-02'', ''10500.00'', ''55.00'', [], [], []]]"
  unfolding perf_data_def ledger_store_bad_def buildPerfLogHeader_def
  by (simp add: toFixed_eval num_at_def) (simp add: normalizeRowWidth_def is_ymd_def is_digit_def numeral_eq_Suc)

lemma trim_date_example: "trim ''2025-01-01'' = ''2025-01-01''"
  by (simp add: trim_def is_space_def)

lemma baseIndex_examples:
  "perf_baseIndex [[''2025-01-01'', ''0.00'', ''50.00'', ''N/A'', ''N/A'', ''N/A''],
      [''2025-01-02'', ''10500.00'', ''55.00'', [], [], []]] ''2025-01-01'' = 0"
  "perf_baseIndex [[''2024-12-31'', ''9900.00'', ''49.00'', ''N/A'', ''N/A'', ''N/A''],
      [''2025-01-01'', ''10000.00'', ''50.00'', ''0.0000'', ''0.0000'', ''0.0000''],
      [''2025-01-02'', ''10500.00'', ''55.00'', [], [], []]] ''2025-01-01'' = 1"
  by (simp_all add: perf_baseIndex_def is_ymd_def is_digit_def)

theorem ledger_abort_leaves_log_untouched_witness:
  "parseFloat (perf_data (log_csv ledger_store_bad) ''2025-01-02'' (Fin 10500) [''VTI''] [Fin 55] !
       perf_baseIndex (perf_data (log_csv ledger_store_bad) ''2025-01-02'' (Fin 10500) [''VTI''] [Fin 55])
         (trim ''2025-01-01'') ! 1) = Fin 0 \<and>
   fst (upsertAndRecomputePerformanceLog ledger_store_bad ''2025-01-02'' (Fin 10500) [''VTI''] [Fin 55]
          ''2025-01-01'') \<noteq> None \<and>
   snd (upsertAndRecomputePerformanceLog ledger_store_bad ''2025-01-02'' (Fin 10500) [''VTI''] [Fin 55]
          ''2025-01-01'') = ledger_store_bad"
proof -
  have base: "parseFloat (perf_data (log_csv ledger_store_bad) ''2025-01-02'' (Fin 10500) [''VTI''] [Fin 55] !
       perf_baseIndex (perf_data (log_csv ledger_store_bad) ''2025-01-02'' (Fin 10500) [''VTI''] [Fin 55])
         (trim ''2025-01-01'') ! 1) = Fin 0"
    by (simp add: perf_data_bad_example trim_date_example baseIndex_examples parseFloat_eval)
  from ledger_abort_leaves_log_untouched [OF refl, of ledger_store_bad "''2025-01-02''" "Fin 10500"
      "[''VTI'']" "[Fin 55]" "''2025-01-01''"] base
  show ?thesis by auto
qed

lemma upsert_example_ok:
  "fst (upsertAndRecomputePerformanceLog ledger_store ''2025-01-02'' (Fin 10500) [''VTI''] [Fin 55]
          ''2025-01-01'') = None"
  unfolding upsertAndRecomputePerformanceLog_def Let_def
  by (simp add: perf_data_example trim_date_example baseIndex_examples parseFloat_eval valid_base_iff)

theorem rebase_invariant_witness:
  "fst (upsertAndRecomputePerformanceLog ledger_store ''2025-01-02'' (Fin 10500) [''VTI''] [Fin 55]
          ''2025-01-01'') = None \<and>
   perf_baseIndex (perf_data (log_csv ledger_store) ''2025-01-02'' (Fin 10500) [''VTI''] [Fin 55])
     (trim ''2025-01-01'') = 1 \<and>
   tl (log_csv (snd (upsertAndRecomputePerformanceLog ledger_store ''2025-01-02'' (Fin 10500)
       [''VTI''] [Fin 55] ''2025-01-01''))) ! 1 ! 3 = ''0.0000'' \<and>
   tl (log_csv (snd (upsertAndRecomputePerformanceLog ledger_store ''2025-01-02'' (Fin 10500)
       [''VTI''] [Fin 55] ''2025-01-01''))) ! 1 ! 4 = ''0.0000'' \<and>
   tl (log_csv (snd (upsertAndRecomputePerformanceLog ledger_store ''2025-01-02'' (Fin 10500)
       [''VTI''] [Fin 55] ''2025-01-01''))) ! 0 ! 3 = ''N/A'' \<and>
   tl (log_csv (snd (upsertAndRecomputePerformanceLog ledger_store ''2025-01-02'' (Fin 10500)
       [''VTI''] [Fin 55] ''2025-01-01''))) ! 0 ! 4 = ''N/A'' \<and>
   tl (log_csv (snd (upsertAndRecomputePerformanceLog ledger_store ''2025-01-02'' (Fin 10500)
       [''VTI''] [Fin 55] ''2025-01-01''))) ! 0 ! 5 = ''N/A''"
proof -
  define U where "U = upsertAndRecomputePerformanceLog ledger_store ''2025-01-02'' (Fin 10500)
       [''VTI''] [Fin 55] ''2025-01-01''"
  have ok: "upsertAndRecomputePerformanceLog ledger_store ''2025-01-02'' (Fin 10500)
       [''VTI''] [Fin 55] ''2025-01-01'' = (None, snd U)"
    using upsert_example_ok unfolding U_def by (simp add: prod_eq_iff)
  have bi: "perf_baseIndex (perf_data (log_csv ledger_store) ''2025-01-02'' (Fin 10500) [''VTI''] [Fin 55])
     (trim ''2025-01-01'') = 1"
    by (simp add: perf_data_example trim_date_example baseIndex_examples)
  from rebase_invariant [OF ok] show ?thesis
    unfolding bi U_def [symmetric] using upsert_example_ok [folded U_def] bi
    by (simp add: numeral_eq_Suc)
qed

section \<open>The backfill loop\<close>

lemma cursorKey_inj [simp]: "cursorKey a = cursorKey b \<longleftrightarrow> a = b"
  by (simp add: cursorKey_def)

lemma chunkEnd_of_spec: "chunkEnd_of cursor minHave today = spec_chunkEnd cursor minHave today"
proof -
  have "is_ymd c \<Longrightarrow> c \<noteq> []" for c by (auto simp: is_ymd_def)
  then show ?thesis
    by (auto simp: chunkEnd_of_def chunkEnd_from_coverage_def spec_chunkEnd_def
        split: option.splits)
qed

text \<open>The four ways an iteration can end without an error.\<close>

lemma backfill_ticker_cases:
  assumes step: "backfill_ticker C w col today rs bounds i t st = Inr st'"
  obtains
    (over_budget) "RUNTIME_BUDGET_MS C < elapsed w i"
      "st' = st\<lparr>ls_unfinished := set_add t (ls_unfinished st)\<rparr>"
  | (covered) "elapsed w i \<le> RUNTIME_BUDGET_MS C"
      "\<not> needsYear_of (case bounds t of None \<Rightarrow> None | Some b \<Rightarrow> fst b) rs" "st' = st"
  | (complete) ce where "elapsed w i \<le> RUNTIME_BUDGET_MS C"
      "needsYear_of (case bounds t of None \<Rightarrow> None | Some b \<Rightarrow> fst b) rs"
      "spec_chunkEnd (ls_props st (cursorKey t))
         (case bounds t of None \<Rightarrow> None | Some b \<Rightarrow> fst b) today = Some ce"
      "ce < rs" "st' = st\<lparr>ls_props := (ls_props st)(cursorKey t := None)\<rparr>"
  | (fetched) ce cs ne where "elapsed w i \<le> RUNTIME_BUDGET_MS C"
      "needsYear_of (case bounds t of None \<Rightarrow> None | Some b \<Rightarrow> fst b) rs"
      "spec_chunkEnd (ls_props st (cursorKey t))
         (case bounds t of None \<Rightarrow> None | Some b \<Rightarrow> fst b) today = Some ce"
      "\<not> ce < rs" "spec_chunkStart rs (CHUNK_DAYS C) ce = Some cs"
      "addDaysYMD cs (- 1) = Some ne"
      "st' = st\<lparr>ls_map := snd (ingestBackfillChunk w t cs ce rs today (ls_map st) col),
               ls_requests := ls_requests st @ [(t, cs, ce)],
               ls_props := (if rs \<le> ne then (ls_props st)(cursorKey t \<mapsto> ne)
                            else (ls_props st)(cursorKey t := None))\<rparr>"
proof (cases "RUNTIME_BUDGET_MS C < elapsed w i")
  case True
  with step have "st' = st\<lparr>ls_unfinished := set_add t (ls_unfinished st)\<rparr>"
    by (simp add: backfill_ticker_def)
  with True show ?thesis by (rule over_budget)
next
  case False
  then have b: "elapsed w i \<le> RUNTIME_BUDGET_MS C" by simp
  let ?mh = "case bounds t of None \<Rightarrow> None | Some b \<Rightarrow> fst b"
  show ?thesis
  proof (cases "needsYear_of ?mh rs")
    case False
    with step b have "st' = st" by (simp add: backfill_ticker_def)
    with b False show ?thesis by (rule covered)
  next
    case True
    let ?cur = "ls_props st (cursorKey t)"
    have mx: "(if ts < rs then rs else ts) = max rs ts" for ts :: string
      by (auto simp: max_def)
    note unf = backfill_ticker_def Let_def chunkEnd_of_spec mx
    obtain ce where ce: "spec_chunkEnd ?cur ?mh today = Some ce"
      using step b True by (cases "spec_chunkEnd ?cur ?mh today") (simp_all add: unf)
    show ?thesis
    proof (cases "ce < rs")
      case lt: True
      with step b True ce have "st' = st\<lparr>ls_props := (ls_props st)(cursorKey t := None)\<rparr>"
        by (simp add: unf)
      with b True ce lt show ?thesis by (rule complete)
    next
      case ge: False
      obtain ts where ts: "addDaysYMD ce (- (CHUNK_DAYS C - 1)) = Some ts"
        using step b True ce ge
        by (cases "addDaysYMD ce (- (CHUNK_DAYS C - 1))") (simp_all add: unf)
      obtain ne where ne: "addDaysYMD (max rs ts) (- 1) = Some ne"
        using step b True ce ge ts
        by (cases "addDaysYMD (max rs ts) (- 1)") (simp_all add: unf)
      have cs: "spec_chunkStart rs (CHUNK_DAYS C) ce = Some (max rs ts)"
        using ts by (simp add: spec_chunkStart_def algebra_simps)
      from step b True ce ge ts ne
      have "st' = st\<lparr>ls_map := snd (ingestBackfillChunk w t (max rs ts) ce rs today (ls_map st) col),
               ls_requests := ls_requests st @ [(t, max rs ts, ce)],
               ls_props := (if rs \<le> ne then (ls_props st)(cursorKey t \<mapsto> ne)
                            else (ls_props st)(cursorKey t := None))\<rparr>"
        by (cases "rs \<le> ne") (simp_all add: unf)
      with b True ce ge cs ne show ?thesis by (rule fetched)
    qed
  qed
qed

lemma backfill_ticker_over_budget:
  "RUNTIME_BUDGET_MS C < elapsed w i \<Longrightarrow>
   backfill_ticker C w col today rs bounds i t st =
     Inr (st\<lparr>ls_unfinished := set_add t (ls_unfinished st)\<rparr>)"
  by (simp add: backfill_ticker_def)

lemma backfill_ticker_unfinished:
  "backfill_ticker C w col today rs bounds i t st = Inr st' \<Longrightarrow>
   ls_unfinished st' =
     (if RUNTIME_BUDGET_MS C < elapsed w i then set_add t (ls_unfinished st)
      else ls_unfinished st)"
  by (erule backfill_ticker_cases) simp_all

lemma backfill_ticker_other_props:
  "backfill_ticker C w col today rs bounds i t st = Inr st' \<Longrightarrow> k \<noteq> cursorKey t \<Longrightarrow>
   ls_props st' k = ls_props st k"
  by (erule backfill_ticker_cases) simp_all

lemma backfill_ticker_requests:
  "backfill_ticker C w col today rs bounds i t st = Inr st' \<Longrightarrow>
   \<exists>extra. ls_requests st' = ls_requests st @ extra \<and> (\<forall>q \<in> set extra. fst q = t)"
  by (erule backfill_ticker_cases) simp_all

lemma backfill_loop_append:
  "backfill_loop C w col today rs bounds i (xs @ ys) st =
     (case backfill_loop C w col today rs bounds i xs st of
        Inl e \<Rightarrow> Inl e
      | Inr s1 \<Rightarrow> backfill_loop C w col today rs bounds (i + length xs) ys s1)"
  by (induction xs arbitrary: i st) (auto split: sum.splits)

lemma backfill_loop_absent:
  "backfill_loop C w col today rs bounds i ts st = Inr st' \<Longrightarrow> t \<notin> set ts \<Longrightarrow>
   ls_props st' (cursorKey t) = ls_props st (cursorKey t) \<and>
   filter (\<lambda>q. fst q = t) (ls_requests st') = filter (\<lambda>q. fst q = t) (ls_requests st)"
proof (induction ts arbitrary: i st)
  case Nil
  then show ?case by simp
next
  case (Cons u ts)
  from Cons.prems(1) obtain s1 where
    s1: "backfill_ticker C w col today rs bounds i u st = Inr s1"
    and rest: "backfill_loop C w col today rs bounds (Suc i) ts s1 = Inr st'"
    by (auto split: sum.splits)
  from Cons.prems(2) have ne: "u \<noteq> t" and nin: "t \<notin> set ts" by auto
  from backfill_ticker_other_props [OF s1, of "cursorKey t"] ne
  have p: "ls_props s1 (cursorKey t) = ls_props st (cursorKey t)" by simp
  from backfill_ticker_requests [OF s1] ne
  have q: "filter (\<lambda>q. fst q = t) (ls_requests s1) = filter (\<lambda>q. fst q = t) (ls_requests st)"
    by auto
  from Cons.IH [OF rest nin] p q show ?case by simp
qed

lemma backfill_loop_unfinished:
  "backfill_loop C w col today rs bounds i ts st = Inr st' \<Longrightarrow>
   set (ls_unfinished st') =
     set (ls_unfinished st) \<union> {ts ! j | j. j < length ts \<and> RUNTIME_BUDGET_MS C < elapsed w (i + j)}"
proof (induction ts arbitrary: i st)
  case Nil
  then show ?case by simp
next
  case (Cons u ts)
  from Cons.prems obtain s1 where
    s1: "backfill_ticker C w col today rs bounds i u st = Inr s1"
    and rest: "backfill_loop C w col today rs bounds (Suc i) ts s1 = Inr st'"
    by (auto split: sum.splits)
  have u: "set (ls_unfinished s1) =
      set (ls_unfinished st) \<union> (if RUNTIME_BUDGET_MS C < elapsed w i then {u} else {})"
    by (auto simp: backfill_ticker_unfinished [OF s1] set_add_def)
  have split: "{(u # ts) ! j | j. j < length (u # ts) \<and> RUNTIME_BUDGET_MS C < elapsed w (i + j)} =
      (if RUNTIME_BUDGET_MS C < elapsed w i then {u} else {}) \<union>
      {ts ! j | j. j < length ts \<and> RUNTIME_BUDGET_MS C < elapsed w (Suc i + j)}"
    (is "?L = ?R")
  proof
    show "?L \<subseteq> ?R"
    proof
      fix x assume "x \<in> ?L"
      then obtain j where j: "x = (u # ts) ! j" "j < length (u # ts)"
          "RUNTIME_BUDGET_MS C < elapsed w (i + j)" by blast
      show "x \<in> ?R"
      proof (cases j)
        case 0
        with j show ?thesis by simp
      next
        case (Suc k)
        with j have "x = ts ! k" "k < length ts" "RUNTIME_BUDGET_MS C < elapsed w (Suc i + k)"
          by simp_all
        then show ?thesis by blast
      qed
    qed
    show "?R \<subseteq> ?L"
    proof
      fix x assume "x \<in> ?R"
      then consider "x = u" "RUNTIME_BUDGET_MS C < elapsed w i"
        | k where "x = ts ! k" "k < length ts" "RUNTIME_BUDGET_MS C < elapsed w (Suc i + k)"
        by (auto split: if_splits)
      then show "x \<in> ?L"
      proof cases
        case 1
        then have "x = (u # ts) ! 0" "0 < length (u # ts)"
            "RUNTIME_BUDGET_MS C < elapsed w (i + 0)" by simp_all
        then show ?thesis by blast
      next
        case 2
        then have "x = (u # ts) ! Suc k" "Suc k < length (u # ts)"
            "RUNTIME_BUDGET_MS C < elapsed w (i + Suc k)" by simp_all
        then show ?thesis by blast
      qed
    qed
  qed
  show ?case
    unfolding Cons.IH [OF rest] u split by auto
qed

text \<open>
  In a list of distinct tickers the iteration of a ticker sees the cursor the loop started
  with, and what it leaves for that ticker is what the loop ends with.
\<close>

lemma backfill_loop_at:
  assumes loop: "backfill_loop C w col today rs bounds i ts st = Inr st'"
    and dist: "distinct ts" and j: "j < length ts"
  shows "\<exists>s1 s2. backfill_ticker C w col today rs bounds (i + j) (ts ! j) s1 = Inr s2 \<and>
           ls_props s1 (cursorKey (ts ! j)) = ls_props st (cursorKey (ts ! j)) \<and>
           filter (\<lambda>q. fst q = ts ! j) (ls_requests s1) =
             filter (\<lambda>q. fst q = ts ! j) (ls_requests st) \<and>
           ls_props st' (cursorKey (ts ! j)) = ls_props s2 (cursorKey (ts ! j)) \<and>
           filter (\<lambda>q. fst q = ts ! j) (ls_requests st') =
             filter (\<lambda>q. fst q = ts ! j) (ls_requests s2)"
proof -
  have ts: "ts = take j ts @ [ts ! j] @ drop (Suc j) ts"
    using j by (simp add: Cons_nth_drop_Suc)
  have n1: "ts ! j \<notin> set (take j ts)" and n2: "ts ! j \<notin> set (drop (Suc j) ts)"
    using dist j
    by (metis ts distinct_append distinct.simps(2) append_Cons append_Nil disjoint_iff
        list.set_intros(1) set_append UnCI)+
  from loop obtain s1 where s1: "backfill_loop C w col today rs bounds i (take j ts) st = Inr s1"
    and r1: "backfill_loop C w col today rs bounds (i + j) ([ts ! j] @ drop (Suc j) ts) s1 = Inr st'"
    using j by (subst (asm) ts, subst (asm) backfill_loop_append) (auto split: sum.splits)
  from r1 obtain s2 where s2: "backfill_ticker C w col today rs bounds (i + j) (ts ! j) s1 = Inr s2"
    and r2: "backfill_loop C w col today rs bounds (Suc (i + j)) (drop (Suc j) ts) s2 = Inr st'"
    by (auto split: sum.splits)
  from backfill_loop_absent [OF s1 n1] backfill_loop_absent [OF r2 n2] s2
  show ?thesis by blast
qed


section \<open>One run of the store update\<close>

lemma updateHistDatabase_Inr:
  assumes run: "updateHistDatabase C w s today required = Inr (s', res, reqs)"
  obtains rs st where
    "2 \<le> length (hist_csv s)"
    "addDaysYMD today (- MIN_BACKFILL_DAYS C) = Some rs"
    "backfill_loop C w (hist_col s) today rs
       (coverage required (dedupe_map (hist_col s) required (hist_rows (hist_col s) (hist_csv s))))
       0 required
       \<lparr>ls_props = fold (\<lambda>t p. p(cursorKey t := None))
                     (purged_of (hist_col s) required (hist_rows (hist_col s) (hist_csv s)))
                     (props s),
        ls_map = dedupe_map (hist_col s) required (hist_rows (hist_col s) (hist_csv s)),
        ls_unfinished = [], ls_requests = []\<rparr> = Inr st"
    "props s' = ls_props st" "reqs = ls_requests st"
    "unfinishedTickers res = ls_unfinished st"
    "purgedTickers res = purged_of (hist_col s) required (hist_rows (hist_col s) (hist_csv s))"
    "log_csv s' = log_csv s"
    "hist_csv s' =
       map (\<lambda>r. normalizeRowWidth r (col_width (hist_col s)))
         (hd (hist_csv s) #
          sort_key (\<lambda>r. (r ! col_date (hist_col s), toUpperCase (r ! col_ticker (hist_col s))))
            (map snd (fold (live_row (hist_col s) today (getBatchPricesScratch w required))
                        required (ls_map st))))"
proof -
  from run have len: "2 \<le> length (hist_csv s)"
    by (auto simp: updateHistDatabase_def Let_def split: if_splits)
  from run len obtain col0 where col0: "buildColumnMap (hd (hist_csv s)) = Inr col0"
    by (cases "buildColumnMap (hd (hist_csv s))") (auto simp: updateHistDatabase_def Let_def)
  then have col: "hist_col s = col0\<lparr>col_width := length (hd (hist_csv s))\<rparr>"
    by (simp add: hist_col_def)
  from run len col0 obtain rs where rs: "addDaysYMD today (- MIN_BACKFILL_DAYS C) = Some rs"
    by (cases "addDaysYMD today (- MIN_BACKFILL_DAYS C)")
       (auto simp: updateHistDatabase_def Let_def)
  let ?loop = "backfill_loop C w (hist_col s) today rs
       (coverage required (dedupe_map (hist_col s) required (hist_rows (hist_col s) (hist_csv s))))
       0 required
       \<lparr>ls_props = fold (\<lambda>t p. p(cursorKey t := None))
                     (purged_of (hist_col s) required (hist_rows (hist_col s) (hist_csv s)))
                     (props s),
        ls_map = dedupe_map (hist_col s) required (hist_rows (hist_col s) (hist_csv s)),
        ls_unfinished = [], ls_requests = []\<rparr>"
  from run len col0 rs obtain st where st: "?loop = Inr st"
    by (cases ?loop) (auto simp: updateHistDatabase_def Let_def col)
  from run len col0 rs st
  have "(s', res, reqs) =
     (s\<lparr>props := ls_props st,
        hist_csv := map (\<lambda>r. normalizeRowWidth r (col_width (hist_col s)))
         (hd (hist_csv s) #
          sort_key (\<lambda>r. (r ! col_date (hist_col s), toUpperCase (r ! col_ticker (hist_col s))))
            (map snd (fold (live_row (hist_col s) today (getBatchPricesScratch w required))
                        required (ls_map st))))\<rparr>,
      \<lparr>purgedTickers = purged_of (hist_col s) required (hist_rows (hist_col s) (hist_csv s)),
       unfinishedTickers = ls_unfinished st\<rparr>,
      ls_requests st)"
    by (simp add: updateHistDatabase_def Let_def col)
  then show ?thesis
    using that [OF len rs st] by simp
qed

lemma purged_not_required:
  "t \<in> set (purged_of col required rows) \<Longrightarrow> t \<notin> set required"
  by (simp add: purged_of_def)

lemma fold_delete_cursor:
  "fold (\<lambda>t p. p(cursorKey t := None)) ts p (cursorKey u) =
     (if u \<in> set ts then None else p (cursorKey u))"
  by (induction ts arbitrary: p) auto

text \<open>
  The iteration of the \<open>j\<close>-th of distinct required tickers starts from the persisted
  cursor of that ticker and decides its cursor and its requests for the whole run.
\<close>

lemma updateHistDatabase_ticker:
  assumes run: "updateHistDatabase C w s today required = Inr (s', res, reqs)"
    and dist: "distinct required" and j: "j < length required"
  obtains rs st1 st2 where
    "addDaysYMD today (- MIN_BACKFILL_DAYS C) = Some rs"
    "backfill_ticker C w (hist_col s) today rs
       (coverage required (dedupe_map (hist_col s) required (hist_rows (hist_col s) (hist_csv s))))
       j (required ! j) st1 = Inr st2"
    "ls_props st1 (cursorKey (required ! j)) = props s (cursorKey (required ! j))"
    "filter (\<lambda>q. fst q = required ! j) (ls_requests st1) = []"
    "props s' (cursorKey (required ! j)) = ls_props st2 (cursorKey (required ! j))"
    "filter (\<lambda>q. fst q = required ! j) reqs = filter (\<lambda>q. fst q = required ! j) (ls_requests st2)"
proof -
  from run obtain rs st where
    rs: "addDaysYMD today (- MIN_BACKFILL_DAYS C) = Some rs"
    and loop: "backfill_loop C w (hist_col s) today rs
       (coverage required (dedupe_map (hist_col s) required (hist_rows (hist_col s) (hist_csv s))))
       0 required
       \<lparr>ls_props = fold (\<lambda>t p. p(cursorKey t := None))
                     (purged_of (hist_col s) required (hist_rows (hist_col s) (hist_csv s)))
                     (props s),
        ls_map = dedupe_map (hist_col s) required (hist_rows (hist_col s) (hist_csv s)),
        ls_unfinished = [], ls_requests = []\<rparr> = Inr st"
    and out: "props s' = ls_props st" "reqs = ls_requests st"
    by (rule updateHistDatabase_Inr)
  from backfill_loop_at [OF loop dist j] obtain st1 st2 where
    step: "backfill_ticker C w (hist_col s) today rs
       (coverage required (dedupe_map (hist_col s) required (hist_rows (hist_col s) (hist_csv s))))
       j (required ! j) st1 = Inr st2"
    and p1: "ls_props st1 (cursorKey (required ! j)) =
         fold (\<lambda>t p. p(cursorKey t := None))
                     (purged_of (hist_col s) required (hist_rows (hist_col s) (hist_csv s)))
                     (props s) (cursorKey (required ! j))"
    and q1: "filter (\<lambda>q. fst q = required ! j) (ls_requests st1) = []"
    and p2: "ls_props st (cursorKey (required ! j)) = ls_props st2 (cursorKey (required ! j))"
    and q2: "filter (\<lambda>q. fst q = required ! j) (ls_requests st) =
             filter (\<lambda>q. fst q = required ! j) (ls_requests st2)"
    by auto
  have "required ! j \<notin> set (purged_of (hist_col s) required (hist_rows (hist_col s) (hist_csv s)))"
    using j purged_not_required by fastforce
  with p1 have p1': "ls_props st1 (cursorKey (required ! j)) = props s (cursorKey (required ! j))"
    by (simp add: fold_delete_cursor)
  show ?thesis
    using that [OF rs step p1' q1] p2 q2 out by simp
qed

section \<open>Evaluating the store update on the concrete inputs\<close>

lemma funpow_numeral: "(f ^^ numeral k) x = (f ^^ pred_numeral k) (f x)"
  by (simp add: numeral_eq_Suc funpow_swap1)

lemmas str_eval = trim_def is_space_def toUpperCase_def upper_char_def toLowerCase_def
  lower_char_def is_ymd_def is_digit_def

lemmas date_eval = addDaysYMD_def ymdToLocalDate_def Number_part_def is_digit_def digits_val_def
  digit_val_def mkDate_def shift_days_def days_in_month_def leap_def pad_zero_def
  show_nat.simps digit_char_def funpow_numeral

lemma addDays_eval:
  "addDaysYMD ''2025-01-10'' (- 9) = Some ''2025-01-01''"
  "addDaysYMD ''2025-01-10'' (- 1) = Some ''2025-01-09''"
  "addDaysYMD ''2025-01-09'' (- 4) = Some ''2025-01-05''"
  "addDaysYMD ''2025-01-05'' (- 1) = Some ''2025-01-04''"
  "addDaysYMD ''2025-01-04'' (- 4) = Some ''2024-12-31''"
  "addDaysYMD ''2025-01-01'' (- 1) = Some ''2024-12-31''"
  by (simp_all add: date_eval)

lemma buildColumnMap_eval:
  "buildColumnMap [''date'', ''ticker'', ''price''] =
     Inr \<lparr>col_date = 0, col_ticker = 1, col_price = 2, col_width = 0\<rparr>"
  by (simp add: buildColumnMap_def indexOf_def str_eval)

lemma col3_simps [simp]:
  "col_date col3 = 0" "col_ticker col3 = 1" "col_price col3 = 2" "col_width col3 = 3"
  by (simp_all add: col3_def)

lemma hist_col_hist1: "hist_csv s = hist1 \<Longrightarrow> hist_col s = col3"
  by (simp add: hist_col_def hist1_def buildColumnMap_eval col3_def)

lemma hist1_rows: "hist_rows col3 hist1 = [[''2025-01-01'', ''QQQ'', ''400.00'']]"
  by (simp add: hist_rows_def hist1_def normalizeRowWidth_def)

lemma hist1_purged: "purged_of col3 [''QQQ'', ''VTI''] [[''2025-01-01'', ''QQQ'', ''400.00'']] = []"
  by (simp add: purged_of_def new_Set_def set_add_def row_ticker_def str_eval)

lemma hist1_map:
  "dedupe_map col3 [''QQQ'', ''VTI''] [[''2025-01-01'', ''QQQ'', ''400.00'']] =
     [(''2025-01-01|QQQ'', [''2025-01-01'', ''QQQ'', ''400.00''])]"
  by (simp add: dedupe_map_def hist1_purged dedupe_row_def row_ticker_def str_eval Let_def)

lemma hist1_coverage:
  "coverage [''QQQ'', ''VTI''] [(''2025-01-01|QQQ'', [''2025-01-01'', ''QQQ'', ''400.00''])] ''QQQ''
     = Some (Some ''2025-01-01'', Some ''2025-01-01'')"
  "coverage [''QQQ'', ''VTI''] [(''2025-01-01|QQQ'', [''2025-01-01'', ''QQQ'', ''400.00''])] ''VTI''
     = Some (None, None)"
  by (simp_all add: coverage_def bounds_step_def upd_min_def upd_max_def)

lemma hist1_min_coverage:
  assumes "hist_csv s = hist1"
  shows "min_coverage s [''QQQ'', ''VTI''] ''QQQ'' = Some ''2025-01-01''"
    and "min_coverage s [''QQQ'', ''VTI''] ''VTI'' = None"
  by (simp_all add: min_coverage_def hist_col_hist1 [OF assms] assms hist1_rows hist1_map
      hist1_coverage)

lemma no_live_prices:
  "liveQuote w = (\<lambda>t. CStr ''#N/A'') \<Longrightarrow>
   fold (live_row col today (getBatchPricesScratch w [''QQQ'', ''VTI''])) [''QQQ'', ''VTI''] m = m"
  by (simp add: getBatchPricesScratch_def live_row_def parseFloat_cell_def parseFloat_def
      str_decimal_def isFinite_def jless_def str_eval Let_def)

lemma updateHistDatabase_eval:
  assumes "2 \<le> length (hist_csv s)"
    and "buildColumnMap (hd (hist_csv s)) = Inr col0"
    and "col = col0\<lparr>col_width := length (hd (hist_csv s))\<rparr>"
    and "rows = hist_rows col (hist_csv s)"
    and "purged = purged_of col required rows"
    and "map0 = dedupe_map col required rows"
    and "addDaysYMD today (- MIN_BACKFILL_DAYS C) = Some rs"
    and "backfill_loop C w col today rs (coverage required map0) 0 required
           \<lparr>ls_props = fold (\<lambda>t p. p(cursorKey t := None)) purged (props s),
            ls_map = map0, ls_unfinished = [], ls_requests = []\<rparr> = Inr st"
  shows "updateHistDatabase C w s today required =
     Inr (s\<lparr>props := ls_props st,
            hist_csv := map (\<lambda>r. normalizeRowWidth r (col_width col))
              (hd (hist_csv s) #
               sort_key (\<lambda>r. (r ! col_date col, toUpperCase (r ! col_ticker col)))
                 (map snd (fold (live_row col today (getBatchPricesScratch w required))
                             required (ls_map st))))\<rparr>,
          \<lparr>purgedTickers = purged, unfinishedTickers = ls_unfinished st\<rparr>,
          ls_requests st)"
  using assms by (simp add: updateHistDatabase_def Let_def)

text \<open>The run on a store whose price table is \<open>hist1\<close>, once the loop is evaluated.\<close>

lemma hist1_run:
  assumes h: "hist_csv s = hist1"
    and live: "liveQuote w = (\<lambda>t. CStr ''#N/A'')"
    and rs: "addDaysYMD today (- MIN_BACKFILL_DAYS C) = Some rs"
    and loop: "backfill_loop C w col3 today rs
       (coverage [''QQQ'', ''VTI''] [(''2025-01-01|QQQ'', [''2025-01-01'', ''QQQ'', ''400.00''])])
       0 [''QQQ'', ''VTI'']
       \<lparr>ls_props = props s,
        ls_map = [(''2025-01-01|QQQ'', [''2025-01-01'', ''QQQ'', ''400.00''])],
        ls_unfinished = [], ls_requests = []\<rparr> =
       Inr \<lparr>ls_props = p, ls_map = [(''2025-01-01|QQQ'', [''2025-01-01'', ''QQQ'', ''400.00''])],
            ls_unfinished = u, ls_requests = q\<rparr>"
  shows "updateHistDatabase C w s today [''QQQ'', ''VTI''] =
     Inr (s\<lparr>props := p\<rparr>, \<lparr>purgedTickers = [], unfinishedTickers = u\<rparr>, q)"
proof -
  have h2: "hd (hist_csv s) = [''date'', ''ticker'', ''price'']" "2 \<le> length (hist_csv s)"
    by (simp_all add: h hist1_def)
  have c: "buildColumnMap (hd (hist_csv s)) =
      Inr \<lparr>col_date = 0, col_ticker = 1, col_price = 2, col_width = 0\<rparr>"
    by (simp add: h2 buildColumnMap_eval)
  have c3: "col3 = \<lparr>col_date = 0, col_ticker = 1, col_price = 2, col_width = 0\<rparr>
      \<lparr>col_width := length (hd (hist_csv s))\<rparr>"
    by (simp add: col3_def h2)
  have rows: "[[''2025-01-01'', ''QQQ'', ''400.00'']] = hist_rows col3 (hist_csv s)"
    by (simp add: h hist1_rows)
  have sp: "s\<lparr>props := p, hist_csv := hist1\<rparr> = s\<lparr>props := p\<rparr>"
    using h by (cases s) simp
  have loop': "backfill_loop C w col3 today rs
       (coverage [''QQQ'', ''VTI''] [(''2025-01-01|QQQ'', [''2025-01-01'', ''QQQ'', ''400.00''])])
       0 [''QQQ'', ''VTI'']
       \<lparr>ls_props = fold (\<lambda>t p. p(cursorKey t := None)) [] (props s),
        ls_map = [(''2025-01-01|QQQ'', [''2025-01-01'', ''QQQ'', ''400.00''])],
        ls_unfinished = [], ls_requests = []\<rparr> =
       Inr \<lparr>ls_props = p, ls_map = [(''2025-01-01|QQQ'', [''2025-01-01'', ''QQQ'', ''400.00''])],
            ls_unfinished = u, ls_requests = q\<rparr>"
    using loop by (simp only: fold_simps id_apply)
  have fin: "map (\<lambda>r. normalizeRowWidth r (col_width col3))
       (hd (hist_csv s) #
        sort_key (\<lambda>r. (r ! col_date col3, toUpperCase (r ! col_ticker col3)))
          (map snd (fold (live_row col3 today (getBatchPricesScratch w [''QQQ'', ''VTI'']))
             [''QQQ'', ''VTI''] [(''2025-01-01|QQQ'', [''2025-01-01'', ''QQQ'', ''400.00''])]))) = hist1"
    unfolding no_live_prices [OF live] h2 by (simp add: hist1_def normalizeRowWidth_def)
  show ?thesis
    unfolding updateHistDatabase_eval [OF h2(2) c c3 rows hist1_purged [symmetric]
      hist1_map [symmetric] rs loop']
    by (simp only: loop_state.simps fin sp)
qed


lemma cursorKey_VTI: "cursorKey ''VTI'' = ''CURSOR_VTI''"
  by (simp add: cursorKey_def)

lemma quiet_loop_1:
  "backfill_loop cfg1 quiet_world col3 ''2025-01-10'' ''2025-01-01''
       (coverage [''QQQ'', ''VTI''] [(''2025-01-01|QQQ'', [''2025-01-01'', ''QQQ'', ''400.00''])])
       0 [''QQQ'', ''VTI'']
       \<lparr>ls_props = Map.empty,
        ls_map = [(''2025-01-01|QQQ'', [''2025-01-01'', ''QQQ'', ''400.00''])],
        ls_unfinished = [], ls_requests = []\<rparr> =
   Inr \<lparr>ls_props = [''CURSOR_VTI'' \<mapsto> ''2025-01-04''],
        ls_map = [(''2025-01-01|QQQ'', [''2025-01-01'', ''QQQ'', ''400.00''])],
        ls_unfinished = [], ls_requests = [(''VTI'', ''2025-01-05'', ''2025-01-09'')]\<rparr>"
  by (simp add: backfill_ticker_def cfg1_def quiet_world_def hist1_coverage needsYear_of_def
      chunkEnd_of_def chunkEnd_from_coverage_def addDays_eval ingestBackfillChunk_def
      cursorKey_VTI Let_def)

lemma quiet_loop_2:
  "backfill_loop cfg1 quiet_world col3 ''2025-01-10'' ''2025-01-01''
       (coverage [''QQQ'', ''VTI''] [(''2025-01-01|QQQ'', [''2025-01-01'', ''QQQ'', ''400.00''])])
       0 [''QQQ'', ''VTI'']
       \<lparr>ls_props = [''CURSOR_VTI'' \<mapsto> ''2025-01-04''],
        ls_map = [(''2025-01-01|QQQ'', [''2025-01-01'', ''QQQ'', ''400.00''])],
        ls_unfinished = [], ls_requests = []\<rparr> =
   Inr \<lparr>ls_props = [''CURSOR_VTI'' \<mapsto> ''2025-01-04''](''CURSOR_VTI'' := None),
        ls_map = [(''2025-01-01|QQQ'', [''2025-01-01'', ''QQQ'', ''400.00''])],
        ls_unfinished = [], ls_requests = [(''VTI'', ''2025-01-01'', ''2025-01-04'')]\<rparr>"
  by (simp add: backfill_ticker_def cfg1_def quiet_world_def hist1_coverage needsYear_of_def
      chunkEnd_of_def chunkEnd_from_coverage_def addDays_eval ingestBackfillChunk_def
      cursorKey_VTI is_ymd_def is_digit_def Let_def)

lemma late_loop:
  "backfill_loop cfg1 late_world col3 ''2025-01-10'' ''2025-01-01''
       (coverage [''QQQ'', ''VTI''] [(''2025-01-01|QQQ'', [''2025-01-01'', ''QQQ'', ''400.00''])])
       0 [''QQQ'', ''VTI'']
       \<lparr>ls_props = Map.empty,
        ls_map = [(''2025-01-01|QQQ'', [''2025-01-01'', ''QQQ'', ''400.00''])],
        ls_unfinished = [], ls_requests = []\<rparr> =
   Inr \<lparr>ls_props = Map.empty,
        ls_map = [(''2025-01-01|QQQ'', [''2025-01-01'', ''QQQ'', ''400.00''])],
        ls_unfinished = [''QQQ'', ''VTI''], ls_requests = []\<rparr>"
  by (simp add: backfill_ticker_def cfg1_def late_world_def set_add_def)

lemma required_start_example:
  "addDaysYMD ''2025-01-10'' (- MIN_BACKFILL_DAYS cfg1) = Some ''2025-01-01''"
  by (simp add: cfg1_def addDays_eval)

lemma quiet_run_1:
  "updateHistDatabase cfg1 quiet_world store1 ''2025-01-10'' [''QQQ'', ''VTI''] =
     Inr (store1_next, \<lparr>purgedTickers = [], unfinishedTickers = []\<rparr>,
          [(''VTI'', ''2025-01-05'', ''2025-01-09'')])"
proof -
  have "store1\<lparr>props := [''CURSOR_VTI'' \<mapsto> ''2025-01-04'']\<rparr> = store1_next"
    by (simp add: store1_def store1_next_def)
  with hist1_run [of store1 quiet_world "''2025-01-10''" cfg1 "''2025-01-01''",
      OF _ _ required_start_example]
    quiet_loop_1
  show ?thesis by (simp add: store1_def quiet_world_def)
qed

lemma quiet_run_2:
  "updateHistDatabase cfg1 quiet_world store1_next ''2025-01-10'' [''QQQ'', ''VTI''] =
     Inr (store1_done, \<lparr>purgedTickers = [], unfinishedTickers = []\<rparr>,
          [(''VTI'', ''2025-01-01'', ''2025-01-04'')])"
proof -
  have "store1_next\<lparr>props := [''CURSOR_VTI'' \<mapsto> ''2025-01-04''](''CURSOR_VTI'' := None)\<rparr>
      = store1_done"
    by (simp add: store1_done_def store1_next_def)
  with hist1_run [of store1_next quiet_world "''2025-01-10''" cfg1 "''2025-01-01''",
      OF _ _ required_start_example]
    quiet_loop_2
  show ?thesis by (simp add: store1_next_def quiet_world_def)
qed

lemma late_run:
  "updateHistDatabase cfg1 late_world store1 ''2025-01-10'' [''QQQ'', ''VTI''] =
     Inr (store1, \<lparr>purgedTickers = [], unfinishedTickers = [''QQQ'', ''VTI'']\<rparr>, [])"
proof -
  have "store1\<lparr>props := Map.empty\<rparr> = store1"
    by (simp add: store1_def)
  with hist1_run [of store1 late_world "''2025-01-10''" cfg1 "''2025-01-01''",
      OF _ _ required_start_example]
    late_loop
  show ?thesis by (simp add: store1_def late_world_def)
qed

section \<open>The budget\<close>

text \<open>
  Claim C10. The unfinished tickers of a run are exactly the required tickers whose
  iteration starts over the budget; with a monotone clock, once the budget is exhausted
  every later ticker is unfinished, whatever its coverage, since the budget test comes first.
\<close>

theorem budget_exhausted_marks_unfinished:
  assumes run: "updateHistDatabase C w s today required = Inr (s', res, reqs)"
  shows "set (unfinishedTickers res) =
           {required ! j | j. j < length required \<and> RUNTIME_BUDGET_MS C < elapsed w j} \<and>
         ((\<forall>a b. a \<le> b \<longrightarrow> elapsed w a \<le> elapsed w b) \<and> RUNTIME_BUDGET_MS C < elapsed w i
          \<longrightarrow> (\<forall>j. i \<le> j \<and> j < length required \<longrightarrow> required ! j \<in> set (unfinishedTickers res)))"
proof -
  from run obtain rs st where
    loop: "backfill_loop C w (hist_col s) today rs
       (coverage required (dedupe_map (hist_col s) required (hist_rows (hist_col s) (hist_csv s))))
       0 required
       \<lparr>ls_props = fold (\<lambda>t p. p(cursorKey t := None))
                     (purged_of (hist_col s) required (hist_rows (hist_col s) (hist_csv s)))
                     (props s),
        ls_map = dedupe_map (hist_col s) required (hist_rows (hist_col s) (hist_csv s)),
        ls_unfinished = [], ls_requests = []\<rparr> = Inr st"
    and u: "unfinishedTickers res = ls_unfinished st"
    by (rule updateHistDatabase_Inr)
  have eq: "set (unfinishedTickers res) =
           {required ! j | j. j < length required \<and> RUNTIME_BUDGET_MS C < elapsed w j}"
    using backfill_loop_unfinished [OF loop] by (simp add: u)
  have "required ! j \<in> set (unfinishedTickers res)"
    if mono: "\<forall>a b. a \<le> b \<longrightarrow> elapsed w a \<le> elapsed w b"
      and i: "RUNTIME_BUDGET_MS C < elapsed w i" and j: "i \<le> j" "j < length required" for j
  proof -
    from mono j(1) have "elapsed w i \<le> elapsed w j" by blast
    with i have "RUNTIME_BUDGET_MS C < elapsed w j" by simp
    with j(2) show ?thesis unfolding eq by blast
  qed
  with eq show ?thesis by blast
qed

theorem budget_exhausted_marks_unfinished_witness:
  "updateHistDatabase cfg1 late_world store1 ''2025-01-10'' [''QQQ'', ''VTI''] =
     Inr (store1, \<lparr>purgedTickers = [], unfinishedTickers = [''QQQ'', ''VTI'']\<rparr>, []) \<and>
   RUNTIME_BUDGET_MS cfg1 < elapsed late_world 0 \<and>
   \<not> needsYear_of (min_coverage store1 [''QQQ'', ''VTI''] ''QQQ'') ''2025-01-01'' \<and>
   ''QQQ'' \<in> set (unfinishedTickers \<lparr>purgedTickers = [], unfinishedTickers = [''QQQ'', ''VTI'']\<rparr>) \<and>
   ''VTI'' \<in> set (unfinishedTickers \<lparr>purgedTickers = [], unfinishedTickers = [''QQQ'', ''VTI'']\<rparr>)"
proof -
  have mono: "\<forall>a b. a \<le> b \<longrightarrow> elapsed late_world a \<le> elapsed late_world b"
    by (simp add: late_world_def)
  have over: "RUNTIME_BUDGET_MS cfg1 < elapsed late_world 0"
    by (simp add: late_world_def cfg1_def)
  have cov: "\<not> needsYear_of (min_coverage store1 [''QQQ'', ''VTI''] ''QQQ'') ''2025-01-01''"
    by (simp add: hist1_min_coverage store1_def needsYear_of_def)
  note th = budget_exhausted_marks_unfinished [OF late_run, of 0]
  from th mono over
  have all: "\<forall>j. 0 \<le> j \<and> j < length [''QQQ'', ''VTI''] \<longrightarrow> [''QQQ'', ''VTI''] ! j \<in>
      set (unfinishedTickers \<lparr>purgedTickers = [], unfinishedTickers = [''QQQ'', ''VTI'']\<rparr>)"
    by blast
  have "[''QQQ'', ''VTI''] ! 0 \<in>
      set (unfinishedTickers \<lparr>purgedTickers = [], unfinishedTickers = [''QQQ'', ''VTI'']\<rparr>)"
    using all [rule_format, of 0] by simp
  moreover have "[''QQQ'', ''VTI''] ! 1 \<in>
      set (unfinishedTickers \<lparr>purgedTickers = [], unfinishedTickers = [''QQQ'', ''VTI'']\<rparr>)"
    using all [rule_format, of 1] by simp
  ultimately show ?thesis using late_run over cov by simp
qed

section \<open>The requested chunk\<close>

lemma min_coverage_bounds:
  "min_coverage s required t =
     (case coverage required
             (dedupe_map (hist_col s) required (hist_rows (hist_col s) (hist_csv s))) t of
        None \<Rightarrow> None | Some b \<Rightarrow> fst b)"
  by (simp add: min_coverage_def)

text \<open>
  What a run does for a required ticker that is reached within the budget and needs history:
  nothing but deleting its cursor if the chunk end lies before the required start, else
  exactly one request, for the chunk of the description, and the cursor moved to the day
  before the chunk or deleted.
\<close>

lemma updateHistDatabase_fetch:
  assumes run: "updateHistDatabase C w s today required = Inr (s', res, reqs)"
    and dist: "distinct required" and j: "j < length required"
    and budget: "elapsed w j \<le> RUNTIME_BUDGET_MS C"
    and rs: "addDaysYMD today (- MIN_BACKFILL_DAYS C) = Some rs"
    and needs: "needsYear_of (min_coverage s required (required ! j)) rs"
    and ce: "spec_chunkEnd (props s (cursorKey (required ! j)))
               (min_coverage s required (required ! j)) today = Some ce"
    and ge: "rs \<le> ce"
  obtains cs ne where "spec_chunkStart rs (CHUNK_DAYS C) ce = Some cs"
    "addDaysYMD cs (- 1) = Some ne"
    "filter (\<lambda>q. fst q = required ! j) reqs = [(required ! j, cs, ce)]"
    "props s' (cursorKey (required ! j)) = (if rs \<le> ne then Some ne else None)"
proof -
  from updateHistDatabase_ticker [OF run dist j] obtain rs' st1 st2 where
    rs': "addDaysYMD today (- MIN_BACKFILL_DAYS C) = Some rs'"
    and step: "backfill_ticker C w (hist_col s) today rs'
       (coverage required (dedupe_map (hist_col s) required (hist_rows (hist_col s) (hist_csv s))))
       j (required ! j) st1 = Inr st2"
    and p1: "ls_props st1 (cursorKey (required ! j)) = props s (cursorKey (required ! j))"
    and q1: "filter (\<lambda>q. fst q = required ! j) (ls_requests st1) = []"
    and p2: "props s' (cursorKey (required ! j)) = ls_props st2 (cursorKey (required ! j))"
    and q2: "filter (\<lambda>q. fst q = required ! j) reqs =
             filter (\<lambda>q. fst q = required ! j) (ls_requests st2)"
    by blast
  from rs rs' have [simp]: "rs' = rs" by simp
  from step show ?thesis
  proof (cases rule: backfill_ticker_cases)
    case over_budget
    with budget show ?thesis by simp
  next
    case covered
    with needs show ?thesis by (simp add: min_coverage_bounds)
  next
    case (complete ce')
    with ce ge p1 show ?thesis by (simp add: min_coverage_bounds)
  next
    case (fetched ce' cs ne)
    from fetched(3) ce p1 have [simp]: "ce' = ce" by (simp add: min_coverage_bounds)
    from fetched(7) q1 q2
    have q: "filter (\<lambda>q. fst q = required ! j) reqs = [(required ! j, cs, ce)]" by simp
    from fetched(7) p2
    have p: "props s' (cursorKey (required ! j)) = (if rs \<le> ne then Some ne else None)" by simp
    from fetched(5,6) q p show ?thesis using that by simp
  qed
qed


text \<open>
  Claim C1. In every invocation, for every required ticker that is reached within the budget,
  still needs history and whose chunk end is not before the required start, the one requested
  range is \<open>[max requiredStart (chunkEnd - chunkSize + 1), chunkEnd]\<close>, where \<open>chunkEnd\<close> is
  the persisted cursor if it is a well-formed date, else the day before the earliest stored
  date if there is one, else yesterday. Concretely: required start 2025-01-01, today
  2025-01-10, chunks of 5 days, no data and no cursor for the ticker; the first invocation
  requests 2025-01-05 to 2025-01-09 and persists the cursor 2025-01-04, the second requests
  2025-01-01 to 2025-01-04 and deletes the cursor.
\<close>

theorem backfill_chunk_range:
  "(updateHistDatabase C w s today required = Inr (s', res, reqs) \<and>
    distinct required \<and> j < length required \<and> elapsed w j \<le> RUNTIME_BUDGET_MS C \<and>
    addDaysYMD today (- MIN_BACKFILL_DAYS C) = Some rs \<and>
    needsYear_of (min_coverage s required (required ! j)) rs \<and>
    spec_chunkEnd (props s (cursorKey (required ! j)))
      (min_coverage s required (required ! j)) today = Some ce \<and>
    rs \<le> ce
    \<longrightarrow> (\<exists>cs. spec_chunkStart rs (CHUNK_DAYS C) ce = Some cs \<and>
              filter (\<lambda>q. fst q = required ! j) reqs = [(required ! j, cs, ce)])) \<and>
   addDaysYMD ''2025-01-10'' (- MIN_BACKFILL_DAYS cfg1) = Some ''2025-01-01'' \<and>
   CHUNK_DAYS cfg1 = 5 \<and>
   min_coverage store1 [''QQQ'', ''VTI''] ''VTI'' = None \<and>
   props store1 (cursorKey ''VTI'') = None \<and>
   updateHistDatabase cfg1 quiet_world store1 ''2025-01-10'' [''QQQ'', ''VTI''] =
     Inr (store1_next, \<lparr>purgedTickers = [], unfinishedTickers = []\<rparr>,
          [(''VTI'', ''2025-01-05'', ''2025-01-09'')]) \<and>
   props store1_next (cursorKey ''VTI'') = Some ''2025-01-04'' \<and>
   updateHistDatabase cfg1 quiet_world store1_next ''2025-01-10'' [''QQQ'', ''VTI''] =
     Inr (store1_done, \<lparr>purgedTickers = [], unfinishedTickers = []\<rparr>,
          [(''VTI'', ''2025-01-01'', ''2025-01-04'')]) \<and>
   props store1_done (cursorKey ''VTI'') = None"
proof -
  have general: "\<exists>cs. spec_chunkStart rs (CHUNK_DAYS C) ce = Some cs \<and>
              filter (\<lambda>q. fst q = required ! j) reqs = [(required ! j, cs, ce)]"
    if "updateHistDatabase C w s today required = Inr (s', res, reqs) \<and>
    distinct required \<and> j < length required \<and> elapsed w j \<le> RUNTIME_BUDGET_MS C \<and>
    addDaysYMD today (- MIN_BACKFILL_DAYS C) = Some rs \<and>
    needsYear_of (min_coverage s required (required ! j)) rs \<and>
    spec_chunkEnd (props s (cursorKey (required ! j)))
      (min_coverage s required (required ! j)) today = Some ce \<and>
    rs \<le> ce"
  proof -
    from that obtain cs where "spec_chunkStart rs (CHUNK_DAYS C) ce = Some cs"
      "filter (\<lambda>q. fst q = required ! j) reqs = [(required ! j, cs, ce)]"
      by (elim conjE updateHistDatabase_fetch) blast
    then show ?thesis by blast
  qed
  have scenario: "CHUNK_DAYS cfg1 = 5"
    "min_coverage store1 [''QQQ'', ''VTI''] ''VTI'' = None"
    "props store1 (cursorKey ''VTI'') = None"
    "props store1_next (cursorKey ''VTI'') = Some ''2025-01-04''"
    "props store1_done (cursorKey ''VTI'') = None"
    by (simp_all add: cfg1_def hist1_min_coverage store1_def store1_next_def store1_done_def
        cursorKey_VTI)
  from general scenario required_start_example quiet_run_1 quiet_run_2
  show ?thesis by blast
qed

theorem backfill_chunk_range_witness:
  "distinct [''QQQ'', ''VTI''] \<and> elapsed quiet_world 1 \<le> RUNTIME_BUDGET_MS cfg1 \<and>
   needsYear_of (min_coverage store1 [''QQQ'', ''VTI''] ([''QQQ'', ''VTI''] ! 1)) ''2025-01-01'' \<and>
   spec_chunkEnd (props store1 (cursorKey ([''QQQ'', ''VTI''] ! 1)))
      (min_coverage store1 [''QQQ'', ''VTI''] ([''QQQ'', ''VTI''] ! 1)) ''2025-01-10''
     = Some ''2025-01-09'' \<and>
   ''2025-01-01'' \<le> ''2025-01-09'' \<and>
   spec_chunkStart ''2025-01-01'' (CHUNK_DAYS cfg1) ''2025-01-09'' = Some ''2025-01-05'' \<and>
   (\<exists>cs. spec_chunkStart ''2025-01-01'' (CHUNK_DAYS cfg1) ''2025-01-09'' = Some cs \<and>
      filter (\<lambda>q. fst q = [''QQQ'', ''VTI''] ! 1) [(''VTI'', ''2025-01-05'', ''2025-01-09'')]
        = [([''QQQ'', ''VTI''] ! 1, cs, ''2025-01-09'')])"
proof -
  have h: "distinct [''QQQ'', ''VTI'']" "(1::nat) < length [''QQQ'', ''VTI'']"
    "elapsed quiet_world 1 \<le> RUNTIME_BUDGET_MS cfg1"
    "needsYear_of (min_coverage store1 [''QQQ'', ''VTI''] ([''QQQ'', ''VTI''] ! 1)) ''2025-01-01''"
    "spec_chunkEnd (props store1 (cursorKey ([''QQQ'', ''VTI''] ! 1)))
      (min_coverage store1 [''QQQ'', ''VTI''] ([''QQQ'', ''VTI''] ! 1)) ''2025-01-10''
     = Some ''2025-01-09''"
    "''2025-01-01'' \<le> ''2025-01-09''"
    "spec_chunkStart ''2025-01-01'' (CHUNK_DAYS cfg1) ''2025-01-09'' = Some ''2025-01-05''"
    by (simp_all add: quiet_world_def cfg1_def hist1_min_coverage store1_def needsYear_of_def
        spec_chunkEnd_def spec_chunkStart_def addDays_eval cursorKey_VTI)
  from backfill_chunk_range [THEN conjunct1, rule_format,
      of cfg1 quiet_world store1 "''2025-01-10''" "[''QQQ'', ''VTI'']" store1_next
         "\<lparr>purgedTickers = [], unfinishedTickers = []\<rparr>"
         "[(''VTI'', ''2025-01-05'', ''2025-01-09'')]" 1 "''2025-01-01''" "''2025-01-09''"]
    quiet_run_1 required_start_example h
  have "\<exists>cs. spec_chunkStart ''2025-01-01'' (CHUNK_DAYS cfg1) ''2025-01-09'' = Some cs \<and>
      filter (\<lambda>q. fst q = [''QQQ'', ''VTI''] ! 1) [(''VTI'', ''2025-01-05'', ''2025-01-09'')]
        = [([''QQQ'', ''VTI''] ! 1, cs, ''2025-01-09'')]"
    by blast
  with h show ?thesis by blast
qed

section \<open>Fetches that return nothing usable\<close>

lemma ingest_row_unusable:
  "\<not> usable_row rs today v \<Longrightarrow> ingest_row col t rs today v acc = acc"
  by (auto simp: usable_row_def ingest_row_def Let_def split: list.splits cell.splits)

lemma ingest_fold_unusable:
  "\<forall>v \<in> set vs. \<not> usable_row rs today v \<Longrightarrow> fold (ingest_row col t rs today) vs acc = acc"
  by (induction vs arbitrary: acc) (simp_all add: ingest_row_unusable)

lemma ingest_nothing:
  "\<not> (\<exists>v \<in> set (tl (rangeQuote w t cs ce)). usable_row rs today v) \<Longrightarrow>
   ingestBackfillChunk w t cs ce rs today m col = (0, m)"
  by (simp add: ingestBackfillChunk_def Let_def ingest_fold_unusable)

text \<open>
  Claim C2, as amended. A range fetch that returns no usable row ingests nothing and leaves
  the dedupe object as it was, but the cursor of the ticker moves as after any other fetch:
  to the day before the chunk if that is not before the required start, and it is deleted
  otherwise.
\<close>

theorem empty_fetch_cursor_still_advances:
  assumes "updateHistDatabase C w s today required = Inr (s', res, reqs)"
    and "distinct required" and "j < length required"
    and "elapsed w j \<le> RUNTIME_BUDGET_MS C"
    and "addDaysYMD today (- MIN_BACKFILL_DAYS C) = Some rs"
    and "needsYear_of (min_coverage s required (required ! j)) rs"
    and "spec_chunkEnd (props s (cursorKey (required ! j)))
               (min_coverage s required (required ! j)) today = Some ce"
    and "rs \<le> ce"
    and "spec_chunkStart rs (CHUNK_DAYS C) ce = Some cs"
    and "addDaysYMD cs (- 1) = Some ne"
    and "\<not> (\<exists>v \<in> set (tl (rangeQuote w (required ! j) cs ce)). usable_row rs today v)"
  shows "ingestBackfillChunk w (required ! j) cs ce rs today m col = (0, m) \<and>
         filter (\<lambda>q. fst q = required ! j) reqs = [(required ! j, cs, ce)] \<and>
         props s' (cursorKey (required ! j)) = (if rs \<le> ne then Some ne else None)"
proof -
  from assms(1-8) obtain cs' ne' where "spec_chunkStart rs (CHUNK_DAYS C) ce = Some cs'"
    "addDaysYMD cs' (- 1) = Some ne'"
    "filter (\<lambda>q. fst q = required ! j) reqs = [(required ! j, cs', ce)]"
    "props s' (cursorKey (required ! j)) = (if rs \<le> ne' then Some ne' else None)"
    by (rule updateHistDatabase_fetch)
  with assms(9,10) ingest_nothing [OF assms(11)] show ?thesis by simp
qed

theorem empty_fetch_cursor_still_advances_witness:
  "tl (rangeQuote quiet_world ([''QQQ'', ''VTI''] ! 1) ''2025-01-05'' ''2025-01-09'') = [] \<and>
   spec_chunkStart ''2025-01-01'' (CHUNK_DAYS cfg1) ''2025-01-09'' = Some ''2025-01-05'' \<and>
   addDaysYMD ''2025-01-05'' (- 1) = Some ''2025-01-04'' \<and>
   ingestBackfillChunk quiet_world ([''QQQ'', ''VTI''] ! 1) ''2025-01-05'' ''2025-01-09''
     ''2025-01-01'' ''2025-01-10'' [] (hist_col store1) = (0, []) \<and>
   props store1_next (cursorKey ([''QQQ'', ''VTI''] ! 1)) = Some ''2025-01-04''"
proof -
  have h: "distinct [''QQQ'', ''VTI'']" "(1::nat) < length [''QQQ'', ''VTI'']"
    "elapsed quiet_world 1 \<le> RUNTIME_BUDGET_MS cfg1"
    "needsYear_of (min_coverage store1 [''QQQ'', ''VTI''] ([''QQQ'', ''VTI''] ! 1)) ''2025-01-01''"
    "spec_chunkEnd (props store1 (cursorKey ([''QQQ'', ''VTI''] ! 1)))
      (min_coverage store1 [''QQQ'', ''VTI''] ([''QQQ'', ''VTI''] ! 1)) ''2025-01-10''
     = Some ''2025-01-09''"
    "''2025-01-01'' \<le> ''2025-01-09''"
    "spec_chunkStart ''2025-01-01'' (CHUNK_DAYS cfg1) ''2025-01-09'' = Some ''2025-01-05''"
    "addDaysYMD ''2025-01-05'' (- 1) = Some ''2025-01-04''"
    by (simp_all add: quiet_world_def cfg1_def hist1_min_coverage store1_def needsYear_of_def
        spec_chunkEnd_def spec_chunkStart_def addDays_eval cursorKey_VTI)
  have e: "tl (rangeQuote quiet_world ([''QQQ'', ''VTI''] ! 1) ''2025-01-05'' ''2025-01-09'') = []"
    by (simp add: quiet_world_def)
  then have n: "\<not> (\<exists>v \<in> set (tl (rangeQuote quiet_world ([''QQQ'', ''VTI''] ! 1) ''2025-01-05''
      ''2025-01-09'')). usable_row ''2025-01-01'' ''2025-01-10'' v)"
    by simp
  have le: "''2025-01-01'' \<le> ''2025-01-04''" by simp
  from empty_fetch_cursor_still_advances [OF quiet_run_1 h(1,2,3) required_start_example
      h(4,5,6,7,8) n, of "[]" "hist_col store1"] le e h
  show ?thesis by simp
qed

text \<open>
  Claim C2 as stated fails: in this run the range fetch for the ticker returns nothing and
  nothing is ingested, yet the cursor, absent before, is 2025-01-04 afterwards, and the next
  invocation requests another range.
\<close>

theorem failed_fetch_keeps_cursor_counterexample:
  "rangeQuote quiet_world ''VTI'' ''2025-01-05'' ''2025-01-09'' = [] \<and>
   updateHistDatabase cfg1 quiet_world store1 ''2025-01-10'' [''QQQ'', ''VTI''] =
     Inr (store1_next, \<lparr>purgedTickers = [], unfinishedTickers = []\<rparr>,
          [(''VTI'', ''2025-01-05'', ''2025-01-09'')]) \<and>
   hist_csv store1_next = hist_csv store1 \<and>
   props store1 (cursorKey ''VTI'') = None \<and>
   props store1_next (cursorKey ''VTI'') = Some ''2025-01-04'' \<and>
   props store1_next (cursorKey ''VTI'') \<noteq> props store1 (cursorKey ''VTI'') \<and>
   updateHistDatabase cfg1 quiet_world store1_next ''2025-01-10'' [''QQQ'', ''VTI''] =
     Inr (store1_done, \<lparr>purgedTickers = [], unfinishedTickers = []\<rparr>,
          [(''VTI'', ''2025-01-01'', ''2025-01-04'')]) \<and>
   (''VTI'', ''2025-01-01'', ''2025-01-04'') \<noteq> (''VTI'', ''2025-01-05'', ''2025-01-09'')"
  using quiet_run_1 quiet_run_2
  by (simp add: quiet_world_def store1_def store1_next_def cursorKey_VTI)

section \<open>Purge and dedupe invariants of the price table\<close>

lemma trim_no_space: "\<forall>c \<in> set s. \<not> is_space c \<Longrightarrow> trim s = s"
proof (cases s)
  case Nil
  then show ?thesis by (simp add: trim_def)
next
  case (Cons x xs)
  assume ns: "\<forall>c \<in> set s. \<not> is_space c"
  with Cons have 1: "dropWhile is_space s = s" by simp
  have "rev s \<noteq> []" using Cons by simp
  then obtain y ys where r: "rev s = y # ys" by (cases "rev s") auto
  then have "y \<in> set s" by (metis list.set_intros(1) set_rev)
  with ns r have 2: "dropWhile is_space (rev s) = rev s" by simp
  show ?thesis by (simp add: trim_def 1 2)
qed

lemma digit_char_digit: "is_digit (digit_char n)"
proof -
  have "list_all is_digit ''0123456789''" by (simp add: is_digit_def)
  moreover have "n mod 10 < length ''0123456789''" by simp
  ultimately show ?thesis unfolding digit_char_def list_all_length by blast
qed

lemma show_nat_digits: "c \<in> set (show_nat n) \<Longrightarrow> is_digit c"
proof (induction n rule: show_nat.induct)
  case (1 n)
  show ?case
  proof (cases "n < 10")
    case True
    with "1.prems" show ?thesis using digit_char_digit [of n] by (subst (asm) show_nat.simps) simp
  next
    case False
    with "1.prems" have "c \<in> set (show_nat (n div 10)) \<or> c = digit_char n"
      by (subst (asm) show_nat.simps) auto
    with False "1.IH" show ?thesis using digit_char_digit [of n] by auto
  qed
qed

lemma pad_zero_digits: "c \<in> set (pad_zero w (show_nat n)) \<Longrightarrow> is_digit c"
proof -
  assume "c \<in> set (pad_zero w (show_nat n))"
  then have "c = CHR ''0'' \<or> c \<in> set (show_nat n)" by (auto simp: pad_zero_def)
  then show ?thesis using show_nat_digits by (auto simp: is_digit_def)
qed

lemma formatDate_chars: "x \<in> set (formatDate c) \<Longrightarrow> is_digit x \<or> x = CHR ''-''"
proof -
  obtain y m d where c: "c = (y, m, d)" by (cases c)
  assume "x \<in> set (formatDate c)"
  then have "x \<in> set (pad_zero 4 (show_nat (nat (if 0 < y then y else 1 - y)))) \<or> x = CHR ''-'' \<or>
      x \<in> set (pad_zero 2 (show_nat m)) \<or> x \<in> set (pad_zero 2 (show_nat d))"
    unfolding c formatDate.simps by auto
  then show ?thesis using pad_zero_digits by blast
qed

lemma digit_not_space: "is_digit x \<or> x = CHR ''-'' \<Longrightarrow> \<not> is_space x"
  by (auto simp: is_digit_def is_space_def)

lemma formatDate_trim: "trim (formatDate c) = formatDate c"
proof (rule trim_no_space, rule ballI)
  fix x assume "x \<in> set (formatDate c)"
  from digit_not_space [OF formatDate_chars [OF this]] show "\<not> is_space x" .
qed

lemma indexOf_Some: "indexOf xs x = Some i \<Longrightarrow> i < length xs \<and> xs ! i = x"
  unfolding indexOf_def by (drule findIndex_Some) simp

lemma buildColumnMap_Inr:
  assumes "buildColumnMap header = Inr col"
  shows "col_date col < length header" "col_ticker col < length header"
    "col_price col < length header"
    "col_date col \<noteq> col_ticker col" "col_date col \<noteq> col_price col"
    "col_ticker col \<noteq> col_price col"
proof -
  define h where "h = map (\<lambda>v. toLowerCase (trim v)) header"
  define P where "P = (\<lambda>x. str_includes x ''adjclose'' \<or> str_includes x ''close'' \<or>
                          str_includes x ''price'')"
  define pi where "pi = (case indexOf h ''adjclose'' of Some i \<Rightarrow> Some i
     | None \<Rightarrow> (case indexOf h ''close'' of Some i \<Rightarrow> Some i | None \<Rightarrow> findIndex P h))"
  from assms obtain d t p where
    d: "indexOf h ''date'' = Some d" and t: "indexOf h ''ticker'' = Some t" and p: "pi = Some p"
    and col: "col = \<lparr>col_date = d, col_ticker = t, col_price = p, col_width = 0\<rparr>"
    unfolding buildColumnMap_def Let_def h_def [symmetric] P_def [symmetric] pi_def [symmetric]
    by (auto split: option.splits)
  have len: "length h = length header" by (simp add: h_def)
  from indexOf_Some [OF d] have d': "d < length h" "h ! d = ''date''" by simp_all
  from indexOf_Some [OF t] have t': "t < length h" "h ! t = ''ticker''" by simp_all
  have nP: "\<not> P ''date''" "\<not> P ''ticker''" by (simp_all add: P_def)
  from p have p': "p < length h \<and> (h ! p = ''adjclose'' \<or> h ! p = ''close'' \<or> P (h ! p))"
    unfolding pi_def
    by (auto split: option.splits dest: indexOf_Some findIndex_Some)
  from d' t' p' nP show "col_date col < length header" "col_ticker col < length header"
    "col_price col < length header"
    "col_date col \<noteq> col_ticker col" "col_date col \<noteq> col_price col"
    "col_ticker col \<noteq> col_price col"
    by (auto simp: col len)
qed


lemma hist_col_ok:
  assumes "buildColumnMap (hd (hist_csv s)) = Inr col0"
  shows "col_ok (hist_col s)"
  using buildColumnMap_Inr [OF assms] by (simp add: hist_col_def assms col_ok_def)

lemma update_entries: "e \<in> set (AList.update k v al) \<Longrightarrow> e = (k, v) \<or> e \<in> set al"
  by (induction al) (auto split: if_splits)

lemma map_inv_empty: "map_inv col required []"
  by (simp add: map_inv_def)

lemma map_inv_update:
  assumes "map_inv col required m" and "length r = col_width col"
    and "k = fst (row_key col r) @ ''|'' @ snd (row_key col r)"
    and "row_ticker col r \<in> set required"
  shows "map_inv col required (AList.update k r m)"
  unfolding map_inv_def
proof (intro conjI ballI)
  show "distinct (map fst (AList.update k r m))"
    using assms(1) by (simp add: map_inv_def distinct_update)
next
  fix e assume "e \<in> set (AList.update k r m)"
  then have "e = (k, r) \<or> e \<in> set m" by (rule update_entries)
  then show "length (snd e) = col_width col"
      "fst e = fst (row_key col (snd e)) @ ''|'' @ snd (row_key col (snd e))"
      "row_ticker col (snd e) \<in> set required"
    using assms by (auto simp: map_inv_def)
qed

lemma new_row:
  fixes d t p :: string
  assumes "col_ok col"
  defines "row \<equiv> (replicate (col_width col) [])
                    [col_date col := d, col_ticker col := t, col_price col := p]"
  shows "length row = col_width col" "row ! col_date col = d" "row ! col_ticker col = t"
  using assms(1) by (simp_all add: row_def col_ok_def)

lemma new_row_inv:
  assumes inv: "map_inv col required m" and ok: "col_ok col"
    and t: "t \<in> set required" "toUpperCase (trim t) = t" and d: "trim d = d"
  shows "map_inv col required
           (AList.update (d @ ''|'' @ t)
              ((replicate (col_width col) [])
                 [col_date col := d, col_ticker col := t, col_price col := p]) m)"
  using inv
proof (rule map_inv_update)
  note nr = new_row [OF ok, of d t p]
  show "length ((replicate (col_width col) [])
                 [col_date col := d, col_ticker col := t, col_price col := p]) = col_width col"
    by (rule nr(1))
  show "d @ ''|'' @ t =
      fst (row_key col ((replicate (col_width col) [])
                 [col_date col := d, col_ticker col := t, col_price col := p])) @ ''|'' @
      snd (row_key col ((replicate (col_width col) [])
                 [col_date col := d, col_ticker col := t, col_price col := p]))"
    unfolding row_key_def row_ticker_def fst_conv snd_conv nr(2) nr(3) t(2) d ..
  show "row_ticker col ((replicate (col_width col) [])
                 [col_date col := d, col_ticker col := t, col_price col := p]) \<in> set required"
    unfolding row_ticker_def nr(3) t(2) by (rule t(1))
qed

lemma ingest_row_inv:
  assumes "map_inv col required (snd acc)" "col_ok col" "t \<in> set required"
    "toUpperCase (trim t) = t"
  shows "map_inv col required (snd (ingest_row col t rs today v acc))"
proof (cases "usable_row rs today v")
  case False
  then show ?thesis using assms(1) by (simp add: ingest_row_unusable)
next
  case True
  then obtain d rest where v: "v = CDate d # rest"
    by (auto simp: usable_row_def split: list.splits cell.splits)
  from True v have "ingest_row col t rs today v acc =
      (fst acc + 1, AList.update (formatDate d @ ''|'' @ t)
         ((replicate (col_width col) [])
            [col_date col := formatDate d, col_ticker col := t,
             col_price col := toFixed (case rest of c # _ \<Rightarrow> parseFloat_cell c | [] \<Rightarrow> NaN) 2])
         (snd acc))"
    by (auto simp: usable_row_def ingest_row_def Let_def)
  then show ?thesis
    using new_row_inv [OF assms(1,2,3,4) formatDate_trim] by simp
qed

lemma ingest_fold_inv:
  assumes "map_inv col required (snd acc)" "col_ok col" "t \<in> set required"
    "toUpperCase (trim t) = t"
  shows "map_inv col required (snd (fold (ingest_row col t rs today) vs acc))"
  using assms(1)
proof (induction vs arbitrary: acc)
  case Nil
  then show ?case by simp
next
  case (Cons v vs)
  from ingest_row_inv [OF Cons.prems assms(2,3,4)] Cons.IH show ?case by simp
qed

lemma ingestBackfillChunk_inv:
  assumes "map_inv col required m" "col_ok col" "t \<in> set required" "toUpperCase (trim t) = t"
  shows "map_inv col required (snd (ingestBackfillChunk w t cs ce rs today m col))"
  using assms ingest_fold_inv [of col required "(0, m)" t rs today]
  by (simp add: ingestBackfillChunk_def Let_def)

lemma backfill_ticker_inv:
  assumes "backfill_ticker C w col today rs bounds i t st = Inr st'"
    and "map_inv col required (ls_map st)" "col_ok col" "t \<in> set required"
    "toUpperCase (trim t) = t"
  shows "map_inv col required (ls_map st')"
  using assms(1)
proof (cases rule: backfill_ticker_cases)
  case (fetched ce cs ne)
  then show ?thesis using ingestBackfillChunk_inv [OF assms(2-5)] by simp
qed (use assms(2) in simp_all)

lemma backfill_loop_inv:
  assumes "backfill_loop C w col today rs bounds i ts st = Inr st'"
    and "map_inv col required (ls_map st)" "col_ok col" "set ts \<subseteq> set required"
    "\<forall>t \<in> set ts. toUpperCase (trim t) = t"
  shows "map_inv col required (ls_map st')"
  using assms(1,2,4,5)
proof (induction ts arbitrary: i st)
  case Nil
  then show ?case by simp
next
  case (Cons u ts)
  from Cons.prems(1) obtain s1 where
    s1: "backfill_ticker C w col today rs bounds i u st = Inr s1"
    and rest: "backfill_loop C w col today rs bounds (Suc i) ts s1 = Inr st'"
    by (auto split: sum.splits)
  have "map_inv col required (ls_map s1)"
    using backfill_ticker_inv [OF s1 Cons.prems(2) assms(3)] Cons.prems(3,4) by simp
  with Cons.IH [OF rest] Cons.prems(3,4) show ?case by simp
qed

lemma live_row_inv:
  assumes "map_inv col required m" "col_ok col" "t \<in> set required" "toUpperCase (trim t) = t"
    "trim today = today"
  shows "map_inv col required (live_row col today prices t m)"
  using assms(1) new_row_inv [OF assms(1,2,3,4,5)] by (simp add: live_row_def Let_def)

lemma live_fold_inv:
  assumes "map_inv col required m" "col_ok col" "set ts \<subseteq> set required"
    "\<forall>t \<in> set ts. toUpperCase (trim t) = t" "trim today = today"
  shows "map_inv col required (fold (live_row col today prices) ts m)"
  using assms(1,3,4)
proof (induction ts arbitrary: m)
  case Nil
  then show ?case by simp
next
  case (Cons u ts)
  have "map_inv col required (live_row col today prices u m)"
    using live_row_inv [OF Cons.prems(1) assms(2) _ _ assms(5)] Cons.prems(2,3) by simp
  with Cons.IH Cons.prems(2,3) show ?case by simp
qed

lemma set_new_Set: "set (new_Set xs) = set xs"
proof -
  have "set (fold set_add xs acc) = set acc \<union> set xs" for acc :: "'a list"
    by (induction xs arbitrary: acc) (auto simp: set_add_def)
  then show ?thesis by (simp add: new_Set_def)
qed

lemma set_purged_of:
  "set (purged_of col required rows) =
     {t. t \<noteq> [] \<and> t \<in> row_ticker col ` set rows} - set required"
  by (auto simp: purged_of_def set_new_Set)

lemma dedupe_fold_inv:
  assumes "map_inv col required m"
    and "\<forall>r \<in> set rows. length r = col_width col \<and>
           (row_ticker col r \<noteq> [] \<longrightarrow> row_ticker col r \<in> set required)"
  shows "map_inv col required (fold (dedupe_row col) rows m)"
  using assms
proof (induction rows arbitrary: m)
  case Nil
  then show ?case by simp
next
  case (Cons r rows)
  have "map_inv col required (dedupe_row col r m)"
  proof (cases "trim (r ! col_date col) = [] \<or> row_ticker col r = []")
    case True
    then show ?thesis using Cons.prems(1) by (simp add: dedupe_row_def Let_def)
  next
    case False
    then have "dedupe_row col r m =
        AList.update (trim (r ! col_date col) @ ''|'' @ row_ticker col r) r m"
      by (simp add: dedupe_row_def Let_def)
    moreover have "map_inv col required
        (AList.update (trim (r ! col_date col) @ ''|'' @ row_ticker col r) r m)"
      using Cons.prems(1)
    proof (rule map_inv_update)
      show "length r = col_width col" using Cons.prems(2) by simp
      show "trim (r ! col_date col) @ ''|'' @ row_ticker col r =
          fst (row_key col r) @ ''|'' @ snd (row_key col r)"
        by (simp add: row_key_def)
      show "row_ticker col r \<in> set required" using Cons.prems(2) False by simp
    qed
    ultimately show ?thesis by simp
  qed
  with Cons.IH Cons.prems(2) show ?case by simp
qed

lemma dedupe_map_inv: "map_inv col required (dedupe_map col required (hist_rows col parsed))"
proof -
  let ?rows = "hist_rows col parsed"
  have len: "\<forall>r \<in> set ?rows. length r = col_width col"
    by (simp add: hist_rows_def)
  show ?thesis
  proof (cases "purged_of col required ?rows = []")
    case True
    then have "{t. t \<noteq> [] \<and> t \<in> row_ticker col ` set ?rows} - set required = {}"
      using set_purged_of [of col required ?rows] by simp
    then have "\<forall>r \<in> set ?rows. row_ticker col r \<noteq> [] \<longrightarrow> row_ticker col r \<in> set required"
      by blast
    with len True show ?thesis
      unfolding dedupe_map_def by (intro dedupe_fold_inv map_inv_empty) simp
  next
    case False
    with len show ?thesis
      unfolding dedupe_map_def by (intro dedupe_fold_inv map_inv_empty) simp
  qed
qed

text \<open>The rows emitted by a run, with the invariant of the object they come from.\<close>

lemma updateHistDatabase_rows:
  assumes run: "updateHistDatabase C w s today required = Inr (s', res, reqs)"
    and norm: "normalized_tickers required" and today: "trim today = today"
  obtains m where "map_inv (hist_col s) required m"
    "tl (hist_csv s') =
       sort_key (\<lambda>r. (r ! col_date (hist_col s), toUpperCase (r ! col_ticker (hist_col s))))
         (map snd m)"
proof -
  from run obtain rs st where
    len: "2 \<le> length (hist_csv s)"
    and loop: "backfill_loop C w (hist_col s) today rs
       (coverage required (dedupe_map (hist_col s) required (hist_rows (hist_col s) (hist_csv s))))
       0 required
       \<lparr>ls_props = fold (\<lambda>t p. p(cursorKey t := None))
                     (purged_of (hist_col s) required (hist_rows (hist_col s) (hist_csv s)))
                     (props s),
        ls_map = dedupe_map (hist_col s) required (hist_rows (hist_col s) (hist_csv s)),
        ls_unfinished = [], ls_requests = []\<rparr> = Inr st"
    and out: "hist_csv s' =
       map (\<lambda>r. normalizeRowWidth r (col_width (hist_col s)))
         (hd (hist_csv s) #
          sort_key (\<lambda>r. (r ! col_date (hist_col s), toUpperCase (r ! col_ticker (hist_col s))))
            (map snd (fold (live_row (hist_col s) today (getBatchPricesScratch w required))
                        required (ls_map st))))"
    by (rule updateHistDatabase_Inr)
  from run len obtain col0 where "buildColumnMap (hd (hist_csv s)) = Inr col0"
    by (cases "buildColumnMap (hd (hist_csv s))") (auto simp: updateHistDatabase_def Let_def)
  then have ok: "col_ok (hist_col s)" by (rule hist_col_ok)
  have nt: "\<forall>t \<in> set required. toUpperCase (trim t) = t"
    using norm by (simp add: normalized_tickers_def)
  have "map_inv (hist_col s) required (ls_map st)"
    using backfill_loop_inv [OF loop _ ok subset_refl nt] dedupe_map_inv by simp
  then have inv: "map_inv (hist_col s) required
      (fold (live_row (hist_col s) today (getBatchPricesScratch w required)) required (ls_map st))"
    (is "map_inv _ _ ?m")
    using ok nt today by (intro live_fold_inv) simp_all
  have "\<forall>r \<in> set (map snd ?m). length r = col_width (hist_col s)"
    using inv by (auto simp: map_inv_def)
  then have "map (\<lambda>r. normalizeRowWidth r (col_width (hist_col s)))
       (sort_key (\<lambda>r. (r ! col_date (hist_col s), toUpperCase (r ! col_ticker (hist_col s))))
          (map snd ?m)) =
     sort_key (\<lambda>r. (r ! col_date (hist_col s), toUpperCase (r ! col_ticker (hist_col s))))
          (map snd ?m)"
    by (intro map_idI) auto
  with out have "tl (hist_csv s') =
       sort_key (\<lambda>r. (r ! col_date (hist_col s), toUpperCase (r ! col_ticker (hist_col s))))
         (map snd ?m)"
    by simp
  with inv show ?thesis by (rule that)
qed

lemma abc_col: "hist_col store_abc = col3"
  by (simp add: hist_col_def store_abc_def hist_abc_def buildColumnMap_eval col3_def)

lemma abc_rows:
  "hist_rows col3 hist_abc =
     [[''2025-01-01'', ''AAA'', ''1.00''], [''2025-01-01'', ''BBB'', ''2.00''],
      [''2025-01-01'', ''CCC'', ''3.00''], [''2025-01-01'', ''aaa '', ''1.50'']]"
  by (simp add: hist_rows_def hist_abc_def normalizeRowWidth_def)

lemma abc_tickers:
  "row_ticker col3 [''2025-01-01'', ''AAA'', ''1.00''] = ''AAA''"
  "row_ticker col3 [''2025-01-01'', ''BBB'', ''2.00''] = ''BBB''"
  "row_ticker col3 [''2025-01-01'', ''CCC'', ''3.00''] = ''CCC''"
  "row_ticker col3 [''2025-01-01'', ''aaa '', ''1.50''] = ''AAA''"
  by (simp_all add: row_ticker_def str_eval)

lemma abc_purged:
  "purged_of col3 [''AAA'', ''CCC'']
     [[''2025-01-01'', ''AAA'', ''1.00''], [''2025-01-01'', ''BBB'', ''2.00''],
      [''2025-01-01'', ''CCC'', ''3.00''], [''2025-01-01'', ''aaa '', ''1.50'']] = [''BBB'']"
  by (simp add: purged_of_def new_Set_def set_add_def abc_tickers)

lemma abc_map:
  "dedupe_map col3 [''AAA'', ''CCC'']
     [[''2025-01-01'', ''AAA'', ''1.00''], [''2025-01-01'', ''BBB'', ''2.00''],
      [''2025-01-01'', ''CCC'', ''3.00''], [''2025-01-01'', ''aaa '', ''1.50'']] =
   [(''2025-01-01|AAA'', [''2025-01-01'', ''aaa '', ''1.50'']),
    (''2025-01-01|CCC'', [''2025-01-01'', ''CCC'', ''3.00''])]"
  by (simp add: dedupe_map_def abc_purged dedupe_row_def abc_tickers Let_def trim_def is_space_def)

lemma abc_coverage:
  "coverage [''AAA'', ''CCC'']
     [(''2025-01-01|AAA'', [''2025-01-01'', ''aaa '', ''1.50'']),
      (''2025-01-01|CCC'', [''2025-01-01'', ''CCC'', ''3.00''])] ''AAA''
     = Some (Some ''2025-01-01'', Some ''2025-01-01'')"
  "coverage [''AAA'', ''CCC'']
     [(''2025-01-01|AAA'', [''2025-01-01'', ''aaa '', ''1.50'']),
      (''2025-01-01|CCC'', [''2025-01-01'', ''CCC'', ''3.00''])] ''CCC''
     = Some (Some ''2025-01-01'', Some ''2025-01-01'')"
  by (simp_all add: coverage_def bounds_step_def upd_min_def upd_max_def)

lemma abc_loop:
  "backfill_loop cfg1 quiet_world col3 ''2025-01-10'' ''2025-01-01''
     (coverage [''AAA'', ''CCC'']
        [(''2025-01-01|AAA'', [''2025-01-01'', ''aaa '', ''1.50'']),
         (''2025-01-01|CCC'', [''2025-01-01'', ''CCC'', ''3.00''])])
     0 [''AAA'', ''CCC''] st = Inr st"
  by (simp add: backfill_ticker_def cfg1_def quiet_world_def abc_coverage needsYear_of_def)

lemma abc_live:
  "fold (live_row col today (getBatchPricesScratch quiet_world [''AAA'', ''CCC''])) [''AAA'', ''CCC''] m = m"
  by (simp add: getBatchPricesScratch_def live_row_def parseFloat_cell_def parseFloat_def
      str_decimal_def isFinite_def jless_def str_eval Let_def quiet_world_def)

lemma abc_sorted:
  "sort_key (\<lambda>r. (r ! col_date col3, toUpperCase (r ! col_ticker col3)))
     [[''2025-01-01'', ''aaa '', ''1.50''], [''2025-01-01'', ''CCC'', ''3.00'']] =
   [[''2025-01-01'', ''aaa '', ''1.50''], [''2025-01-01'', ''CCC'', ''3.00'']]"
  by (simp add: toUpperCase_def upper_char_def)


lemma cursorKey_BBB: "cursorKey ''BBB'' = ''CURSOR_BBB''"
  by (simp add: cursorKey_def)

lemma abc_run:
  "updateHistDatabase cfg1 quiet_world store_abc ''2025-01-10'' [''AAA'', ''CCC''] =
     Inr (store_ac, \<lparr>purgedTickers = [''BBB''], unfinishedTickers = []\<rparr>, [])"
proof -
  have h2: "hd (hist_csv store_abc) = [''date'', ''ticker'', ''price'']"
      "2 \<le> length (hist_csv store_abc)"
    by (simp_all add: store_abc_def hist_abc_def)
  have c: "buildColumnMap (hd (hist_csv store_abc)) =
      Inr \<lparr>col_date = 0, col_ticker = 1, col_price = 2, col_width = 0\<rparr>"
    by (simp add: h2 buildColumnMap_eval)
  have c3: "col3 = \<lparr>col_date = 0, col_ticker = 1, col_price = 2, col_width = 0\<rparr>
      \<lparr>col_width := length (hd (hist_csv store_abc))\<rparr>"
    by (simp add: col3_def h2)
  have rows: "[[''2025-01-01'', ''AAA'', ''1.00''], [''2025-01-01'', ''BBB'', ''2.00''],
      [''2025-01-01'', ''CCC'', ''3.00''], [''2025-01-01'', ''aaa '', ''1.50'']] =
      hist_rows col3 (hist_csv store_abc)"
    by (simp add: store_abc_def abc_rows)
  have fin: "store_abc\<lparr>props := fold (\<lambda>t p. p(cursorKey t := None)) [''BBB''] (props store_abc),
      hist_csv := map (\<lambda>r. normalizeRowWidth r (col_width col3))
       (hd (hist_csv store_abc) #
        sort_key (\<lambda>r. (r ! col_date col3, toUpperCase (r ! col_ticker col3)))
          (map snd (fold (live_row col3 ''2025-01-10''
                (getBatchPricesScratch quiet_world [''AAA'', ''CCC''])) [''AAA'', ''CCC'']
             [(''2025-01-01|AAA'', [''2025-01-01'', ''aaa '', ''1.50'']),
              (''2025-01-01|CCC'', [''2025-01-01'', ''CCC'', ''3.00''])])))\<rparr> = store_ac"
    unfolding abc_live h2 list.map snd_conv abc_sorted
    by (simp add: store_abc_def store_ac_def normalizeRowWidth_def cursorKey_BBB)
  show ?thesis
    unfolding updateHistDatabase_eval [OF h2(2) c c3 rows abc_purged [symmetric]
      abc_map [symmetric] required_start_example abc_loop]
    by (simp only: loop_state.simps fin)
qed

text \<open>
  Claim C5. After a run, every row of the emitted price table belongs to a required
  ticker, and the cursor of every purged ticker (a stored ticker that is not required) is
  deleted.
\<close>

theorem purge_invariant:
  assumes run: "updateHistDatabase C w s today required = Inr (s', res, reqs)"
    and norm: "normalized_tickers required" and today: "trim today = today"
  shows "(\<forall>r \<in> set (tl (hist_csv s')). row_ticker (hist_col s) r \<in> set required) \<and>
         set (purgedTickers res) =
           {t. t \<noteq> [] \<and> t \<in> row_ticker (hist_col s) ` set (hist_rows (hist_col s) (hist_csv s))}
             - set required \<and>
         (\<forall>t \<in> set (purgedTickers res). props s' (cursorKey t) = None)"
proof -
  from updateHistDatabase_rows [OF run norm today] obtain m where
    inv: "map_inv (hist_col s) required m"
    and rows: "tl (hist_csv s') =
       sort_key (\<lambda>r. (r ! col_date (hist_col s), toUpperCase (r ! col_ticker (hist_col s))))
         (map snd m)"
    by blast
  have 1: "\<forall>r \<in> set (tl (hist_csv s')). row_ticker (hist_col s) r \<in> set required"
    using inv unfolding rows by (auto simp: map_inv_def)
  from run obtain rs st where
    loop: "backfill_loop C w (hist_col s) today rs
       (coverage required (dedupe_map (hist_col s) required (hist_rows (hist_col s) (hist_csv s))))
       0 required
       \<lparr>ls_props = fold (\<lambda>t p. p(cursorKey t := None))
                     (purged_of (hist_col s) required (hist_rows (hist_col s) (hist_csv s)))
                     (props s),
        ls_map = dedupe_map (hist_col s) required (hist_rows (hist_col s) (hist_csv s)),
        ls_unfinished = [], ls_requests = []\<rparr> = Inr st"
    and p: "props s' = ls_props st"
    and pur: "purgedTickers res =
        purged_of (hist_col s) required (hist_rows (hist_col s) (hist_csv s))"
    by (rule updateHistDatabase_Inr)
  have 2: "set (purgedTickers res) =
           {t. t \<noteq> [] \<and> t \<in> row_ticker (hist_col s) ` set (hist_rows (hist_col s) (hist_csv s))}
             - set required"
    unfolding pur by (rule set_purged_of)
  have 3: "props s' (cursorKey t) = None" if "t \<in> set (purgedTickers res)" for t
  proof -
    from that have "t \<notin> set required" unfolding pur by (rule purged_not_required)
    from backfill_loop_absent [OF loop this] that show ?thesis
      by (simp add: p pur fold_delete_cursor)
  qed
  from 1 2 3 show ?thesis by blast
qed

theorem purge_invariant_witness:
  "updateHistDatabase cfg1 quiet_world store_abc ''2025-01-10'' [''AAA'', ''CCC''] =
     Inr (store_ac, \<lparr>purgedTickers = [''BBB''], unfinishedTickers = []\<rparr>, []) \<and>
   normalized_tickers [''AAA'', ''CCC''] \<and> trim ''2025-01-10'' = ''2025-01-10'' \<and>
   props store_abc (cursorKey ''BBB'') = Some ''2024-12-20'' \<and>
   props store_ac (cursorKey ''BBB'') = None \<and>
   list_all (\<lambda>r. row_ticker (hist_col store_abc) r \<in> set [''AAA'', ''CCC'']) (tl (hist_csv store_ac))"
proof -
  have n: "normalized_tickers [''AAA'', ''CCC'']"
    by (simp add: normalized_tickers_def str_eval)
  have t: "trim ''2025-01-10'' = ''2025-01-10''"
    by (simp add: trim_def is_space_def)
  have b: "props store_abc (cursorKey ''BBB'') = Some ''2024-12-20''"
    by (simp add: store_abc_def cursorKey_BBB)
  from purge_invariant [OF abc_run n t]
  have "(\<forall>r \<in> set (tl (hist_csv store_ac)).
           row_ticker (hist_col store_abc) r \<in> set [''AAA'', ''CCC'']) \<and>
        props store_ac (cursorKey ''BBB'') = None"
    by simp
  with abc_run n t b show ?thesis by (simp add: list_all_iff)
qed

lemma distinct_map_comp: "distinct (map (f \<circ> g) xs) \<Longrightarrow> distinct (map g xs)"
  by (auto simp: distinct_map dest: inj_on_imageI2)

lemma distinct_map_sort_key: "distinct (map g (sort_key f xs)) = distinct (map g xs)"
  by (simp add: distinct_map)

text \<open>
  Claim C7. After the merge, the emitted price table has at most one row for each pair of
  (trimmed) date and (normalised) ticker, whatever duplicates the loaded table, the
  backfilled chunks and the live quotes contain.
\<close>

theorem dedupe_invariant:
  assumes run: "updateHistDatabase C w s today required = Inr (s', res, reqs)"
    and norm: "normalized_tickers required" and today: "trim today = today"
  shows "distinct (map (row_key (hist_col s)) (tl (hist_csv s')))"
proof -
  from updateHistDatabase_rows [OF run norm today] obtain m where
    inv: "map_inv (hist_col s) required m"
    and rows: "tl (hist_csv s') =
       sort_key (\<lambda>r. (r ! col_date (hist_col s), toUpperCase (r ! col_ticker (hist_col s))))
         (map snd m)"
    by blast
  define h :: "string \<times> string \<Rightarrow> string" where "h = (\<lambda>k. fst k @ ''|'' @ snd k)"
  have eq: "map fst m = map (h \<circ> (row_key (hist_col s) \<circ> snd)) m"
    using inv by (auto simp: map_inv_def h_def)
  have "distinct (map fst m)" using inv by (simp add: map_inv_def)
  then have "distinct (map (h \<circ> (row_key (hist_col s) \<circ> snd)) m)"
    by (simp only: eq)
  then have "distinct (map (row_key (hist_col s) \<circ> snd) m)"
    by (rule distinct_map_comp)
  then have "distinct (map (row_key (hist_col s)) (map snd m))" by (simp only: map_map)
  then show ?thesis unfolding rows by (simp only: distinct_map_sort_key)
qed

theorem dedupe_invariant_witness:
  "updateHistDatabase cfg1 quiet_world store_abc ''2025-01-10'' [''AAA'', ''CCC''] =
     Inr (store_ac, \<lparr>purgedTickers = [''BBB''], unfinishedTickers = []\<rparr>, []) \<and>
   normalized_tickers [''AAA'', ''CCC''] \<and> trim ''2025-01-10'' = ''2025-01-10'' \<and>
   row_key (hist_col store_abc) (hist_csv store_abc ! 1) =
     row_key (hist_col store_abc) (hist_csv store_abc ! 4) \<and>
   distinct (map (row_key (hist_col store_abc)) (tl (hist_csv store_ac)))"
proof -
  have n: "normalized_tickers [''AAA'', ''CCC'']"
    by (simp add: normalized_tickers_def str_eval)
  have t: "trim ''2025-01-10'' = ''2025-01-10''"
    by (simp add: trim_def is_space_def)
  have d: "row_key (hist_col store_abc) (hist_csv store_abc ! 1) =
     row_key (hist_col store_abc) (hist_csv store_abc ! 4)"
    unfolding abc_col by (simp add: row_key_def store_abc_def hist_abc_def abc_tickers)
  from dedupe_invariant [OF abc_run n t] abc_run n t d show ?thesis by simp
qed

section \<open>Dates as strings\<close>

subsection \<open>Decimal digits\<close>

lemma digit_char_code: "of_char (digit_char n) = (48 + n mod 10 :: nat)"
proof -
  have "of_char (''0123456789'' ! k) = (48 + k :: nat)" if "k < 10" for k
  proof -
    from that have "k = 0 \<or> k = 1 \<or> k = 2 \<or> k = 3 \<or> k = 4 \<or> k = 5 \<or> k = 6 \<or> k = 7 \<or>
        k = 8 \<or> k = 9"
      by arith
    then show ?thesis by (elim disjE) simp_all
  qed
  then show ?thesis unfolding digit_char_def by simp
qed

lemma digit_char_0: "digit_char 0 = CHR ''0''"
  by (simp add: digit_char_def)

lemma digit_val_digit_char: "digit_val (digit_char n) = n mod 10"
  by (simp add: digit_val_def digit_char_code)

lemma digit_char_less: "a mod 10 < b mod 10 \<Longrightarrow> digit_char a < digit_char b"
  by (simp add: less_char_def digit_char_code)

lemma show_nat_small: "n < 10 \<Longrightarrow> show_nat n = [digit_char n]"
  by (subst show_nat.simps) simp

lemma show_nat_large: "\<not> n < 10 \<Longrightarrow> show_nat n = show_nat (n div 10) @ [digit_char n]"
  by (subst show_nat.simps) simp

lemma pad_zero_one: "n < 10 \<Longrightarrow> pad_zero (Suc 0) (show_nat n) = [digit_char n]"
  by (simp add: pad_zero_def show_nat_small)

lemma pad_zero_step:
  "pad_zero (Suc (Suc j)) (show_nat n) = pad_zero (Suc j) (show_nat (n div 10)) @ [digit_char n]"
proof (cases "n < 10")
  case True
  then have "n div 10 = 0" by simp
  with True show ?thesis
    by (simp add: pad_zero_def show_nat_small replicate_append_same digit_char_0)
next
  case False
  then show ?thesis by (simp add: pad_zero_def show_nat_large)
qed

lemma pad_zero_length: "n < 10 ^ Suc j \<Longrightarrow> length (pad_zero (Suc j) (show_nat n)) = Suc j"
proof (induction j arbitrary: n)
  case 0
  then show ?case by (simp add: pad_zero_one)
next
  case (Suc j)
  from Suc.prems have "n div 10 < 10 ^ Suc j" by (simp add: less_mult_imp_div_less)
  from Suc.IH [OF this] show ?case by (simp add: pad_zero_step)
qed

lemma pad_zero_value: "n < 10 ^ Suc j \<Longrightarrow> digits_val (pad_zero (Suc j) (show_nat n)) = n"
proof (induction j arbitrary: n)
  case 0
  then show ?case by (simp add: pad_zero_one digits_val_def digit_val_digit_char)
next
  case (Suc j)
  from Suc.prems have "n div 10 < 10 ^ Suc j" by (simp add: less_mult_imp_div_less)
  from Suc.IH [OF this] show ?case
    by (simp add: pad_zero_step digits_val_def digit_val_digit_char)
qed

subsection \<open>The order of strings\<close>

lemma less_append_same: "xs @ us < xs @ vs \<longleftrightarrow> us < (vs :: string)"
  by (induction xs) simp_all

lemma less_append_left:
  "xs < ys \<Longrightarrow> length xs = length ys \<Longrightarrow> xs @ us < ys @ (vs :: string)"
proof (induction xs ys rule: list_induct2')
  case (4 x xs y ys)
  then show ?case by auto
qed simp_all

lemma pad_zero_less:
  "n < m \<Longrightarrow> m < 10 ^ Suc j \<Longrightarrow>
   pad_zero (Suc j) (show_nat n) < pad_zero (Suc j) (show_nat m)"
proof (induction j arbitrary: n m)
  case 0
  then show ?case by (simp add: pad_zero_one digit_char_less)
next
  case (Suc j)
  have m: "m div 10 < 10 ^ Suc j" using Suc.prems by (simp add: less_mult_imp_div_less)
  have le: "n div 10 \<le> m div 10" using Suc.prems(1) by (simp add: div_le_mono)
  show ?case
  proof (cases "n div 10 < m div 10")
    case True
    have l: "length (pad_zero (Suc j) (show_nat (n div 10))) =
        length (pad_zero (Suc j) (show_nat (m div 10)))"
      using pad_zero_length [OF m] pad_zero_length [of "n div 10" j] True m by simp
    from less_append_left [OF Suc.IH [OF True m] l] show ?thesis by (simp add: pad_zero_step)
  next
    case False
    with le have e: "n div 10 = m div 10" by simp
    have "n mod 10 < m mod 10"
      using Suc.prems(1) e div_mult_mod_eq [of n 10] div_mult_mod_eq [of m 10] by arith
    then show ?thesis by (simp add: pad_zero_step e less_append_same digit_char_less)
  qed
qed


lemma pad2:
  assumes "n < 100"
  shows "length (pad_zero 2 (show_nat n)) = 2" "digits_val (pad_zero 2 (show_nat n)) = n"
  using pad_zero_length [of n "Suc 0"] pad_zero_value [of n "Suc 0"] assms
  by (simp_all add: numeral_2_eq_2)

lemma pad4:
  assumes "n < 10000"
  shows "length (pad_zero 4 (show_nat n)) = 4" "digits_val (pad_zero 4 (show_nat n)) = n"
  using pad_zero_length [of n 3] pad_zero_value [of n 3] assms by simp_all

lemma pad2_less: "n < m \<Longrightarrow> m < 100 \<Longrightarrow> pad_zero 2 (show_nat n) < pad_zero 2 (show_nat m)"
  using pad_zero_less [of n m "Suc 0"] by (simp add: numeral_2_eq_2)

lemma pad4_less: "n < m \<Longrightarrow> m < 10000 \<Longrightarrow> pad_zero 4 (show_nat n) < pad_zero 4 (show_nat m)"
  using pad_zero_less [of n m 3] by simp

lemma Number_part_pad: "Number_part (pad_zero w (show_nat n)) = Some (int (digits_val (pad_zero w (show_nat n))))"
  unfolding Number_part_def list_all_iff using pad_zero_digits by auto

subsection \<open>The calendar\<close>

lemma days_in_month_bounds: "28 \<le> days_in_month y m" "days_in_month y m \<le> 31"
  by (simp_all add: days_in_month_def)

lemma valid_next_day: "valid_civil c \<Longrightarrow> valid_civil (next_day c)"
proof -
  obtain y m d where c: "c = (y, m, d)" by (cases c)
  assume "valid_civil c"
  then show ?thesis
    unfolding c using days_in_month_bounds(1) [of y "m + 1"] days_in_month_bounds(1) [of "y + 1" 1]
    by (simp add: valid_civil_def)
qed

lemma valid_prev_day: "valid_civil c \<Longrightarrow> valid_civil (prev_day c)"
proof -
  obtain y m d where c: "c = (y, m, d)" by (cases c)
  have "days_in_month (y - 1) 12 = 31" by (simp add: days_in_month_def)
  moreover assume "valid_civil c"
  ultimately show ?thesis
    unfolding c using days_in_month_bounds(1) [of y "m - 1"]
    by (auto simp: valid_civil_def)
qed

lemma prev_day_less: "valid_civil c \<Longrightarrow> prev_day c < c"
proof -
  obtain y m d where c: "c = (y, m, d)" by (cases c)
  assume "valid_civil c"
  then show ?thesis unfolding c by (simp add: valid_civil_def)
qed

lemma prev_day_year: "fst (prev_day c) \<le> fst c" "fst c - 1 \<le> fst (prev_day c)"
proof -
  obtain y m d where c: "c = (y, m, d)" by (cases c)
  show "fst (prev_day c) \<le> fst c" "fst c - 1 \<le> fst (prev_day c)" unfolding c by simp_all
qed

lemma prev_days:
  assumes "valid_civil c"
  shows "valid_civil ((prev_day ^^ n) c)" and "(prev_day ^^ n) c \<le> c"
    and "fst ((prev_day ^^ n) c) \<le> fst c" and "fst c - int n \<le> fst ((prev_day ^^ n) c)"
proof -
  show v: "valid_civil ((prev_day ^^ n) c)" for n
    using assms by (induction n) (simp_all add: valid_prev_day)
  show "(prev_day ^^ n) c \<le> c"
  proof (induction n)
    case 0
    show ?case by simp
  next
    case (Suc n)
    have "prev_day ((prev_day ^^ n) c) < (prev_day ^^ n) c" using v by (rule prev_day_less)
    with Suc show ?case by simp
  qed
  show "fst ((prev_day ^^ n) c) \<le> fst c"
  proof (induction n)
    case 0
    show ?case by simp
  next
    case (Suc n)
    with prev_day_year(1) [of "(prev_day ^^ n) c"] show ?case by simp
  qed
  show "fst c - int n \<le> fst ((prev_day ^^ n) c)"
  proof (induction n)
    case 0
    show ?case by simp
  next
    case (Suc n)
    with prev_day_year(2) [of "(prev_day ^^ n) c"] show ?case by simp
  qed
qed

lemma next_days_valid: "valid_civil c \<Longrightarrow> valid_civil ((next_day ^^ n) c)"
  by (induction n) (simp_all add: valid_next_day)

lemma shift_days_valid: "valid_civil c \<Longrightarrow> valid_civil (shift_days c k)"
  by (simp add: shift_days_def next_days_valid prev_days(1))

lemma next_days_in_month:
  "1 + k \<le> days_in_month y m \<Longrightarrow> (next_day ^^ k) (y, m, 1) = (y, m, 1 + k)"
  by (induction k) simp_all

lemma mkDate_valid: "valid_civil (mkDate y mi d)"
proof -
  have "valid_civil (y', nat (mi mod 12) + 1, 1)" for y'
    using days_in_month_bounds(1) [of y' "nat (mi mod 12) + 1"]
    by (simp add: valid_civil_def nat_le_iff)
  then show ?thesis unfolding mkDate_def Let_def by (rule shift_days_valid)
qed

lemma mkDate_civil:
  assumes "valid_civil (y, m, d)" and "100 \<le> y"
  shows "mkDate y (int m - 1) (int d) = (y, m, d)"
proof -
  from assms(1) have m: "1 \<le> m" "m \<le> 12" and d: "1 \<le> d" "d \<le> days_in_month y m"
    by (simp_all add: valid_civil_def)
  have 1: "(int m - 1) div 12 = 0" using m by simp
  have 2: "Suc (nat ((int m - 1) mod 12)) = m" using m by simp
  have 3: "nat (int d - 1) = d - Suc 0" by arith
  have 4: "(next_day ^^ (d - 1)) (y, m, 1) = (y, m, d)"
    using next_days_in_month [of "d - 1" y m] d by simp
  have "mkDate y (int m - 1) (int d) = shift_days (y, m, 1) (int d - 1)"
    unfolding mkDate_def Let_def using assms(2) by (simp add: 1 2)
  also have "\<dots> = (next_day ^^ (d - 1)) (y, m, 1)"
    unfolding shift_days_def using d by (simp add: 3)
  also have "\<dots> = (y, m, d)" by (rule 4)
  finally show ?thesis .
qed

lemma ymdToLocalDate_valid: "ymdToLocalDate s = Some c \<Longrightarrow> valid_civil c"
  unfolding ymdToLocalDate_def using mkDate_valid
  by (auto split: list.splits option.splits)


subsection \<open>Printing and reading a date\<close>

lemma split_on_plain: "c \<notin> set a \<Longrightarrow> split_on c a = [a]"
  by (induction a) auto

lemma split_on_sep: "c \<notin> set a \<Longrightarrow> split_on c (a @ c # rest) = a # split_on c rest"
  by (induction a) auto

lemma pad_zero_no_dash: "CHR ''-'' \<notin> set (pad_zero w (show_nat n))"
  using pad_zero_digits [of "CHR ''-''" w n] by (auto simp: is_digit_def)

lemma split_on_formatDate:
  "split_on CHR ''-'' (formatDate (y, m, d)) =
     [pad_zero 4 (show_nat (nat (if 0 < y then y else 1 - y))), pad_zero 2 (show_nat m),
      pad_zero 2 (show_nat d)]"
  by (simp add: split_on_sep pad_zero_no_dash split_on_plain del: split_on.simps)

lemma valid_civil_bounds:
  assumes "valid_civil (y, m, d)"
  shows "m < 100" "d < 100" "1 \<le> m" "1 \<le> d"
  using assms days_in_month_bounds(2) [of y m] by (simp_all add: valid_civil_def)

lemma ymdToLocalDate_formatDate:
  assumes v: "valid_civil c" and lo: "100 \<le> fst c" and hi: "fst c \<le> 9999"
  shows "ymdToLocalDate (formatDate c) = Some c"
proof -
  obtain y m d where c: "c = (y, m, d)" by (cases c)
  from lo hi have y: "nat y < 10000" "0 < y" "100 \<le> y" unfolding c by simp_all
  note b = valid_civil_bounds [OF v [unfolded c]]
  have "ymdToLocalDate (formatDate (y, m, d)) = Some (mkDate y (int m - 1) (int d))"
    unfolding ymdToLocalDate_def split_on_formatDate
    using y by (simp add: Number_part_pad pad2 [OF b(1)] pad2 [OF b(2)] pad4 [OF y(1)])
  also have "\<dots> = Some (y, m, d)" using mkDate_civil [OF v [unfolded c] y(3)] by simp
  finally show ?thesis unfolding c .
qed

lemma formatDate_is_ymd:
  assumes v: "valid_civil c" and lo: "1 \<le> fst c" and hi: "fst c \<le> 9999"
  shows "is_ymd (formatDate c)"
proof -
  obtain y m d where c: "c = (y, m, d)" by (cases c)
  from lo hi have y: "nat y < 10000" "0 < y" unfolding c by simp_all
  note b = valid_civil_bounds [OF v [unfolded c]]
  define Y where "Y = pad_zero 4 (show_nat (nat y))"
  define M where "M = pad_zero 2 (show_nat m)"
  define D where "D = pad_zero 2 (show_nat d)"
  have l: "length Y = 4" "length M = 2" "length D = 2"
    unfolding Y_def M_def D_def by (simp_all add: pad4 [OF y(1)] pad2 [OF b(1)] pad2 [OF b(2)])
  have g: "list_all is_digit Y" "list_all is_digit M" "list_all is_digit D"
    unfolding Y_def M_def D_def list_all_iff using pad_zero_digits by blast+
  have f: "formatDate c = Y @ CHR ''-'' # M @ CHR ''-'' # D"
    unfolding c Y_def M_def D_def using y by simp
  show ?thesis unfolding f is_ymd_def using l g by (simp add: nth_append)
qed

lemma formatDate_less:
  assumes va: "valid_civil a" and vb: "valid_civil b"
    and lo: "1 \<le> fst a" and hi: "fst b \<le> 9999" and ab: "a < b"
  shows "formatDate a < formatDate b"
proof -
  obtain y m d where a: "a = (y, m, d)" by (cases a)
  obtain y' m' d' where b: "b = (y', m', d')" by (cases b)
  from ab have yy: "y \<le> y'" unfolding a b by auto
  with lo hi have y: "0 < y" "0 < y'" "nat y < 10000" "nat y' < 10000" unfolding a b by simp_all
  note ba = valid_civil_bounds [OF va [unfolded a]]
  note bb = valid_civil_bounds [OF vb [unfolded b]]
  have fa: "formatDate a = pad_zero 4 (show_nat (nat y)) @ CHR ''-'' # pad_zero 2 (show_nat m) @
      CHR ''-'' # pad_zero 2 (show_nat d)"
    unfolding a using y by simp
  have fb: "formatDate b = pad_zero 4 (show_nat (nat y')) @ CHR ''-'' # pad_zero 2 (show_nat m') @
      CHR ''-'' # pad_zero 2 (show_nat d')"
    unfolding b using y by simp
  from ab have "y < y' \<or> y = y' \<and> m < m' \<or> y = y' \<and> m = m' \<and> d < d'"
    unfolding a b by (simp add: less_le) arith
  then consider "y < y'" | "y = y'" "m < m'" | "y = y'" "m = m'" "d < d'"
    by blast
  then show ?thesis
  proof cases
    case 1
    then have "nat y < nat y'" using y by simp
    from pad4_less [OF this y(4)] show ?thesis
      unfolding fa fb by (rule less_append_left) (simp add: pad4 [OF y(3)] pad4 [OF y(4)])
  next
    case 2
    have "pad_zero 2 (show_nat m) @ CHR ''-'' # pad_zero 2 (show_nat d) <
        pad_zero 2 (show_nat m') @ CHR ''-'' # pad_zero 2 (show_nat d')"
      using pad2_less [OF 2(2) bb(1)]
      by (rule less_append_left) (simp add: pad2 [OF ba(1)] pad2 [OF bb(1)])
    then show ?thesis unfolding fa fb 2(1) by (simp add: less_append_same)
  next
    case 3
    from pad2_less [OF 3(3) bb(2)] show ?thesis
      unfolding fa fb 3(1) 3(2) by (simp add: less_append_same)
  qed
qed

lemma formatDate_le:
  assumes "valid_civil a" and "valid_civil b" and "1 \<le> fst a" and "fst b \<le> 9999" and "a \<le> b"
  shows "formatDate a \<le> formatDate b"
proof (cases "a = b")
  case True
  then show ?thesis by simp
next
  case False
  with assms(5) have "a < b" by simp
  from formatDate_less [OF assms(1-4) this] show ?thesis by simp
qed


subsection \<open>Calendar date strings\<close>

lemma calendar_dateE:
  assumes "calendar_date s"
  obtains c where "ymdToLocalDate s = Some c" "formatDate c = s" "valid_civil c"
    "100 \<le> fst c" "fst c \<le> 9999"
proof -
  from assms obtain c where c: "ymdToLocalDate s = Some c" "formatDate c = s"
    "100 \<le> fst c" "fst c \<le> 9999"
    by (auto simp: calendar_date_def split: option.splits)
  from c(1,2) ymdToLocalDate_valid [OF c(1)] c(3,4) show ?thesis by (rule that)
qed

lemma calendar_date_formatDate:
  "valid_civil c \<Longrightarrow> 100 \<le> fst c \<Longrightarrow> fst c \<le> 9999 \<Longrightarrow> calendar_date (formatDate c)"
  by (simp add: calendar_date_def ymdToLocalDate_formatDate)

lemma calendar_date_is_ymd: "calendar_date s \<Longrightarrow> is_ymd s"
  by (erule calendar_dateE) (use formatDate_is_ymd in force)

lemma year_of_formatDate:
  assumes "valid_civil c" and "1 \<le> fst c" and "fst c \<le> 9999"
  shows "year_of (formatDate c) = fst c"
proof -
  obtain y m d where c: "c = (y, m, d)" by (cases c)
  from assms(2,3) have y: "nat y < 10000" "0 < y" unfolding c by simp_all
  show ?thesis unfolding c year_of_def using y by (simp add: pad4 [OF y(1)])
qed

lemma shift_days_back: "k \<le> 0 \<Longrightarrow> shift_days c k = (prev_day ^^ nat (- k)) c"
  by (cases "k = 0") (simp_all add: shift_days_def)

lemma prev_days_less:
  assumes "valid_civil c" and "0 < n"
  shows "(prev_day ^^ n) c < c"
proof -
  from assms(2) obtain k where n: "n = Suc k" by (cases n) auto
  have "prev_day ((prev_day ^^ k) c) < (prev_day ^^ k) c"
    using prev_days(1) [OF assms(1)] by (rule prev_day_less)
  also have "\<dots> \<le> c" using assms(1) by (rule prev_days(2))
  finally show ?thesis unfolding n by simp
qed

text \<open>Going back \<open>n\<close> days from a calendar date string.\<close>

lemma addDaysYMD_back:
  assumes s: "calendar_date s" and n: "0 \<le> n" and r: "addDaysYMD s (- n) = Some r"
  obtains v where "r = formatDate v" "valid_civil v" "fst v \<le> 9999" "year_of s - n \<le> fst v"
    "1 \<le> fst v \<Longrightarrow> r \<le> s" "1 \<le> fst v \<Longrightarrow> 0 < n \<Longrightarrow> r < s"
proof -
  from s obtain c where c: "ymdToLocalDate s = Some c" "formatDate c = s" "valid_civil c"
    "100 \<le> fst c" "fst c \<le> 9999"
    by (rule calendar_dateE)
  define v where "v = (prev_day ^^ nat n) c"
  have y: "year_of s = fst c" using year_of_formatDate [OF c(3)] c(2,4,5) by simp
  have rv: "r = formatDate v"
    using r n unfolding addDaysYMD_def c(1) v_def by (simp add: shift_days_back)
  have vv: "valid_civil v" unfolding v_def using c(3) by (rule prev_days(1))
  have hi: "fst v \<le> 9999" using prev_days(3) [OF c(3), of "nat n"] c(5) unfolding v_def by simp
  have lo: "year_of s - n \<le> fst v"
    using prev_days(4) [OF c(3), of "nat n"] n unfolding v_def y by simp
  have le: "r \<le> s" if "1 \<le> fst v"
    using formatDate_le [OF vv c(3) that c(5)] prev_days(2) [OF c(3), of "nat n"]
    unfolding rv v_def c(2) by simp
  have less: "r < s" if "1 \<le> fst v" "0 < n"
    using formatDate_less [OF vv c(3) that(1) c(5)] prev_days_less [OF c(3), of "nat n"] that(2)
    unfolding rv v_def c(2) by simp
  from rv vv hi lo le less show ?thesis by (rule that)
qed

lemma calendar_date_above:
  assumes lo: "calendar_date lo" and v: "valid_civil p" "1 \<le> fst p" "fst p \<le> 9999"
    and le: "lo \<le> formatDate p"
  shows "calendar_date (formatDate p)"
proof -
  from lo obtain c where c: "ymdToLocalDate lo = Some c" "formatDate c = lo" "valid_civil c"
    "100 \<le> fst c" "fst c \<le> 9999"
    by (rule calendar_dateE)
  have "100 \<le> fst p"
  proof (rule ccontr)
    assume "\<not> 100 \<le> fst p"
    with c(4) have "fst p < fst c" by simp
    then have "p < c" by (cases p, cases c) simp
    from formatDate_less [OF v(1) c(3) v(2) c(5) this] le show False unfolding c(2) by simp
  qed
  with v show ?thesis by (simp add: calendar_date_formatDate)
qed


section \<open>The cursor moves back\<close>

text \<open>What a run has done for a required ticker for which it issued a request.\<close>

lemma updateHistDatabase_requested:
  assumes run: "updateHistDatabase C w s today required = Inr (s', res, reqs)"
    and dist: "distinct required" and j: "j < length required"
    and rs: "addDaysYMD today (- MIN_BACKFILL_DAYS C) = Some rs"
    and req: "filter (\<lambda>q. fst q = required ! j) reqs \<noteq> []"
  obtains ce cs ne where
    "spec_chunkEnd (props s (cursorKey (required ! j)))
       (min_coverage s required (required ! j)) today = Some ce"
    "rs \<le> ce" "spec_chunkStart rs (CHUNK_DAYS C) ce = Some cs"
    "addDaysYMD cs (- 1) = Some ne"
    "filter (\<lambda>q. fst q = required ! j) reqs = [(required ! j, cs, ce)]"
    "props s' (cursorKey (required ! j)) = (if rs \<le> ne then Some ne else None)"
proof -
  from updateHistDatabase_ticker [OF run dist j] obtain rs' st1 st2 where
    rs': "addDaysYMD today (- MIN_BACKFILL_DAYS C) = Some rs'"
    and step: "backfill_ticker C w (hist_col s) today rs'
       (coverage required (dedupe_map (hist_col s) required (hist_rows (hist_col s) (hist_csv s))))
       j (required ! j) st1 = Inr st2"
    and p1: "ls_props st1 (cursorKey (required ! j)) = props s (cursorKey (required ! j))"
    and q1: "filter (\<lambda>q. fst q = required ! j) (ls_requests st1) = []"
    and p2: "props s' (cursorKey (required ! j)) = ls_props st2 (cursorKey (required ! j))"
    and q2: "filter (\<lambda>q. fst q = required ! j) reqs =
             filter (\<lambda>q. fst q = required ! j) (ls_requests st2)"
    by blast
  from rs rs' have [simp]: "rs' = rs" by simp
  from step show ?thesis
  proof (cases rule: backfill_ticker_cases)
    case over_budget
    with q1 q2 req show ?thesis by simp
  next
    case covered
    with q1 q2 req show ?thesis by simp
  next
    case (complete ce')
    with q1 q2 req show ?thesis by simp
  next
    case (fetched ce cs ne)
    from fetched(3) p1
    have c: "spec_chunkEnd (props s (cursorKey (required ! j)))
        (min_coverage s required (required ! j)) today = Some ce"
      by (simp add: min_coverage_bounds)
    from fetched(4) have g: "rs \<le> ce" by simp
    from fetched(7) q1 q2
    have q: "filter (\<lambda>q. fst q = required ! j) reqs = [(required ! j, cs, ce)]" by simp
    from fetched(7) p2
    have p: "props s' (cursorKey (required ! j)) = (if rs \<le> ne then Some ne else None)" by simp
    from c g fetched(5,6) q p show ?thesis using that by simp
  qed
qed

text \<open>
  Claim C6. Take one invocation that processes a backfill chunk for a required ticker (it issues a
  request for it), with a chunk size of at least one day, a required start that is a calendar
  date, and a persisted cursor that is a calendar date (not so early that a chunk could reach
  back before the year 100). If a cursor is persisted for the ticker after the invocation,
  it is again a calendar date and it is strictly earlier than the cursor before; otherwise
  the cursor has been deleted. Hence over successive invocations the cursor strictly
  decreases until it is deleted.
\<close>

theorem cursor_strictly_decreases:
  assumes run: "updateHistDatabase C w s today required = Inr (s', res, reqs)"
    and dist: "distinct required" and j: "j < length required"
    and chunk: "1 \<le> CHUNK_DAYS C"
    and rs: "addDaysYMD today (- MIN_BACKFILL_DAYS C) = Some rs" and rsd: "calendar_date rs"
    and before: "props s (cursorKey (required ! j)) = Some c" and cd: "calendar_date c"
    and range: "CHUNK_DAYS C + 99 \<le> year_of c"
    and req: "filter (\<lambda>q. fst q = required ! j) reqs \<noteq> []"
  shows "case props s' (cursorKey (required ! j)) of
           None \<Rightarrow> True
         | Some c' \<Rightarrow> c' < c \<and> calendar_date c'"
proof -
  from updateHistDatabase_requested [OF run dist j rs req] obtain ce cs ne where
    ce: "spec_chunkEnd (props s (cursorKey (required ! j)))
       (min_coverage s required (required ! j)) today = Some ce"
    and ge: "rs \<le> ce" and cs: "spec_chunkStart rs (CHUNK_DAYS C) ce = Some cs"
    and ne: "addDaysYMD cs (- 1) = Some ne"
    and p: "props s' (cursorKey (required ! j)) = (if rs \<le> ne then Some ne else None)"
    by blast
  from ce before calendar_date_is_ymd [OF cd] have [simp]: "ce = c"
    by (simp add: spec_chunkEnd_def)
  from cs obtain ts where ts: "addDaysYMD c (- (CHUNK_DAYS C - 1)) = Some ts"
    and cs': "cs = max rs ts"
    by (auto simp: spec_chunkStart_def)
  from chunk have k: "0 \<le> CHUNK_DAYS C - 1" by simp
  from addDaysYMD_back [OF cd k ts] obtain v where
    v: "ts = formatDate v" "valid_civil v" "fst v \<le> 9999" "year_of c - (CHUNK_DAYS C - 1) \<le> fst v"
    and le: "1 \<le> fst v \<Longrightarrow> ts \<le> c"
    by blast
  from v(4) range have lo: "100 \<le> fst v" by simp
  then have tsc: "ts \<le> c" using le by simp
  have tsd: "calendar_date ts" unfolding v(1) using v(2) lo v(3) by (rule calendar_date_formatDate)
  have csd: "calendar_date cs" unfolding cs' using rsd tsd by (simp add: max_def)
  have csc: "cs \<le> c" unfolding cs' using ge tsc by simp
  from calendar_dateE [OF csd] obtain vc where
    vc: "formatDate vc = cs" "valid_civil vc" "100 \<le> fst vc" "fst vc \<le> 9999"
    by blast
  have ycs: "100 \<le> year_of cs" using year_of_formatDate [OF vc(2)] vc by simp
  from addDaysYMD_back [OF csd _ ne] obtain u where
    u: "ne = formatDate u" "valid_civil u" "fst u \<le> 9999" "year_of cs - 1 \<le> fst u"
    and less: "1 \<le> fst u \<Longrightarrow> (0::int) < 1 \<Longrightarrow> ne < cs"
    by (metis zero_le_one)
  from u(4) ycs have u1: "1 \<le> fst u" by simp
  then have "ne < cs" using less by simp
  with csc have d: "ne < c" by simp
  show ?thesis
  proof (cases "rs \<le> ne")
    case True
    from calendar_date_above [OF rsd u(2) u1 u(3)] True have "calendar_date ne"
      unfolding u(1) by simp
    with d p True show ?thesis by simp
  next
    case False
    with p show ?thesis by simp
  qed
qed


lemma quiet_loop_3:
  "backfill_loop cfg1 quiet_world col3 ''2025-01-10'' ''2025-01-01''
       (coverage [''QQQ'', ''VTI''] [(''2025-01-01|QQQ'', [''2025-01-01'', ''QQQ'', ''400.00''])])
       0 [''QQQ'', ''VTI'']
       \<lparr>ls_props = [''CURSOR_VTI'' \<mapsto> ''2025-01-09''],
        ls_map = [(''2025-01-01|QQQ'', [''2025-01-01'', ''QQQ'', ''400.00''])],
        ls_unfinished = [], ls_requests = []\<rparr> =
   Inr \<lparr>ls_props = [''CURSOR_VTI'' \<mapsto> ''2025-01-04''],
        ls_map = [(''2025-01-01|QQQ'', [''2025-01-01'', ''QQQ'', ''400.00''])],
        ls_unfinished = [], ls_requests = [(''VTI'', ''2025-01-05'', ''2025-01-09'')]\<rparr>"
  by (simp add: backfill_ticker_def cfg1_def quiet_world_def hist1_coverage needsYear_of_def
      chunkEnd_of_def chunkEnd_from_coverage_def addDays_eval ingestBackfillChunk_def
      cursorKey_VTI is_ymd_def is_digit_def Let_def)

lemma quiet_run_3:
  "updateHistDatabase cfg1 quiet_world store1_cursor ''2025-01-10'' [''QQQ'', ''VTI''] =
     Inr (store1_next, \<lparr>purgedTickers = [], unfinishedTickers = []\<rparr>,
          [(''VTI'', ''2025-01-05'', ''2025-01-09'')])"
proof -
  have "store1_cursor\<lparr>props := [''CURSOR_VTI'' \<mapsto> ''2025-01-04'']\<rparr> = store1_next"
    by (simp add: store1_cursor_def store1_next_def)
  with hist1_run [of store1_cursor quiet_world "''2025-01-10''" cfg1 "''2025-01-01''",
      OF _ _ required_start_example]
    quiet_loop_3
  show ?thesis by (simp add: store1_cursor_def quiet_world_def)
qed

lemma calendar_date_examples:
  "calendar_date ''2025-01-01''" "calendar_date ''2025-01-09''"
  by (simp_all add: calendar_date_def date_eval)

lemma year_of_example: "year_of ''2025-01-09'' = 2025"
  by (simp add: year_of_def digits_val_def digit_val_def)

theorem cursor_strictly_decreases_witness:
  "updateHistDatabase cfg1 quiet_world store1_cursor ''2025-01-10'' [''QQQ'', ''VTI''] =
     Inr (store1_next, \<lparr>purgedTickers = [], unfinishedTickers = []\<rparr>,
          [(''VTI'', ''2025-01-05'', ''2025-01-09'')]) \<and>
   1 \<le> CHUNK_DAYS cfg1 \<and>
   addDaysYMD ''2025-01-10'' (- MIN_BACKFILL_DAYS cfg1) = Some ''2025-01-01'' \<and>
   calendar_date ''2025-01-01'' \<and>
   props store1_cursor (cursorKey ''VTI'') = Some ''2025-01-09'' \<and>
   calendar_date ''2025-01-09'' \<and>
   CHUNK_DAYS cfg1 + 99 \<le> year_of ''2025-01-09'' \<and>
   props store1_next (cursorKey ''VTI'') = Some ''2025-01-04'' \<and>
   ''2025-01-04'' < ''2025-01-09'' \<and> calendar_date ''2025-01-04''"
proof -
  have k: "1 \<le> CHUNK_DAYS cfg1" "CHUNK_DAYS cfg1 + 99 \<le> year_of ''2025-01-09''"
    by (simp_all add: cfg1_def year_of_example)
  have b: "props store1_cursor (cursorKey ([''QQQ'', ''VTI''] ! 1)) = Some ''2025-01-09''"
    by (simp add: store1_cursor_def cursorKey_VTI)
  have a: "props store1_next (cursorKey ''VTI'') = Some ''2025-01-04''"
    by (simp add: store1_next_def cursorKey_VTI)
  have r: "filter (\<lambda>q. fst q = [''QQQ'', ''VTI''] ! 1) [(''VTI'', ''2025-01-05'', ''2025-01-09'')] \<noteq> []"
    by simp
  have d: "distinct [''QQQ'', ''VTI'']" "1 < length [''QQQ'', ''VTI'']" by simp_all
  from cursor_strictly_decreases [OF quiet_run_3 d k(1) required_start_example
      calendar_date_examples(1) b calendar_date_examples(2) k(2) r]
  have "''2025-01-04'' < ''2025-01-09'' \<and> calendar_date ''2025-01-04''"
    by (simp add: a)
  with quiet_run_3 k required_start_example calendar_date_examples b a show ?thesis by simp
qed

section \<open>Alpha against a baseline\<close>






























text \<open>
  Rounding can decide the sign: for a ticker going from 1 to 1.2 and a baseline going from
  9 to 10.8 both returns are 20 percent, but the alpha computed is negative and is reported
  in red as -0.0%.
\<close>

lemma sign_op_1: "round_double (6 / 5) = Fin (5404319552844595 / 4503599627370496)"
  using round_double_normal [of "0" "6 / 5" 5404319552844595] by (simp add: round_even_def)

lemma sign_op_2: "round_double (54 / 5) = Fin (3039929748475085 / 281474976710656)"
  using round_double_normal [of "3" "54 / 5" 6079859496950170] by (simp add: round_even_def)

lemma sign_op_3: "jdiv (Fin (5404319552844595 / 4503599627370496)) (Fin 1) = Fin (5404319552844595 / 4503599627370496)"
  using round_double_normal [of "0" "(5404319552844595 / 4503599627370496) / 1" 5404319552844595] by (simp add: jdiv_Fin round_even_def)

lemma sign_op_4: "jsub (Fin (5404319552844595 / 4503599627370496)) (Fin 1) = Fin (900719925474099 / 4503599627370496)"
  using round_double_normal [of "-3" "5404319552844595 / 4503599627370496 - 1" 7205759403792792] by (simp add: jsub_Fin round_even_def)

lemma sign_op_5: "jdiv (Fin (3039929748475085 / 281474976710656)) (Fin 9) = Fin (1351079888211149 / 1125899906842624)"
  using round_double_normal [of "0" "(3039929748475085 / 281474976710656) / 9" 5404319552844596] by (simp add: jdiv_Fin round_even_def)

lemma sign_op_6: "jsub (Fin (1351079888211149 / 1125899906842624)) (Fin 1) = Fin (225179981368525 / 1125899906842624)"
  using round_double_normal [of "-3" "1351079888211149 / 1125899906842624 - 1" 7205759403792800] by (simp add: jsub_Fin round_even_def)

lemma sign_op_7: "jsub (Fin (900719925474099 / 4503599627370496)) (Fin (225179981368525 / 1125899906842624)) = Fin (- (1 / 4503599627370496))"
  using round_double_normal [of "-52" "900719925474099 / 4503599627370496 - (225179981368525 / 1125899906842624)" 4503599627370496] by (simp add: jsub_Fin round_even_def)

lemma sign_op_8: "jmul (Fin (- (1 / 4503599627370496))) (Fin 100) = Fin (- (25 / 1125899906842624))"
  using round_double_normal [of "-46" "(- (1 / 4503599627370496)) * 100" 7036874417766400] by (simp add: jmul_Fin round_even_def)

lemmas sign_ops = sign_op_1 sign_op_2 sign_op_3 sign_op_4 sign_op_5 sign_op_6 sign_op_7 sign_op_8

lemma sign_parse:
  "parseFloat ''1'' = Fin 1" "parseFloat ''9'' = Fin 9"
  "parseFloat ''1.2'' = Fin (5404319552844595 / 4503599627370496)" "parseFloat ''10.8'' = Fin (3039929748475085 / 281474976710656)"
  by (simp_all add: parseFloat_def str_decimal_def exponent_of_def pow10_def is_space_def
      is_digit_def digits_val_def digit_val_def sign_ops)

lemma alpha_str_sign_example:
  "alpha_str (jsub (jsub (jdiv (parseFloat ''1.2'') (parseFloat ''1'')) (Fin 1))
                   (jsub (jdiv (parseFloat ''10.8'') (parseFloat ''9'')) (Fin 1))) = RED @ '' -0.0%''"
proof -
  have n: "nat \<lfloor>\<bar>- (25 / 1125899906842624) :: real\<bar> * 10 ^ 1 + 1 / 2\<rfloor> = 0" by simp
  have z: "pad_zero (1 + 1) (show_nat 0) = ''00''"
    by (simp add: show_nat_0 pad_zero_def numeral_2_eq_2)
  have t: "toFixed (Fin (- (25 / 1125899906842624))) 1 = ''-0.0''"
    unfolding toFixed_def jsnum.case toFixed_real_def Let_def n z by simp
  show ?thesis
    unfolding sign_parse alpha_str_def using t by (simp add: jle_def jless_def jeq_def sign_ops)
qed




section \<open>Correlation of a series without variance\<close>

text \<open>
  The operations that \<^verbatim>\<open>calculateAlphaAndCorrVsBenchmark_\<close> and \<^verbatim>\<open>pearson_\<close> perform on the
  prices of \<open>corr_rows\<close>, each rounded to a double.
\<close>

lemma corr_op_1: "jdiv (Fin 1800000) (Fin 1000000) = Fin (8106479329266893 / 4503599627370496)"
  using round_double_normal [of "0" "1800000 / 1000000" 8106479329266893] by (simp add: jdiv_Fin round_even_def)

lemma corr_op_2: "jsub (Fin (8106479329266893 / 4503599627370496)) (Fin 1) = Fin (3602879701896397 / 4503599627370496)"
  using round_double_normal [of "-1" "8106479329266893 / 4503599627370496 - 1" 7205759403792794] by (simp add: jsub_Fin round_even_def)

lemma corr_op_3: "jdiv (Fin 55) (Fin 50) = Fin (2476979795053773 / 2251799813685248)"
  using round_double_normal [of "0" "55 / 50" 4953959590107546] by (simp add: jdiv_Fin round_even_def)

lemma corr_op_4: "jsub (Fin (2476979795053773 / 2251799813685248)) (Fin 1) = Fin (225179981368525 / 2251799813685248)"
  using round_double_normal [of "-4" "2476979795053773 / 2251799813685248 - 1" 7205759403792800] by (simp add: jsub_Fin round_even_def)

lemma corr_op_5: "jdiv (Fin 3240000) (Fin 1800000) = Fin (8106479329266893 / 4503599627370496)"
  using round_double_normal [of "0" "3240000 / 1800000" 8106479329266893] by (simp add: jdiv_Fin round_even_def)

lemma corr_op_6: "jdiv (Fin 55) (Fin 55) = Fin 1"
  using round_double_normal [of "0" "55 / 55" 4503599627370496] by (simp add: jdiv_Fin round_even_def)

lemma corr_op_7: "jsub (Fin 1) (Fin 1) = Fin 0"
  by (simp add: jsub_Fin)

lemma corr_op_8: "jdiv (Fin 5832000) (Fin 3240000) = Fin (8106479329266893 / 4503599627370496)"
  using round_double_normal [of "0" "5832000 / 3240000" 8106479329266893] by (simp add: jdiv_Fin round_even_def)

lemma corr_op_9: "jdiv (Fin 60) (Fin 55) = Fin (1228254443828317 / 1125899906842624)"
  using round_double_normal [of "0" "60 / 55" 4913017775313268] by (simp add: jdiv_Fin round_even_def)

lemma corr_op_10: "jsub (Fin (1228254443828317 / 1125899906842624)) (Fin 1) = Fin (102354536985693 / 1125899906842624)"
  using round_double_normal [of "-4" "1228254443828317 / 1125899906842624 - 1" 6550690367084352] by (simp add: jsub_Fin round_even_def)

lemma corr_op_11: "jdiv (Fin 10497600) (Fin 5832000) = Fin (8106479329266893 / 4503599627370496)"
  using round_double_normal [of "0" "10497600 / 5832000" 8106479329266893] by (simp add: jdiv_Fin round_even_def)

lemma corr_op_12: "jdiv (Fin 58) (Fin 60) = Fin (8706959279582959 / 9007199254740992)"
  using round_double_normal [of "-1" "58 / 60" 8706959279582959] by (simp add: jdiv_Fin round_even_def)

lemma corr_op_13: "jsub (Fin (8706959279582959 / 9007199254740992)) (Fin 1) = Fin (- (300239975158033 / 9007199254740992))"
  using round_double_normal [of "-5" "8706959279582959 / 9007199254740992 - 1" 4803839602528528] by (simp add: jsub_Fin round_even_def)

lemma corr_op_14: "jdiv (Fin 18895680) (Fin 10497600) = Fin (8106479329266893 / 4503599627370496)"
  using round_double_normal [of "0" "18895680 / 10497600" 8106479329266893] by (simp add: jdiv_Fin round_even_def)

lemma corr_op_15: "jdiv (Fin 61) (Fin 58) = Fin (4736544435682763 / 4503599627370496)"
  using round_double_normal [of "0" "61 / 58" 4736544435682763] by (simp add: jdiv_Fin round_even_def)

lemma corr_op_16: "jsub (Fin (4736544435682763 / 4503599627370496)) (Fin 1) = Fin (232944808312267 / 4503599627370496)"
  using round_double_normal [of "-5" "4736544435682763 / 4503599627370496 - 1" 7454233865992544] by (simp add: jsub_Fin round_even_def)

lemma corr_op_17: "jdiv (Fin 34012224) (Fin 18895680) = Fin (8106479329266893 / 4503599627370496)"
  using round_double_normal [of "0" "34012224 / 18895680" 8106479329266893] by (simp add: jdiv_Fin round_even_def)

lemma corr_op_18: "jdiv (Fin 63) (Fin 61) = Fin (2325629315773289 / 2251799813685248)"
  using round_double_normal [of "0" "63 / 61" 4651258631546578] by (simp add: jdiv_Fin round_even_def)

lemma corr_op_19: "jsub (Fin (2325629315773289 / 2251799813685248)) (Fin 1) = Fin (73829502088041 / 2251799813685248)"
  using round_double_normal [of "-5" "2325629315773289 / 2251799813685248 - 1" 4725088133634624] by (simp add: jsub_Fin round_even_def)

lemma corr_op_20: "jadd (Fin 0) (Fin (3602879701896397 / 4503599627370496)) = Fin (3602879701896397 / 4503599627370496)"
  using round_double_normal [of "-1" "0 + (3602879701896397 / 4503599627370496)" 7205759403792794] by (simp add: jadd_Fin round_even_def)

lemma corr_op_21: "jadd (Fin 0) (Fin (225179981368525 / 2251799813685248)) = Fin (225179981368525 / 2251799813685248)"
  using round_double_normal [of "-4" "0 + (225179981368525 / 2251799813685248)" 7205759403792800] by (simp add: jadd_Fin round_even_def)

lemma corr_op_22: "jmul (Fin (3602879701896397 / 4503599627370496)) (Fin (225179981368525 / 2251799813685248)) = Fin (45035996273705 / 562949953421312)"
  using round_double_normal [of "-4" "(3602879701896397 / 4503599627370496) * (225179981368525 / 2251799813685248)" 5764607523034240] by (simp add: jmul_Fin round_even_def)

lemma corr_op_23: "jadd (Fin 0) (Fin (45035996273705 / 562949953421312)) = Fin (45035996273705 / 562949953421312)"
  using round_double_normal [of "-4" "0 + (45035996273705 / 562949953421312)" 5764607523034240] by (simp add: jadd_Fin round_even_def)

lemma corr_op_24: "jmul (Fin (3602879701896397 / 4503599627370496)) (Fin (3602879701896397 / 4503599627370496)) = Fin (1441151880758559 / 2251799813685248)"
  using round_double_normal [of "-1" "(3602879701896397 / 4503599627370496) * (3602879701896397 / 4503599627370496)" 5764607523034236] by (simp add: jmul_Fin round_even_def)

lemma corr_op_25: "jadd (Fin 0) (Fin (1441151880758559 / 2251799813685248)) = Fin (1441151880758559 / 2251799813685248)"
  using round_double_normal [of "-1" "0 + (1441151880758559 / 2251799813685248)" 5764607523034236] by (simp add: jadd_Fin round_even_def)

lemma corr_op_26: "jmul (Fin (225179981368525 / 2251799813685248)) (Fin (225179981368525 / 2251799813685248)) = Fin (5764607523034245 / 576460752303423488)"
  using round_double_normal [of "-7" "(225179981368525 / 2251799813685248) * (225179981368525 / 2251799813685248)" 5764607523034245] by (simp add: jmul_Fin round_even_def)

lemma corr_op_27: "jadd (Fin 0) (Fin (5764607523034245 / 576460752303423488)) = Fin (5764607523034245 / 576460752303423488)"
  using round_double_normal [of "-7" "0 + (5764607523034245 / 576460752303423488)" 5764607523034245] by (simp add: jadd_Fin round_even_def)

lemma corr_op_28: "jadd (Fin (3602879701896397 / 4503599627370496)) (Fin (3602879701896397 / 4503599627370496)) = Fin (3602879701896397 / 2251799813685248)"
  using round_double_normal [of "0" "3602879701896397 / 4503599627370496 + (3602879701896397 / 4503599627370496)" 7205759403792794] by (simp add: jadd_Fin round_even_def)

lemma corr_op_29: "jadd (Fin (225179981368525 / 2251799813685248)) (Fin 0) = Fin (225179981368525 / 2251799813685248)"
  using round_double_normal [of "-4" "225179981368525 / 2251799813685248 + 0" 7205759403792800] by (simp add: jadd_Fin round_even_def)

lemma corr_op_30: "jmul (Fin (3602879701896397 / 4503599627370496)) (Fin 0) = Fin 0"
  by (simp add: jmul_Fin signed_zero_def)

lemma corr_op_31: "jadd (Fin (45035996273705 / 562949953421312)) (Fin 0) = Fin (45035996273705 / 562949953421312)"
  using round_double_normal [of "-4" "45035996273705 / 562949953421312 + 0" 5764607523034240] by (simp add: jadd_Fin round_even_def)

lemma corr_op_32: "jadd (Fin (1441151880758559 / 2251799813685248)) (Fin (1441151880758559 / 2251799813685248)) = Fin (1441151880758559 / 1125899906842624)"
  using round_double_normal [of "0" "1441151880758559 / 2251799813685248 + (1441151880758559 / 2251799813685248)" 5764607523034236] by (simp add: jadd_Fin round_even_def)

lemma corr_op_33: "jmul (Fin 0) (Fin 0) = Fin 0"
  by (simp add: jmul_Fin signed_zero_def)

lemma corr_op_34: "jadd (Fin (5764607523034245 / 576460752303423488)) (Fin 0) = Fin (5764607523034245 / 576460752303423488)"
  using round_double_normal [of "-7" "5764607523034245 / 576460752303423488 + 0" 5764607523034245] by (simp add: jadd_Fin round_even_def)

lemma corr_op_35: "jadd (Fin (3602879701896397 / 2251799813685248)) (Fin (3602879701896397 / 4503599627370496)) = Fin (1351079888211149 / 562949953421312)"
  using round_double_normal [of "1" "3602879701896397 / 2251799813685248 + (3602879701896397 / 4503599627370496)" 5404319552844596] by (simp add: jadd_Fin round_even_def)

lemma corr_op_36: "jadd (Fin (225179981368525 / 2251799813685248)) (Fin (102354536985693 / 1125899906842624)) = Fin (429889055339911 / 2251799813685248)"
  using round_double_normal [of "-3" "225179981368525 / 2251799813685248 + (102354536985693 / 1125899906842624)" 6878224885438576] by (simp add: jadd_Fin round_even_def)

lemma corr_op_37: "jmul (Fin (3602879701896397 / 4503599627370496)) (Fin (102354536985693 / 1125899906842624)) = Fin (2620276146833741 / 36028797018963968)"
  using round_double_normal [of "-4" "(3602879701896397 / 4503599627370496) * (102354536985693 / 1125899906842624)" 5240552293667482] by (simp add: jmul_Fin round_even_def)

lemma corr_op_38: "jadd (Fin (45035996273705 / 562949953421312)) (Fin (2620276146833741 / 36028797018963968)) = Fin (5502579908350861 / 36028797018963968)"
  using round_double_normal [of "-3" "45035996273705 / 562949953421312 + (2620276146833741 / 36028797018963968)" 5502579908350861] by (simp add: jadd_Fin round_even_def)

lemma corr_op_39: "jadd (Fin (1441151880758559 / 1125899906842624)) (Fin (1441151880758559 / 2251799813685248)) = Fin (4323455642275677 / 2251799813685248)"
  using round_double_normal [of "0" "1441151880758559 / 1125899906842624 + (1441151880758559 / 2251799813685248)" 8646911284551354] by (simp add: jadd_Fin round_even_def)

lemma corr_op_40: "jmul (Fin (102354536985693 / 1125899906842624)) (Fin (102354536985693 / 1125899906842624)) = Fin (4764138448788615 / 576460752303423488)"
  using round_double_normal [of "-7" "(102354536985693 / 1125899906842624) * (102354536985693 / 1125899906842624)" 4764138448788615] by (simp add: jmul_Fin round_even_def)

lemma corr_op_41: "jadd (Fin (5764607523034245 / 576460752303423488)) (Fin (4764138448788615 / 576460752303423488)) = Fin (2632186492955715 / 144115188075855872)"
  using round_double_normal [of "-6" "5764607523034245 / 576460752303423488 + (4764138448788615 / 576460752303423488)" 5264372985911430] by (simp add: jadd_Fin round_even_def)

lemma corr_op_42: "jadd (Fin (1351079888211149 / 562949953421312)) (Fin (3602879701896397 / 4503599627370496)) = Fin (3602879701896397 / 1125899906842624)"
  using round_double_normal [of "1" "1351079888211149 / 562949953421312 + (3602879701896397 / 4503599627370496)" 7205759403792794] by (simp add: jadd_Fin round_even_def)

lemma corr_op_43: "jadd (Fin (429889055339911 / 2251799813685248)) (Fin (- (300239975158033 / 9007199254740992))) = Fin (1419316246201611 / 9007199254740992)"
  using round_double_normal [of "-3" "429889055339911 / 2251799813685248 + (- (300239975158033 / 9007199254740992))" 5677264984806444] by (simp add: jadd_Fin round_even_def)

lemma corr_op_44: "jmul (Fin (3602879701896397 / 4503599627370496)) (Fin (- (300239975158033 / 9007199254740992))) = Fin (- (7686143364045645 / 288230376151711744))"
  using round_double_normal [of "-6" "(3602879701896397 / 4503599627370496) * (- (300239975158033 / 9007199254740992))" 7686143364045645] by (simp add: jmul_Fin round_even_def)

lemma corr_op_45: "jadd (Fin (5502579908350861 / 36028797018963968)) (Fin (- (7686143364045645 / 288230376151711744))) = Fin (4541811987845155 / 36028797018963968)"
  using round_double_normal [of "-3" "5502579908350861 / 36028797018963968 + (- (7686143364045645 / 288230376151711744))" 4541811987845155] by (simp add: jadd_Fin round_even_def)

lemma corr_op_46: "jadd (Fin (4323455642275677 / 2251799813685248)) (Fin (1441151880758559 / 2251799813685248)) = Fin (1441151880758559 / 562949953421312)"
  using round_double_normal [of "1" "4323455642275677 / 2251799813685248 + (1441151880758559 / 2251799813685248)" 5764607523034236] by (simp add: jadd_Fin round_even_def)

lemma corr_op_47: "jmul (Fin (- (300239975158033 / 9007199254740992))) (Fin (- (300239975158033 / 9007199254740992))) = Fin (5124095576030429 / 4611686018427387904)"
  using round_double_normal [of "-10" "(- (300239975158033 / 9007199254740992)) * (- (300239975158033 / 9007199254740992))" 5124095576030429] by (simp add: jmul_Fin round_even_def)

lemma corr_op_48: "jadd (Fin (2632186492955715 / 144115188075855872)) (Fin (5124095576030429 / 4611686018427387904)) = Fin (1396157239853333 / 72057594037927936)"
  using round_double_normal [of "-6" "2632186492955715 / 144115188075855872 + (5124095576030429 / 4611686018427387904)" 5584628959413332] by (simp add: jadd_Fin round_even_def)

lemma corr_op_49: "jadd (Fin (3602879701896397 / 1125899906842624)) (Fin (3602879701896397 / 4503599627370496)) = Fin 4"
  using round_double_normal [of "2" "3602879701896397 / 1125899906842624 + (3602879701896397 / 4503599627370496)" 4503599627370496] by (simp add: jadd_Fin round_even_def)

lemma corr_op_50: "jadd (Fin (1419316246201611 / 9007199254740992)) (Fin (232944808312267 / 4503599627370496)) = Fin (1885205862826145 / 9007199254740992)"
  using round_double_normal [of "-3" "1419316246201611 / 9007199254740992 + (232944808312267 / 4503599627370496)" 7540823451304580] by (simp add: jadd_Fin round_even_def)

lemma corr_op_51: "jmul (Fin (3602879701896397 / 4503599627370496)) (Fin (232944808312267 / 4503599627370496)) = Fin (1490846773198509 / 36028797018963968)"
  using round_double_normal [of "-5" "(3602879701896397 / 4503599627370496) * (232944808312267 / 4503599627370496)" 5963387092794036] by (simp add: jmul_Fin round_even_def)

lemma corr_op_52: "jadd (Fin (4541811987845155 / 36028797018963968)) (Fin (1490846773198509 / 36028797018963968)) = Fin (377041172565229 / 2251799813685248)"
  using round_double_normal [of "-3" "4541811987845155 / 36028797018963968 + (1490846773198509 / 36028797018963968)" 6032658761043664] by (simp add: jadd_Fin round_even_def)

lemma corr_op_53: "jadd (Fin (1441151880758559 / 562949953421312)) (Fin (1441151880758559 / 2251799813685248)) = Fin (7205759403792795 / 2251799813685248)"
  using round_double_normal [of "1" "1441151880758559 / 562949953421312 + (1441151880758559 / 2251799813685248)" 7205759403792795] by (simp add: jadd_Fin round_even_def)

lemma corr_op_54: "jmul (Fin (232944808312267 / 4503599627370496)) (Fin (232944808312267 / 4503599627370496)) = Fin (6169021130476587 / 2305843009213693952)"
  using round_double_normal [of "-9" "(232944808312267 / 4503599627370496) * (232944808312267 / 4503599627370496)" 6169021130476587] by (simp add: jmul_Fin round_even_def)

lemma corr_op_55: "jadd (Fin (1396157239853333 / 72057594037927936)) (Fin (6169021130476587 / 2305843009213693952)) = Fin (6355756600722905 / 288230376151711744)"
  using round_double_normal [of "-6" "1396157239853333 / 72057594037927936 + (6169021130476587 / 2305843009213693952)" 6355756600722905] by (simp add: jadd_Fin round_even_def)

lemma corr_op_56: "jadd (Fin 4) (Fin (3602879701896397 / 4503599627370496)) = Fin (5404319552844595 / 1125899906842624)"
  using round_double_normal [of "2" "4 + (3602879701896397 / 4503599627370496)" 5404319552844595] by (simp add: jadd_Fin round_even_def)

lemma corr_op_57: "jadd (Fin (1885205862826145 / 9007199254740992)) (Fin (73829502088041 / 2251799813685248)) = Fin (2180523871178309 / 9007199254740992)"
  using round_double_normal [of "-3" "1885205862826145 / 9007199254740992 + (73829502088041 / 2251799813685248)" 8722095484713236] by (simp add: jadd_Fin round_even_def)

lemma corr_op_58: "jmul (Fin (3602879701896397 / 4503599627370496)) (Fin (73829502088041 / 2251799813685248)) = Fin (7560141013815399 / 288230376151711744)"
  using round_double_normal [of "-6" "(3602879701896397 / 4503599627370496) * (73829502088041 / 2251799813685248)" 7560141013815399] by (simp add: jmul_Fin round_even_def)

lemma corr_op_59: "jadd (Fin (377041172565229 / 2251799813685248)) (Fin (7560141013815399 / 288230376151711744)) = Fin (6977676387770589 / 36028797018963968)"
  using round_double_normal [of "-3" "377041172565229 / 2251799813685248 + (7560141013815399 / 288230376151711744)" 6977676387770589] by (simp add: jadd_Fin round_even_def)

lemma corr_op_60: "jadd (Fin (7205759403792795 / 2251799813685248)) (Fin (1441151880758559 / 2251799813685248)) = Fin (4323455642275677 / 1125899906842624)"
  using round_double_normal [of "1" "7205759403792795 / 2251799813685248 + (1441151880758559 / 2251799813685248)" 8646911284551354] by (simp add: jadd_Fin round_even_def)

lemma corr_op_61: "jmul (Fin (73829502088041 / 2251799813685248)) (Fin (73829502088041 / 2251799813685248)) = Fin (1239367379314001 / 1152921504606846976)"
  using round_double_normal [of "-10" "(73829502088041 / 2251799813685248) * (73829502088041 / 2251799813685248)" 4957469517256004] by (simp add: jmul_Fin round_even_def)

lemma corr_op_62: "jadd (Fin (6355756600722905 / 288230376151711744)) (Fin (1239367379314001 / 1152921504606846976)) = Fin (6665598445551405 / 288230376151711744)"
  using round_double_normal [of "-6" "6355756600722905 / 288230376151711744 + (1239367379314001 / 1152921504606846976)" 6665598445551405] by (simp add: jadd_Fin round_even_def)

lemma corr_op_63: "jmul (Fin 6) (Fin (6977676387770589 / 36028797018963968)) = Fin (2616628645413971 / 2251799813685248)"
  using round_double_normal [of "0" "6 * (6977676387770589 / 36028797018963968)" 5233257290827942] by (simp add: jmul_Fin round_even_def)

lemma corr_op_64: "jmul (Fin (5404319552844595 / 1125899906842624)) (Fin (2180523871178309 / 9007199254740992)) = Fin (5233257290827941 / 4503599627370496)"
  using round_double_normal [of "0" "(5404319552844595 / 1125899906842624) * (2180523871178309 / 9007199254740992)" 5233257290827941] by (simp add: jmul_Fin round_even_def)

lemma corr_op_65: "jsub (Fin (2616628645413971 / 2251799813685248)) (Fin (5233257290827941 / 4503599627370496)) = Fin (1 / 4503599627370496)"
  using round_double_normal [of "-52" "2616628645413971 / 2251799813685248 - (5233257290827941 / 4503599627370496)" 4503599627370496] by (simp add: jsub_Fin round_even_def)

lemma corr_op_66: "jmul (Fin 6) (Fin (4323455642275677 / 1125899906842624)) = Fin (1621295865853379 / 70368744177664)"
  using round_double_normal [of "4" "6 * (4323455642275677 / 1125899906842624)" 6485183463413516] by (simp add: jmul_Fin round_even_def)

lemma corr_op_67: "jmul (Fin (5404319552844595 / 1125899906842624)) (Fin (5404319552844595 / 1125899906842624)) = Fin (3242591731706757 / 140737488355328)"
  using round_double_normal [of "4" "(5404319552844595 / 1125899906842624) * (5404319552844595 / 1125899906842624)" 6485183463413514] by (simp add: jmul_Fin round_even_def)

lemma corr_op_68: "jsub (Fin (1621295865853379 / 70368744177664)) (Fin (3242591731706757 / 140737488355328)) = Fin (1 / 140737488355328)"
  using round_double_normal [of "-47" "1621295865853379 / 70368744177664 - (3242591731706757 / 140737488355328)" 4503599627370496] by (simp add: jsub_Fin round_even_def)

lemma corr_op_69: "jmul (Fin 6) (Fin (6665598445551405 / 288230376151711744)) = Fin (2499599417081777 / 18014398509481984)"
  using round_double_normal [of "-3" "6 * (6665598445551405 / 288230376151711744)" 4999198834163554] by (simp add: jmul_Fin round_even_def)

lemma corr_op_70: "jmul (Fin (2180523871178309 / 9007199254740992)) (Fin (2180523871178309 / 9007199254740992)) = Fin (8446016069247333 / 144115188075855872)"
  using round_double_normal [of "-5" "(2180523871178309 / 9007199254740992) * (2180523871178309 / 9007199254740992)" 8446016069247333] by (simp add: jmul_Fin round_even_def)

lemma corr_op_71: "jsub (Fin (2499599417081777 / 18014398509481984)) (Fin (8446016069247333 / 144115188075855872)) = Fin (2887694816851721 / 36028797018963968)"
  using round_double_normal [of "-4" "2499599417081777 / 18014398509481984 - (8446016069247333 / 144115188075855872)" 5775389633703442] by (simp add: jsub_Fin round_even_def)

lemma corr_op_72: "jmul (Fin (1 / 140737488355328)) (Fin (2887694816851721 / 36028797018963968)) = Fin (2887694816851721 / 5070602400912917605986812821504)"
  using round_double_normal [of "-51" "(1 / 140737488355328) * (2887694816851721 / 36028797018963968)" 5775389633703442] by (simp add: jmul_Fin round_even_def)

lemma corr_op_73: "jsqrt (Fin (2887694816851721 / 5070602400912917605986812821504)) = Fin (3606247537417963 / 151115727451828646838272)"
  using round_double_sqrt [where r = "2887694816851721 / 5070602400912917605986812821504" and e = "-26" and n = 7212495074835926] by (simp add: jsqrt_def power2_eq_square)

lemma corr_op_74: "jdiv (Fin (1 / 4503599627370496)) (Fin (3606247537417963 / 151115727451828646838272)) = Fin (2812121102781213 / 302231454903657293676544)"
  using round_double_normal [of "-27" "(1 / 4503599627370496) / (3606247537417963 / 151115727451828646838272)" 5624242205562426] by (simp add: jdiv_Fin round_even_def)

lemma corr_op_75: "round_double (17 / 20) = Fin (7656119366529843 / 9007199254740992)"
  using round_double_normal [of "-1" "17 / 20" 7656119366529843] by (simp add: round_even_def)

lemma corr_op_76: "jdiv (Fin 34012224) (Fin 1000000) = Fin (598349372392351 / 17592186044416)"
  using round_double_normal [of "5" "34012224 / 1000000" 4786794979138808] by (simp add: jdiv_Fin round_even_def)

lemma corr_op_77: "jsub (Fin (598349372392351 / 17592186044416)) (Fin 1) = Fin (580757186347935 / 17592186044416)"
  using round_double_normal [of "5" "598349372392351 / 17592186044416 - 1" 4646057490783480] by (simp add: jsub_Fin round_even_def)

lemma corr_op_78: "jdiv (Fin 63) (Fin 50) = Fin (5674535530486825 / 4503599627370496)"
  using round_double_normal [of "0" "63 / 50" 5674535530486825] by (simp add: jdiv_Fin round_even_def)

lemma corr_op_79: "jsub (Fin (5674535530486825 / 4503599627370496)) (Fin 1) = Fin (1170935903116329 / 4503599627370496)"
  using round_double_normal [of "-2" "5674535530486825 / 4503599627370496 - 1" 4683743612465316] by (simp add: jsub_Fin round_even_def)

lemma corr_op_80: "jsub (Fin (580757186347935 / 17592186044416)) (Fin (1170935903116329 / 4503599627370496)) = Fin (4609465743811095 / 140737488355328)"
  using round_double_normal [of "5" "580757186347935 / 17592186044416 - (1170935903116329 / 4503599627370496)" 4609465743811095] by (simp add: jsub_Fin round_even_def)

lemma corr_op_81: "jmul (Fin (4609465743811095 / 140737488355328)) (Fin 100) = Fin (1800572556176209 / 549755813888)"
  using round_double_normal [of "11" "(4609465743811095 / 140737488355328) * 100" 7202290224704836] by (simp add: jmul_Fin round_even_def)

lemmas corr_ops = corr_op_1 corr_op_2 corr_op_3 corr_op_4 corr_op_5 corr_op_6 corr_op_7 corr_op_8 corr_op_9 corr_op_10 corr_op_11 corr_op_12 corr_op_13 corr_op_14 corr_op_15 corr_op_16 corr_op_17 corr_op_18 corr_op_19 corr_op_20 corr_op_21 corr_op_22 corr_op_23 corr_op_24 corr_op_25 corr_op_26 corr_op_27 corr_op_28 corr_op_29 corr_op_30 corr_op_31 corr_op_32 corr_op_33 corr_op_34 corr_op_35 corr_op_36 corr_op_37 corr_op_38 corr_op_39 corr_op_40 corr_op_41 corr_op_42 corr_op_43 corr_op_44 corr_op_45 corr_op_46 corr_op_47 corr_op_48 corr_op_49 corr_op_50 corr_op_51 corr_op_52 corr_op_53 corr_op_54 corr_op_55 corr_op_56 corr_op_57 corr_op_58 corr_op_59 corr_op_60 corr_op_61 corr_op_62 corr_op_63 corr_op_64 corr_op_65 corr_op_66 corr_op_67 corr_op_68 corr_op_69 corr_op_70 corr_op_71 corr_op_72 corr_op_73 corr_op_74 corr_op_75 corr_op_76 corr_op_77 corr_op_78 corr_op_79 corr_op_80 corr_op_81

lemma corr_prices:
  "parseFloat ''50'' = Fin 50"
  "parseFloat ''55'' = Fin 55"
  "parseFloat ''58'' = Fin 58"
  "parseFloat ''60'' = Fin 60"
  "parseFloat ''61'' = Fin 61"
  "parseFloat ''63'' = Fin 63"
  "parseFloat ''1000000'' = Fin 1000000"
  "parseFloat ''1800000'' = Fin 1800000"
  "parseFloat ''3240000'' = Fin 3240000"
  "parseFloat ''5832000'' = Fin 5832000"
  "parseFloat ''10497600'' = Fin 10497600"
  "parseFloat ''18895680'' = Fin 18895680"
  "parseFloat ''34012224'' = Fin 34012224"
  by (simp_all add: parseFloat_def str_decimal_def exponent_of_def pow10_def is_space_def
      is_digit_def digits_val_def digit_val_def)

lemma corr_maps:
  "price_maps corr_rows col3 ''AAA'' ''VTI'' ''2025-01-01'' =
     ([(''2025-01-01'', Fin 1000000), (''2025-01-02'', Fin 1800000), (''2025-01-03'', Fin 3240000), (''2025-01-04'', Fin 5832000), (''2025-01-05'', Fin 10497600), (''2025-01-06'', Fin 18895680), (''2025-01-07'', Fin 34012224)],
      [(''2025-01-01'', Fin 50), (''2025-01-02'', Fin 55), (''2025-01-03'', Fin 55), (''2025-01-04'', Fin 60), (''2025-01-05'', Fin 58), (''2025-01-06'', Fin 61), (''2025-01-07'', Fin 63)])"
  unfolding price_maps_def corr_rows_def
  by (simp add: price_maps_step_def cellS_def corr_prices str_eval Let_def)

lemma corr_dates:
  "intersectSortedKeys [(''2025-01-01'', Fin 1000000), (''2025-01-02'', Fin 1800000), (''2025-01-03'', Fin 3240000), (''2025-01-04'', Fin 5832000), (''2025-01-05'', Fin 10497600), (''2025-01-06'', Fin 18895680), (''2025-01-07'', Fin 34012224)]
      [(''2025-01-01'', Fin 50), (''2025-01-02'', Fin 55), (''2025-01-03'', Fin 55), (''2025-01-04'', Fin 60), (''2025-01-05'', Fin 58), (''2025-01-06'', Fin 61), (''2025-01-07'', Fin 63)] = [''2025-01-01'', ''2025-01-02'', ''2025-01-03'', ''2025-01-04'', ''2025-01-05'', ''2025-01-06'', ''2025-01-07'']"
  by (simp add: intersectSortedKeys_def)

lemma corr_returns:
  "return_pairs [(''2025-01-01'', Fin 1000000), (''2025-01-02'', Fin 1800000), (''2025-01-03'', Fin 3240000), (''2025-01-04'', Fin 5832000), (''2025-01-05'', Fin 10497600), (''2025-01-06'', Fin 18895680), (''2025-01-07'', Fin 34012224)]
      [(''2025-01-01'', Fin 50), (''2025-01-02'', Fin 55), (''2025-01-03'', Fin 55), (''2025-01-04'', Fin 60), (''2025-01-05'', Fin 58), (''2025-01-06'', Fin 61), (''2025-01-07'', Fin 63)]
      [''2025-01-01'', ''2025-01-02'', ''2025-01-03'', ''2025-01-04'', ''2025-01-05'', ''2025-01-06'', ''2025-01-07''] =
     [(Fin (3602879701896397 / 4503599627370496), Fin (225179981368525 / 2251799813685248)), (Fin (3602879701896397 / 4503599627370496), Fin 0), (Fin (3602879701896397 / 4503599627370496), Fin (102354536985693 / 1125899906842624)), (Fin (3602879701896397 / 4503599627370496), Fin (- (300239975158033 / 9007199254740992))), (Fin (3602879701896397 / 4503599627370496), Fin (232944808312267 / 4503599627370496)), (Fin (3602879701896397 / 4503599627370496), Fin (73829502088041 / 2251799813685248))]"
  by (simp add: return_pairs_def map_get_def corr_ops)

lemma corr_den:
  "pearson_den [Fin (3602879701896397 / 4503599627370496), Fin (3602879701896397 / 4503599627370496), Fin (3602879701896397 / 4503599627370496), Fin (3602879701896397 / 4503599627370496), Fin (3602879701896397 / 4503599627370496), Fin (3602879701896397 / 4503599627370496)]
      [Fin (225179981368525 / 2251799813685248), Fin 0, Fin (102354536985693 / 1125899906842624), Fin (- (300239975158033 / 9007199254740992)), Fin (232944808312267 / 4503599627370496), Fin (73829502088041 / 2251799813685248)] = Fin (3606247537417963 / 151115727451828646838272)"
  by (simp add: pearson_den_def pearson_sums_def corr_ops)

lemma corr_num:
  "pearson_num [Fin (3602879701896397 / 4503599627370496), Fin (3602879701896397 / 4503599627370496), Fin (3602879701896397 / 4503599627370496), Fin (3602879701896397 / 4503599627370496), Fin (3602879701896397 / 4503599627370496), Fin (3602879701896397 / 4503599627370496)]
      [Fin (225179981368525 / 2251799813685248), Fin 0, Fin (102354536985693 / 1125899906842624), Fin (- (300239975158033 / 9007199254740992)), Fin (232944808312267 / 4503599627370496), Fin (73829502088041 / 2251799813685248)] = Fin (1 / 4503599627370496)"
  by (simp add: pearson_num_def pearson_sums_def corr_ops)

lemma corr_pearson:
  "pearson [Fin (3602879701896397 / 4503599627370496), Fin (3602879701896397 / 4503599627370496), Fin (3602879701896397 / 4503599627370496), Fin (3602879701896397 / 4503599627370496), Fin (3602879701896397 / 4503599627370496), Fin (3602879701896397 / 4503599627370496)]
      [Fin (225179981368525 / 2251799813685248), Fin 0, Fin (102354536985693 / 1125899906842624), Fin (- (300239975158033 / 9007199254740992)), Fin (232944808312267 / 4503599627370496), Fin (73829502088041 / 2251799813685248)] = Fin (2812121102781213 / 302231454903657293676544)"
  by (simp add: pearson_def corr_den corr_num jeq_def corr_ops)

lemma toFixed_real_small:
  assumes "0 \<le> r" and "r * 100 < 1 / 2"
  shows "toFixed_real r 2 = ''0.00''"
proof -
  have "\<lfloor>\<bar>r\<bar> * 10 ^ 2 + 1 / 2\<rfloor> = 0" using assms by (simp add: floor_eq_iff)
  then have n: "nat \<lfloor>\<bar>r\<bar> * 10 ^ 2 + 1 / 2\<rfloor> = 0" by simp
  have z: "pad_zero (2 + 1) (show_nat 0) = ''000''"
    by (simp add: show_nat_0 pad_zero_def numeral_3_eq_3)
  show ?thesis
    unfolding toFixed_real_def Let_def n z using assms(1) by simp
qed

lemma corr_min: "MIN_CORR_RETURNS cfg1 = 6"
  by (simp add: cfg1_def)

lemma corr_threshold: "CORR_ALERT_THRESHOLD cfg1 = Fin (7656119366529843 / 9007199254740992)"
  by (simp add: cfg1_def corr_ops)

lemma corr_str_example: "corr_str cfg1 (Fin (2812121102781213 / 302231454903657293676544)) = GREEN @ '' 0.00''"
proof -
  have t: "toFixed (Fin (2812121102781213 / 302231454903657293676544)) 2 = ''0.00''"
    unfolding toFixed_def by (simp add: toFixed_real_small)
  have l: "jle (Fin (2812121102781213 / 302231454903657293676544)) (CORR_ALERT_THRESHOLD cfg1)"
    unfolding corr_threshold by (simp add: jle_def jless_def)
  show ?thesis unfolding corr_str_def t using l by simp
qed

lemma corr_alpha_value:
  "alpha_value [(''2025-01-01'', Fin 1000000), (''2025-01-02'', Fin 1800000), (''2025-01-03'', Fin 3240000), (''2025-01-04'', Fin 5832000), (''2025-01-05'', Fin 10497600), (''2025-01-06'', Fin 18895680), (''2025-01-07'', Fin 34012224)]
      [(''2025-01-01'', Fin 50), (''2025-01-02'', Fin 55), (''2025-01-03'', Fin 55), (''2025-01-04'', Fin 60), (''2025-01-05'', Fin 58), (''2025-01-06'', Fin 61), (''2025-01-07'', Fin 63)]
      [''2025-01-01'', ''2025-01-02'', ''2025-01-03'', ''2025-01-04'', ''2025-01-05'', ''2025-01-06'', ''2025-01-07''] = Fin (4609465743811095 / 140737488355328)"
  by (simp add: alpha_value_def map_get_def corr_ops)

lemma show_nat_32752: "show_nat 32752 = ''32752''"
  by (simp add: show_nat.simps digit_char_def)

lemma corr_alpha_str: "alpha_str (Fin (4609465743811095 / 140737488355328)) = GREEN @ '' 3275.2%''"
proof -
  have n: "nat \<lfloor>\<bar>1800572556176209 / 549755813888 :: real\<bar> * 10 ^ 1 + 1 / 2\<rfloor> = 32752" by simp
  have z: "pad_zero (1 + 1) (show_nat 32752) = ''32752''"
    by (simp add: show_nat_32752 pad_zero_def)
  have t: "toFixed (Fin (1800572556176209 / 549755813888)) 1 = ''3275.2''"
    unfolding toFixed_def jsnum.case toFixed_real_def Let_def n z by simp
  show ?thesis
    unfolding alpha_str_def using t by (simp add: jle_def jless_def corr_ops)
qed

lemma corr_result:
  "calculateAlphaAndCorrVsBenchmark cfg1 corr_rows col3 ''AAA'' ''VTI'' ''2025-01-01'' =
     Inr \<lparr>bench = ''VTI'', policyStart = ''2025-01-01'', windowStart = ''2025-01-01'',
          windowEnd = ''2025-01-07'', alpha = GREEN @ '' 3275.2%'', corr = GREEN @ '' 0.00''\<rparr>"
  unfolding calculateAlphaAndCorrVsBenchmark_def Let_def
  by (simp add: str_eval) (simp add: corr_maps corr_dates corr_returns corr_value_def corr_min
      corr_pearson corr_alpha_value corr_alpha_str corr_str_example)

text \<open>The small example: three times 0.3 against 1, 2, 4.\<close>

lemma small_op_1: "round_double (3 / 10) = Fin (5404319552844595 / 18014398509481984)"
  using round_double_normal [of "-2" "3 / 10" 5404319552844595] by (simp add: round_even_def)

lemma small_op_2: "jadd (Fin 0) (Fin (5404319552844595 / 18014398509481984)) = Fin (5404319552844595 / 18014398509481984)"
  using round_double_normal [of "-2" "0 + (5404319552844595 / 18014398509481984)" 5404319552844595] by (simp add: jadd_Fin round_even_def)

lemma small_op_3: "jadd (Fin 0) (Fin 1) = Fin 1"
  using round_double_normal [of "0" "0 + 1" 4503599627370496] by (simp add: jadd_Fin round_even_def)

lemma small_op_4: "jmul (Fin (5404319552844595 / 18014398509481984)) (Fin 1) = Fin (5404319552844595 / 18014398509481984)"
  using round_double_normal [of "-2" "(5404319552844595 / 18014398509481984) * 1" 5404319552844595] by (simp add: jmul_Fin round_even_def)

lemma small_op_5: "jmul (Fin (5404319552844595 / 18014398509481984)) (Fin (5404319552844595 / 18014398509481984)) = Fin (3242591731706757 / 36028797018963968)"
  using round_double_normal [of "-4" "(5404319552844595 / 18014398509481984) * (5404319552844595 / 18014398509481984)" 6485183463413514] by (simp add: jmul_Fin round_even_def)

lemma small_op_6: "jadd (Fin 0) (Fin (3242591731706757 / 36028797018963968)) = Fin (3242591731706757 / 36028797018963968)"
  using round_double_normal [of "-4" "0 + (3242591731706757 / 36028797018963968)" 6485183463413514] by (simp add: jadd_Fin round_even_def)

lemma small_op_7: "jmul (Fin 1) (Fin 1) = Fin 1"
  using round_double_normal [of "0" "1 * 1" 4503599627370496] by (simp add: jmul_Fin round_even_def)

lemma small_op_8: "jadd (Fin (5404319552844595 / 18014398509481984)) (Fin (5404319552844595 / 18014398509481984)) = Fin (5404319552844595 / 9007199254740992)"
  using round_double_normal [of "-1" "5404319552844595 / 18014398509481984 + (5404319552844595 / 18014398509481984)" 5404319552844595] by (simp add: jadd_Fin round_even_def)

lemma small_op_9: "jadd (Fin 1) (Fin 2) = Fin 3"
  using round_double_normal [of "1" "1 + 2" 6755399441055744] by (simp add: jadd_Fin round_even_def)

lemma small_op_10: "jmul (Fin (5404319552844595 / 18014398509481984)) (Fin 2) = Fin (5404319552844595 / 9007199254740992)"
  using round_double_normal [of "-1" "(5404319552844595 / 18014398509481984) * 2" 5404319552844595] by (simp add: jmul_Fin round_even_def)

lemma small_op_11: "jadd (Fin (5404319552844595 / 18014398509481984)) (Fin (5404319552844595 / 9007199254740992)) = Fin (2026619832316723 / 2251799813685248)"
  using round_double_normal [of "-1" "5404319552844595 / 18014398509481984 + (5404319552844595 / 9007199254740992)" 8106479329266892] by (simp add: jadd_Fin round_even_def)

lemma small_op_12: "jadd (Fin (3242591731706757 / 36028797018963968)) (Fin (3242591731706757 / 36028797018963968)) = Fin (3242591731706757 / 18014398509481984)"
  using round_double_normal [of "-3" "3242591731706757 / 36028797018963968 + (3242591731706757 / 36028797018963968)" 6485183463413514] by (simp add: jadd_Fin round_even_def)

lemma small_op_13: "jmul (Fin 2) (Fin 2) = Fin 4"
  using round_double_normal [of "2" "2 * 2" 4503599627370496] by (simp add: jmul_Fin round_even_def)

lemma small_op_14: "jadd (Fin 1) (Fin 4) = Fin 5"
  using round_double_normal [of "2" "1 + 4" 5629499534213120] by (simp add: jadd_Fin round_even_def)

lemma small_op_15: "jadd (Fin (5404319552844595 / 9007199254740992)) (Fin (5404319552844595 / 18014398509481984)) = Fin (2026619832316723 / 2251799813685248)"
  using round_double_normal [of "-1" "5404319552844595 / 9007199254740992 + (5404319552844595 / 18014398509481984)" 8106479329266892] by (simp add: jadd_Fin round_even_def)

lemma small_op_16: "jadd (Fin 3) (Fin 4) = Fin 7"
  using round_double_normal [of "2" "3 + 4" 7881299347898368] by (simp add: jadd_Fin round_even_def)

lemma small_op_17: "jmul (Fin (5404319552844595 / 18014398509481984)) (Fin 4) = Fin (5404319552844595 / 4503599627370496)"
  using round_double_normal [of "0" "(5404319552844595 / 18014398509481984) * 4" 5404319552844595] by (simp add: jmul_Fin round_even_def)

lemma small_op_18: "jadd (Fin (2026619832316723 / 2251799813685248)) (Fin (5404319552844595 / 4503599627370496)) = Fin (1182194902184755 / 562949953421312)"
  using round_double_normal [of "1" "2026619832316723 / 2251799813685248 + (5404319552844595 / 4503599627370496)" 4728779608739020] by (simp add: jadd_Fin round_even_def)

lemma small_op_19: "jadd (Fin (3242591731706757 / 18014398509481984)) (Fin (3242591731706757 / 36028797018963968)) = Fin (607985949695017 / 2251799813685248)"
  using round_double_normal [of "-2" "3242591731706757 / 18014398509481984 + (3242591731706757 / 36028797018963968)" 4863887597560136] by (simp add: jadd_Fin round_even_def)

lemma small_op_20: "jmul (Fin 4) (Fin 4) = Fin 16"
  using round_double_normal [of "4" "4 * 4" 4503599627370496] by (simp add: jmul_Fin round_even_def)

lemma small_op_21: "jadd (Fin 5) (Fin 16) = Fin 21"
  using round_double_normal [of "4" "5 + 16" 5910974510923776] by (simp add: jadd_Fin round_even_def)

lemma small_op_22: "jmul (Fin 3) (Fin (1182194902184755 / 562949953421312)) = Fin (3546584706554265 / 562949953421312)"
  using round_double_normal [of "2" "3 * (1182194902184755 / 562949953421312)" 7093169413108530] by (simp add: jmul_Fin round_even_def)

lemma small_op_23: "jmul (Fin (2026619832316723 / 2251799813685248)) (Fin 7) = Fin (3546584706554265 / 562949953421312)"
  using round_double_normal [of "2" "(2026619832316723 / 2251799813685248) * 7" 7093169413108530] by (simp add: jmul_Fin round_even_def)

lemma small_op_24: "jsub (Fin (3546584706554265 / 562949953421312)) (Fin (3546584706554265 / 562949953421312)) = Fin 0"
  by (simp add: jsub_Fin)

lemma small_op_25: "jmul (Fin 3) (Fin (607985949695017 / 2251799813685248)) = Fin (1823957849085051 / 2251799813685248)"
  using round_double_normal [of "-1" "3 * (607985949695017 / 2251799813685248)" 7295831396340204] by (simp add: jmul_Fin round_even_def)

lemma small_op_26: "jmul (Fin (2026619832316723 / 2251799813685248)) (Fin (2026619832316723 / 2251799813685248)) = Fin (3647915698170101 / 4503599627370496)"
  using round_double_normal [of "-1" "(2026619832316723 / 2251799813685248) * (2026619832316723 / 2251799813685248)" 7295831396340202] by (simp add: jmul_Fin round_even_def)

lemma small_op_27: "jsub (Fin (1823957849085051 / 2251799813685248)) (Fin (3647915698170101 / 4503599627370496)) = Fin (1 / 4503599627370496)"
  using round_double_normal [of "-52" "1823957849085051 / 2251799813685248 - (3647915698170101 / 4503599627370496)" 4503599627370496] by (simp add: jsub_Fin round_even_def)

lemma small_op_28: "jmul (Fin 3) (Fin 21) = Fin 63"
  using round_double_normal [of "5" "3 * 21" 8866461766385664] by (simp add: jmul_Fin round_even_def)

lemma small_op_29: "jmul (Fin 7) (Fin 7) = Fin 49"
  using round_double_normal [of "5" "7 * 7" 6896136929411072] by (simp add: jmul_Fin round_even_def)

lemma small_op_30: "jsub (Fin 63) (Fin 49) = Fin 14"
  using round_double_normal [of "3" "63 - 49" 7881299347898368] by (simp add: jsub_Fin round_even_def)

lemma small_op_31: "jmul (Fin (1 / 4503599627370496)) (Fin 14) = Fin (7 / 2251799813685248)"
  using round_double_normal [of "-49" "(1 / 4503599627370496) * 14" 7881299347898368] by (simp add: jmul_Fin round_even_def)

lemma small_op_32: "jsqrt (Fin (7 / 2251799813685248)) = Fin (8425463406411593 / 151115727451828646838272)"
  using round_double_sqrt [where r = "7 / 2251799813685248" and e = "-25" and n = 8425463406411593] by (simp add: jsqrt_def power2_eq_square)

lemmas small_ops = small_op_1 small_op_2 small_op_3 small_op_4 small_op_5 small_op_6 small_op_7 small_op_8 small_op_9 small_op_10 small_op_11 small_op_12 small_op_13 small_op_14 small_op_15 small_op_16 small_op_17 small_op_18 small_op_19 small_op_20 small_op_21 small_op_22 small_op_23 small_op_24 small_op_25 small_op_26 small_op_27 small_op_28 small_op_29 small_op_30 small_op_31 small_op_32

lemma small_parse: "parseFloat ''0.3'' = Fin (5404319552844595 / 18014398509481984)"
  by (simp add: parseFloat_def str_decimal_def exponent_of_def pow10_def is_space_def
      is_digit_def digits_val_def digit_val_def small_ops)

lemma small_den:
  "pearson_den [parseFloat ''0.3'', parseFloat ''0.3'', parseFloat ''0.3''] [Fin 1, Fin 2, Fin 4] = Fin (8425463406411593 / 151115727451828646838272)"
  by (simp add: small_parse pearson_den_def pearson_sums_def small_ops)

lemma small_num:
  "pearson_num [parseFloat ''0.3'', parseFloat ''0.3'', parseFloat ''0.3''] [Fin 1, Fin 2, Fin 4] = Fin 0"
  by (simp add: small_parse pearson_num_def pearson_sums_def small_ops)

text \<open>
  Claim C9 does not hold of the code. The guard of \<^verbatim>\<open>pearson_\<close> compares the computed
  denominator with zero, and for a series whose values are all equal the rounded sums can
  leave a denominator that is not zero. For the ticker of \<open>corr_rows\<close>, which gains
  exactly 80 percent on each of six days, the six returns are equal, the denominator is
  about 2.4 / 10^8, \<^verbatim>\<open>pearson_\<close> returns about 9.3 / 10^9, and the correlation is
  reported as 0.00 where the claim says \<^verbatim>\<open>N/A\<close>. Likewise \<^verbatim>\<open>pearson_\<close> returns 0,
  not \<open>NaN\<close>, for three times 0.3 against 1, 2, 4.
\<close>

theorem constant_returns_reported_as_number:
  "constant_series (map fst
     (return_pairs (fst (price_maps corr_rows col3 ''AAA'' ''VTI'' ''2025-01-01''))
      (snd (price_maps corr_rows col3 ''AAA'' ''VTI'' ''2025-01-01''))
      (intersectSortedKeys (fst (price_maps corr_rows col3 ''AAA'' ''VTI'' ''2025-01-01''))
        (snd (price_maps corr_rows col3 ''AAA'' ''VTI'' ''2025-01-01''))))) \<and>
   length
     (return_pairs (fst (price_maps corr_rows col3 ''AAA'' ''VTI'' ''2025-01-01''))
      (snd (price_maps corr_rows col3 ''AAA'' ''VTI'' ''2025-01-01''))
      (intersectSortedKeys (fst (price_maps corr_rows col3 ''AAA'' ''VTI'' ''2025-01-01''))
        (snd (price_maps corr_rows col3 ''AAA'' ''VTI'' ''2025-01-01'')))) = 6 \<and>
   pearson_den (map fst
     (return_pairs (fst (price_maps corr_rows col3 ''AAA'' ''VTI'' ''2025-01-01''))
      (snd (price_maps corr_rows col3 ''AAA'' ''VTI'' ''2025-01-01''))
      (intersectSortedKeys (fst (price_maps corr_rows col3 ''AAA'' ''VTI'' ''2025-01-01''))
        (snd (price_maps corr_rows col3 ''AAA'' ''VTI'' ''2025-01-01'')))))
    (map snd
     (return_pairs (fst (price_maps corr_rows col3 ''AAA'' ''VTI'' ''2025-01-01''))
      (snd (price_maps corr_rows col3 ''AAA'' ''VTI'' ''2025-01-01''))
      (intersectSortedKeys (fst (price_maps corr_rows col3 ''AAA'' ''VTI'' ''2025-01-01''))
        (snd (price_maps corr_rows col3 ''AAA'' ''VTI'' ''2025-01-01''))))) = Fin (3606247537417963 / 151115727451828646838272) \<and>
   pearson (map fst
     (return_pairs (fst (price_maps corr_rows col3 ''AAA'' ''VTI'' ''2025-01-01''))
      (snd (price_maps corr_rows col3 ''AAA'' ''VTI'' ''2025-01-01''))
      (intersectSortedKeys (fst (price_maps corr_rows col3 ''AAA'' ''VTI'' ''2025-01-01''))
        (snd (price_maps corr_rows col3 ''AAA'' ''VTI'' ''2025-01-01'')))))
    (map snd
     (return_pairs (fst (price_maps corr_rows col3 ''AAA'' ''VTI'' ''2025-01-01''))
      (snd (price_maps corr_rows col3 ''AAA'' ''VTI'' ''2025-01-01''))
      (intersectSortedKeys (fst (price_maps corr_rows col3 ''AAA'' ''VTI'' ''2025-01-01''))
        (snd (price_maps corr_rows col3 ''AAA'' ''VTI'' ''2025-01-01''))))) = Fin (2812121102781213 / 302231454903657293676544) \<and>
   calculateAlphaAndCorrVsBenchmark cfg1 corr_rows col3 ''AAA'' ''VTI'' ''2025-01-01'' =
     Inr \<lparr>bench = ''VTI'', policyStart = ''2025-01-01'', windowStart = ''2025-01-01'',
          windowEnd = ''2025-01-07'', alpha = GREEN @ '' 3275.2%'', corr = GREEN @ '' 0.00''\<rparr> \<and>
   constant_series [parseFloat ''0.3'', parseFloat ''0.3'', parseFloat ''0.3''] \<and>
   pearson [parseFloat ''0.3'', parseFloat ''0.3'', parseFloat ''0.3''] [Fin 1, Fin 2, Fin 4] = Fin 0"
proof -
  have s: "pearson [parseFloat ''0.3'', parseFloat ''0.3'', parseFloat ''0.3''] [Fin 1, Fin 2, Fin 4] = Fin 0"
    by (simp add: pearson_def small_den small_num jeq_def jdiv_Fin signed_zero_def)
  show ?thesis
    unfolding corr_maps fst_conv snd_conv corr_dates corr_returns
    by (simp add: constant_series_def corr_den corr_pearson s
        corr_result [unfolded corr_maps fst_conv snd_conv corr_dates corr_returns])
qed

end
